(* ===== verification/Prelude.thy ===== *)
theory Prelude
  imports Main "HOL-Library.Word" "HOL-Library.Signed_Division" "HOL-Library.Sublist"
    "HOL-Library.AList" "HOL-Library.Monad_Syntax"
begin

text \<open>
  What every component shares: Rust's machine integers, Rust's \<open>str\<close> operations on ASCII
  strings, error results and hash maps, each with the lemmas the component proofs rest on.

  \<^item> An \<open>i64\<close> is an \<open>int\<close> with the width written out: plain \<open>+\<close> and \<open>*\<close> go through
    \<open>wrap_i64\<close> (the workspace's release profile leaves overflow checks off, so they wrap),
    \<open>checked_*\<close> return an option, \<open>saturating_*\<close> clamp, and \<open>/\<close> truncates towards zero
    and panics on a zero divisor. A panic is \<open>None\<close>.
  \<^item> Unsigned counters are \<open>nat\<close> with their wrap or their saturation written out; bytes and
    words that are only moved or masked are \<open>8 word\<close>, \<open>32 word\<close>, \<open>64 word\<close>.
  \<^item> A \<open>str\<close> is a \<open>char list\<close> of ASCII characters, so \<open>len()\<close> and byte slicing agree with
    list length and \<open>take\<close>/\<open>drop\<close>, and \<open>to_uppercase\<close> is the ASCII one.
  \<^item> A \<open>HashMap\<close> is an association list with distinct keys; its order stands for the
    unspecified iteration order, and the properties only speak about its \<open>map_of\<close> and \<open>set\<close>.
\<close>

named_theorems i64_defs \<open>definitions of the machine-integer operations\<close>
named_theorems str_defs \<open>definitions of the Rust string operations\<close>

section \<open>Machine integers\<close>

type_synonym i64 = int
type_synonym byte = "8 word"
type_synonym u32w = "32 word"
type_synonym u64w = "64 word"

definition in_i64 :: "int \<Rightarrow> bool" where
  "in_i64 x \<longleftrightarrow> - (2 ^ 63) \<le> x \<and> x < 2 ^ 63"

definition wrap_i64 :: "int \<Rightarrow> i64" where
  "wrap_i64 x = (x + 2 ^ 63) mod 2 ^ 64 - 2 ^ 63"

definition sat_i64 :: "int \<Rightarrow> i64" where
  "sat_i64 x = max (- (2 ^ 63)) (min (2 ^ 63 - 1) x)"

definition saturating_add_i64 :: "i64 \<Rightarrow> i64 \<Rightarrow> i64" where
  "saturating_add_i64 a b = sat_i64 (a + b)"

definition saturating_sub_i64 :: "i64 \<Rightarrow> i64 \<Rightarrow> i64" where
  "saturating_sub_i64 a b = sat_i64 (a - b)"

definition saturating_mul_i64 :: "i64 \<Rightarrow> i64 \<Rightarrow> i64" where
  "saturating_mul_i64 a b = sat_i64 (a * b)"

definition checked_i64 :: "int \<Rightarrow> i64 option" where
  "checked_i64 x = (if in_i64 x then Some x else None)"

definition checked_add_i64 :: "i64 \<Rightarrow> i64 \<Rightarrow> i64 option" where
  "checked_add_i64 a b = checked_i64 (a + b)"

definition checked_mul_i64 :: "i64 \<Rightarrow> i64 \<Rightarrow> i64 option" where
  "checked_mul_i64 a b = checked_i64 (a * b)"

definition checked_pow_i64 :: "i64 \<Rightarrow> nat \<Rightarrow> i64 option" where
  "checked_pow_i64 b n = checked_i64 (b ^ n)"

text \<open>\<open>a / b\<close> and \<open>a % b\<close> on \<open>i64\<close>: both panic on a zero divisor and on \<open>MIN / -1\<close>.\<close>

definition div_i64 :: "i64 \<Rightarrow> i64 \<Rightarrow> i64 option" where
  "div_i64 a b = (if b = 0 \<or> (a = - (2 ^ 63) \<and> b = -1) then None else Some (a sdiv b))"

definition rem_i64 :: "i64 \<Rightarrow> i64 \<Rightarrow> i64 option" where
  "rem_i64 a b = (if b = 0 \<or> (a = - (2 ^ 63) \<and> b = -1) then None else Some (a smod b))"

definition u32_max :: nat where "u32_max = 2 ^ 32 - 1"
definition u64_max :: nat where "u64_max = 2 ^ 64 - 1"

definition saturating_add_u32 :: "nat \<Rightarrow> nat \<Rightarrow> nat" where
  "saturating_add_u32 a b = min u32_max (a + b)"

definition saturating_add_u64 :: "nat \<Rightarrow> nat \<Rightarrow> nat" where
  "saturating_add_u64 a b = min u64_max (a + b)"

definition saturating_mul_u64 :: "nat \<Rightarrow> nat \<Rightarrow> nat" where
  "saturating_mul_u64 a b = min u64_max (a * b)"

definition wrap_u64 :: "nat \<Rightarrow> nat" where
  "wrap_u64 x = x mod 2 ^ 64"

text \<open>\<open>a - b\<close> and \<open>x as u64\<close> at 64 bits, also modulo \<open>2 ^ 64\<close>.\<close>

definition wrapping_sub_u64 :: "nat \<Rightarrow> nat \<Rightarrow> nat" where
  "wrapping_sub_u64 a b = nat ((int a - int b) mod 2 ^ 64)"

definition i64_as_u64 :: "i64 \<Rightarrow> nat" where
  "i64_as_u64 x = nat (x mod 2 ^ 64)"

lemmas i64_op_defs [i64_defs] =
  in_i64_def wrap_i64_def sat_i64_def saturating_add_i64_def saturating_sub_i64_def
  saturating_mul_i64_def checked_i64_def checked_add_i64_def checked_mul_i64_def
  checked_pow_i64_def div_i64_def rem_i64_def

lemma wrap_i64_id [simp]: "in_i64 x \<Longrightarrow> wrap_i64 x = x"
  by (simp add: wrap_i64_def in_i64_def)

lemma in_i64_wrap [simp, intro]: "in_i64 (wrap_i64 x)"
proof -
  have "(x + 2 ^ 63) mod 2 ^ 64 < 2 ^ 64" and "0 \<le> (x + 2 ^ 63) mod 2 ^ 64" by simp_all
  then show ?thesis by (simp add: wrap_i64_def in_i64_def)
qed

lemma in_i64_sat [simp, intro]: "in_i64 (sat_i64 x)"
  by (simp add: sat_i64_def in_i64_def)

lemma sat_i64_id [simp]: "in_i64 x \<Longrightarrow> sat_i64 x = x"
  by (simp add: sat_i64_def in_i64_def)

lemma in_i64_saturating [simp, intro]:
  "in_i64 (saturating_add_i64 a b)" "in_i64 (saturating_sub_i64 a b)"
  "in_i64 (saturating_mul_i64 a b)"
  by (simp_all add: saturating_add_i64_def saturating_sub_i64_def saturating_mul_i64_def)

lemma checked_i64_Some [simp]: "checked_i64 x = Some y \<longleftrightarrow> in_i64 x \<and> y = x"
  by (auto simp: checked_i64_def)

lemma checked_i64_None [simp]: "checked_i64 x = None \<longleftrightarrow> \<not> in_i64 x"
  by (auto simp: checked_i64_def)

lemma div_i64_pos [simp]: "0 < b \<Longrightarrow> div_i64 a b = Some (a sdiv b)"
  by (simp add: div_i64_def)

lemma sdiv_nonneg_pos: "0 \<le> a \<Longrightarrow> 0 < b \<Longrightarrow> (a::int) sdiv b = a div b"
  by (cases "a = 0") (simp_all add: signed_divide_int_def sgn_if)

text \<open>\<open>(a / b) * b\<close> for a positive \<open>b\<close>: towards zero, so within \<open>b\<close> of \<open>a\<close> on zero's side.\<close>

lemma sdiv_mult_bounds:
  fixes a b :: int
  assumes "0 < b"
  shows "0 \<le> a \<Longrightarrow> a - b < a sdiv b * b \<and> a sdiv b * b \<le> a \<and> 0 \<le> a sdiv b * b"
    and "a < 0 \<Longrightarrow> a \<le> a sdiv b * b \<and> a sdiv b * b < a + b \<and> a sdiv b * b \<le> 0"
proof -
  assume a: "0 \<le> a"
  have eq: "a div b * b = a - a mod b" by (simp add: minus_mod_eq_div_mult)
  have "0 \<le> a mod b" "a mod b < b" using assms by simp_all
  moreover have "0 \<le> a div b * b" using a assms by (simp add: pos_imp_zdiv_nonneg_iff)
  ultimately show "a - b < a sdiv b * b \<and> a sdiv b * b \<le> a \<and> 0 \<le> a sdiv b * b"
    using eq by (simp add: sdiv_nonneg_pos a assms)
next
  assume a: "a < 0"
  have s: "a sdiv b = - ((- a) div b)" using a assms by (simp add: signed_divide_int_def sgn_if)
  have eq: "(- a) div b * b = - a - (- a) mod b" by (simp add: minus_mod_eq_div_mult)
  have "0 \<le> (- a) mod b" "(- a) mod b < b" using assms by simp_all
  moreover have "0 \<le> (- a) div b * b" using a assms by (simp add: pos_imp_zdiv_nonneg_iff)
  ultimately show "a \<le> a sdiv b * b \<and> a sdiv b * b < a + b \<and> a sdiv b * b \<le> 0"
    using eq by (simp add: s)
qed

lemma sdiv_mult_in_i64: "0 < b \<Longrightarrow> in_i64 a \<Longrightarrow> in_i64 (a sdiv b * b)"
  using sdiv_mult_bounds [of b a] by (cases "0 \<le> a") (auto simp: in_i64_def)

lemma int_div_less:
  assumes "0 < (c::int)" and "a < b * c"
  shows "a div c < b"
proof (rule ccontr)
  assume "\<not> a div c < b"
  then have "b * c \<le> a div c * c" using assms(1) by (intro mult_right_mono) simp_all
  also have "a div c * c \<le> a" using assms(1) by (simp add: minus_mod_eq_div_mult [symmetric])
  finally show False using assms(2) by simp
qed

lemma int_mult_div_div: "0 < (c::int) \<Longrightarrow> a * c div m div c = a div m"
  using zdiv_zmult2_eq [of c "a * c" m] by simp

lemma int_div_le: "0 \<le> (v::int) \<Longrightarrow> 0 < c \<Longrightarrow> v div c \<le> v"
  using zdiv_mono2 [of v 1 c] by simp

section \<open>Error results\<close>

text \<open>A \<open>Result\<close> is a sum with the error on the left; \<open>rbind\<close> is the \<open>?\<close> operator.\<close>

fun rbind :: "'e + 'a \<Rightarrow> ('a \<Rightarrow> 'e + 'b) \<Rightarrow> 'e + 'b" where
  "rbind (Inl e) f = Inl e"
| "rbind (Inr x) f = f x"

fun ok_or :: "'a option \<Rightarrow> 'e \<Rightarrow> 'e + 'a" where
  "ok_or (Some x) e = Inr x"
| "ok_or None e = Inl e"

fun map_err :: "('e \<Rightarrow> 'f) \<Rightarrow> 'e + 'a \<Rightarrow> 'f + 'a" where
  "map_err f (Inl e) = Inl (f e)"
| "map_err f (Inr x) = Inr x"

fun res_ok :: "'e + 'a \<Rightarrow> 'a option" where
  "res_ok (Inl e) = None"
| "res_ok (Inr x) = Some x"

lemma rbind_Inr [simp]: "rbind m f = Inr y \<longleftrightarrow> (\<exists>x. m = Inr x \<and> f x = Inr y)"
  by (cases m) auto

lemma ok_or_Inr [simp]: "ok_or m e = Inr y \<longleftrightarrow> m = Some y"
  by (cases m) auto

lemma map_err_Inr [simp]: "map_err f m = Inr y \<longleftrightarrow> m = Inr y"
  by (cases m) auto

lemma res_ok_Some [simp]: "res_ok m = Some y \<longleftrightarrow> m = Inr y"
  by (cases m) auto

text \<open>A loop that pushes the result of a fallible step and stops at the first error.\<close>

fun try_map :: "('a \<Rightarrow> 'e + 'b) \<Rightarrow> 'a list \<Rightarrow> 'e + 'b list" where
  "try_map f [] = Inr []"
| "try_map f (x # xs) = rbind (f x) (\<lambda>y. rbind (try_map f xs) (\<lambda>ys. Inr (y # ys)))"

text \<open>The same loop where a step may also \<open>continue\<close> (a \<open>None\<close> pushes nothing).\<close>

fun try_collect :: "('a \<Rightarrow> 'e + 'b option) \<Rightarrow> 'a list \<Rightarrow> 'e + 'b list" where
  "try_collect f [] = Inr []"
| "try_collect f (x # xs) =
     rbind (f x) (\<lambda>y. rbind (try_collect f xs) (\<lambda>ys.
       Inr (case y of None \<Rightarrow> ys | Some b \<Rightarrow> b # ys)))"

lemma try_map_length: "try_map f xs = Inr ys \<Longrightarrow> length ys = length xs"
  by (induction xs arbitrary: ys) auto

lemma try_map_nth: "try_map f xs = Inr ys \<Longrightarrow> i < length xs \<Longrightarrow> f (xs ! i) = Inr (ys ! i)"
proof (induction xs arbitrary: ys i)
  case (Cons x xs)
  then show ?case by (cases i) auto
qed simp

lemma try_map_set: "try_map f xs = Inr ys \<Longrightarrow> y \<in> set ys \<Longrightarrow> \<exists>x \<in> set xs. f x = Inr y"
  by (induction xs arbitrary: ys) auto

lemma try_collect_set:
  "try_collect f xs = Inr ys \<Longrightarrow> y \<in> set ys \<Longrightarrow> \<exists>x \<in> set xs. f x = Inr (Some y)"
  by (induction xs arbitrary: ys) (auto split: option.splits)

lemma try_collect_length: "try_collect f xs = Inr ys \<Longrightarrow> length ys \<le> length xs"
  by (induction xs arbitrary: ys) (fastforce split: option.splits)+

text \<open>\<open>slice::chunks\<close>: pieces of at most \<open>n\<close> elements, in order.\<close>

function chunks :: "nat \<Rightarrow> 'a list \<Rightarrow> 'a list list" where
  "chunks n xs = (if n = 0 \<or> xs = [] then [] else take n xs # chunks n (drop n xs))"
  by pat_completeness auto
termination by (relation "measure (\<lambda>(n, xs). length xs)") auto

declare chunks.simps [simp del]

lemma chunks_concat: "0 < n \<Longrightarrow> concat (chunks n xs) = xs"
  by (induction n xs rule: chunks.induct) (subst chunks.simps, simp)

lemma chunks_size: "c \<in> set (chunks n xs) \<Longrightarrow> c \<noteq> [] \<and> length c \<le> n"
proof (induction n xs rule: chunks.induct)
  case (1 n xs)
  then show ?case
    by (subst (asm) (2) chunks.simps) (auto split: if_splits)
qed

end
