(* ===== verification/Rust_Str.thy ===== *)
theory Rust_Str
  imports Prelude
begin

text \<open>
  The operations of Rust's \<open>str\<close> and its integer parser and formatter that the sources use,
  on ASCII strings. Errors of \<open>parse\<close> carry the standard library's messages.
\<close>

section \<open>Characters\<close>

definition chr_code :: "char \<Rightarrow> nat" where
  "chr_code c = of_char c"

text \<open>\<open>as_bytes\<close>.\<close>

definition as_bytes :: "string \<Rightarrow> byte list" where
  "as_bytes s = map (\<lambda>c. word_of_nat (chr_code c)) s"

definition is_ascii_digit :: "char \<Rightarrow> bool" where
  "is_ascii_digit c \<longleftrightarrow> 48 \<le> chr_code c \<and> chr_code c \<le> 57"

definition is_ascii_upper :: "char \<Rightarrow> bool" where
  "is_ascii_upper c \<longleftrightarrow> 65 \<le> chr_code c \<and> chr_code c \<le> 90"

definition is_ascii_lower :: "char \<Rightarrow> bool" where
  "is_ascii_lower c \<longleftrightarrow> 97 \<le> chr_code c \<and> chr_code c \<le> 122"

definition is_ascii_alphanumeric :: "char \<Rightarrow> bool" where
  "is_ascii_alphanumeric c \<longleftrightarrow> is_ascii_digit c \<or> is_ascii_upper c \<or> is_ascii_lower c"

definition is_whitespace :: "char \<Rightarrow> bool" where
  "is_whitespace c \<longleftrightarrow> chr_code c = 32 \<or> (9 \<le> chr_code c \<and> chr_code c \<le> 13)"

definition upper_char :: "char \<Rightarrow> char" where
  "upper_char c = (if is_ascii_lower c then char_of (chr_code c - 32) else c)"

definition lower_char :: "char \<Rightarrow> char" where
  "lower_char c = (if is_ascii_upper c then char_of (chr_code c + 32) else c)"

definition digit_val :: "char \<Rightarrow> int" where
  "digit_val c = int (chr_code c) - 48"

definition digit_char :: "nat \<Rightarrow> char" where
  "digit_char d = char_of (48 + d)"

lemmas chr_defs [str_defs] = chr_code_def is_ascii_digit_def is_ascii_upper_def
  is_ascii_lower_def is_ascii_alphanumeric_def is_whitespace_def upper_char_def lower_char_def
  digit_val_def digit_char_def

lemma digit_val_bounds: "is_ascii_digit c \<Longrightarrow> 0 \<le> digit_val c \<and> digit_val c \<le> 9"
  by (simp add: is_ascii_digit_def digit_val_def)

lemma chr_code_char_of [simp]: "n < 256 \<Longrightarrow> chr_code (char_of n) = n"
  by (simp add: chr_code_def)

lemma digit_char_props: "d < 10 \<Longrightarrow> is_ascii_digit (digit_char d) \<and> digit_val (digit_char d) = int d"
  by (simp add: is_ascii_digit_def digit_val_def digit_char_def)

lemma char_eq_iff_code: "c = d \<longleftrightarrow> chr_code c = chr_code d"
  by (simp add: chr_code_def)

section \<open>Slices, prefixes and splitting\<close>

definition to_uppercase :: "string \<Rightarrow> string" where
  "to_uppercase s = map upper_char s"

definition to_lowercase :: "string \<Rightarrow> string" where
  "to_lowercase s = map lower_char s"

definition eq_ignore_ascii_case :: "string \<Rightarrow> string \<Rightarrow> bool" where
  "eq_ignore_ascii_case a b \<longleftrightarrow> to_lowercase a = to_lowercase b"

definition trim :: "string \<Rightarrow> string" where
  "trim s = rev (dropWhile is_whitespace (rev (dropWhile is_whitespace s)))"

definition trim_end_matches :: "char \<Rightarrow> string \<Rightarrow> string" where
  "trim_end_matches c s = rev (dropWhile (\<lambda>d. d = c) (rev s))"

definition starts_with :: "string \<Rightarrow> string \<Rightarrow> bool" where
  "starts_with s p \<longleftrightarrow> take (length p) s = p"

definition ends_with :: "string \<Rightarrow> string \<Rightarrow> bool" where
  "ends_with s p \<longleftrightarrow> length p \<le> length s \<and> drop (length s - length p) s = p"

definition strip_prefix :: "string \<Rightarrow> string \<Rightarrow> string option" where
  "strip_prefix p s = (if starts_with s p then Some (drop (length p) s) else None)"

definition strip_suffix :: "string \<Rightarrow> string \<Rightarrow> string option" where
  "strip_suffix p s = (if ends_with s p then Some (take (length s - length p) s) else None)"

text \<open>\<open>s.find(c)\<close> for a character.\<close>

fun find_char :: "char \<Rightarrow> string \<Rightarrow> nat option" where
  "find_char c [] = None"
| "find_char c (d # s) = (if d = c then Some 0 else map_option Suc (find_char c s))"

text \<open>\<open>s.splitn(2, c)\<close>: the part before the first \<open>c\<close> and, if there is one, the rest.\<close>

fun splitn2 :: "char \<Rightarrow> string \<Rightarrow> string \<times> string option" where
  "splitn2 c [] = ([], None)"
| "splitn2 c (d # s) =
     (if d = c then ([], Some s) else (let (a, r) = splitn2 c s in (d # a, r)))"

fun split_on :: "char \<Rightarrow> string \<Rightarrow> string list" where
  "split_on c [] = [[]]"
| "split_on c (d # s) =
     (if d = c then [] # split_on c s
      else (case split_on c s of [] \<Rightarrow> [[d]] | p # ps \<Rightarrow> (d # p) # ps))"

fun str_contains :: "string \<Rightarrow> string \<Rightarrow> bool" where
  "str_contains [] p = (p = [])"
| "str_contains (c # s) p = (starts_with (c # s) p \<or> str_contains s p)"

text \<open>\<open>s.replace(p, r)\<close>, left to right and without overlap, for a nonempty pattern.\<close>

function str_replace :: "string \<Rightarrow> string \<Rightarrow> string \<Rightarrow> string" where
  "str_replace p r s =
     (case s of [] \<Rightarrow> []
      | c # cs \<Rightarrow> if p \<noteq> [] \<and> starts_with s p then r @ str_replace p r (drop (length p) s)
                 else c # str_replace p r cs)"
  by pat_completeness auto
termination
  by (relation "measure (\<lambda>(p, r, s). length s)") auto

declare str_replace.simps [simp del]

definition replace_char :: "char \<Rightarrow> string \<Rightarrow> string \<Rightarrow> string" where
  "replace_char c r s = concat (map (\<lambda>d. if d = c then r else [d]) s)"

text \<open>\<open>join\<close>.\<close>

fun join_with :: "string \<Rightarrow> string list \<Rightarrow> string" where
  "join_with sep [] = []"
| "join_with sep [s] = s"
| "join_with sep (s # ss) = s @ sep @ join_with sep ss"

lemmas str_op_defs [str_defs] = to_uppercase_def to_lowercase_def eq_ignore_ascii_case_def
  trim_def trim_end_matches_def starts_with_def ends_with_def strip_prefix_def strip_suffix_def
  replace_char_def

lemma find_char_None: "find_char c s = None \<longleftrightarrow> c \<notin> set s"
  by (induction s) auto

lemma find_char_app: "c \<notin> set a \<Longrightarrow> find_char c (a @ c # b) = Some (length a)"
  by (induction a) auto

lemma splitn2_no: "c \<notin> set s \<Longrightarrow> splitn2 c s = (s, None)"
  by (induction s) auto

lemma splitn2_app: "c \<notin> set a \<Longrightarrow> splitn2 c (a @ c # b) = (a, Some b)"
  by (induction a) auto

lemma starts_with_app [simp]: "starts_with (p @ s) p"
  by (simp add: starts_with_def)

lemma starts_with_conv: "starts_with s p \<longleftrightarrow> (\<exists>r. s = p @ r)"
  unfolding starts_with_def by (metis append_eq_conv_conj)

lemma ends_with_conv: "ends_with s p \<longleftrightarrow> (\<exists>r. s = r @ p)"
proof
  assume "ends_with s p"
  then have "s = take (length s - length p) s @ p"
    by (metis append_take_drop_id ends_with_def)
  then show "\<exists>r. s = r @ p" ..
qed (auto simp: ends_with_def)

lemma strip_prefix_Some: "strip_prefix p s = Some r \<longleftrightarrow> s = p @ r"
  by (auto simp: strip_prefix_def starts_with_conv)

lemma trim_id: "s \<noteq> [] \<Longrightarrow> \<not> is_whitespace (hd s) \<Longrightarrow> \<not> is_whitespace (last s) \<Longrightarrow> trim s = s"
proof -
  assume s: "s \<noteq> []" "\<not> is_whitespace (hd s)" "\<not> is_whitespace (last s)"
  then have "dropWhile is_whitespace s = s" by (cases s) auto
  moreover have "dropWhile is_whitespace (rev s) = rev s"
    using s by (cases s rule: rev_cases) auto
  ultimately show ?thesis by (simp add: trim_def)
qed

lemma trim_end_matches_append:
  "a \<noteq> [] \<Longrightarrow> last a \<noteq> c \<Longrightarrow> trim_end_matches c (a @ replicate n c) = a"
proof -
  assume a: "a \<noteq> []" "last a \<noteq> c"
  have "dropWhile (\<lambda>d. d = c) (replicate n c @ rev a) = rev a"
    using a by (induction n) (auto simp: dropWhile_eq_self_iff hd_rev)
  then show ?thesis by (simp add: trim_end_matches_def)
qed

lemma trim_end_matches_decomp: "\<exists>n. s = trim_end_matches c s @ replicate n c"
proof (intro exI)
  let ?n = "length (takeWhile (\<lambda>d. d = c) (rev s))"
  have "takeWhile (\<lambda>d. d = c) (rev s) = replicate ?n c"
    by (rule replicate_eqI [symmetric, THEN sym]) (auto dest: set_takeWhileD)
  then show "s = trim_end_matches c s @ replicate ?n c"
    by (metis rev_append rev_replicate rev_rev_ident takeWhile_dropWhile_id trim_end_matches_def)
qed

lemma trim_end_matches_last: "trim_end_matches c s \<noteq> [] \<Longrightarrow> last (trim_end_matches c s) \<noteq> c"
  by (metis (mono_tags, lifting) hd_dropWhile last_rev rev_is_Nil_conv trim_end_matches_def)

section \<open>Integers: parse and to_string\<close>

definition err_empty :: string where "err_empty = ''cannot parse integer from empty string''"
definition err_digit :: string where "err_digit = ''invalid digit found in string''"
definition err_pos :: string where "err_pos = ''number too large to fit in target type''"
definition err_neg :: string where "err_neg = ''number too small to fit in target type''"

fun parse_pos :: "int \<Rightarrow> int \<Rightarrow> string \<Rightarrow> string + int" where
  "parse_pos mx acc [] = Inr acc"
| "parse_pos mx acc (c # cs) =
     (if \<not> is_ascii_digit c then Inl err_digit
      else if mx < acc * 10 \<or> mx < acc * 10 + digit_val c then Inl err_pos
      else parse_pos mx (acc * 10 + digit_val c) cs)"

fun parse_neg :: "int \<Rightarrow> int \<Rightarrow> string \<Rightarrow> string + int" where
  "parse_neg mn acc [] = Inr acc"
| "parse_neg mn acc (c # cs) =
     (if \<not> is_ascii_digit c then Inl err_digit
      else if acc * 10 < mn \<or> acc * 10 - digit_val c < mn then Inl err_neg
      else parse_neg mn (acc * 10 - digit_val c) cs)"

text \<open>\<open>str::parse\<close> for a signed integer type with range \<open>mn .. mx\<close>.\<close>

definition parse_signed :: "int \<Rightarrow> int \<Rightarrow> string \<Rightarrow> string + int" where
  "parse_signed mn mx s =
     (case s of [] \<Rightarrow> Inl err_empty
      | c # cs \<Rightarrow>
          if cs = [] \<and> (c = CHR ''+'' \<or> c = CHR ''-'') then Inl err_digit
          else if c = CHR ''+'' then parse_pos mx 0 cs
          else if c = CHR ''-'' then parse_neg mn 0 cs
          else parse_pos mx 0 s)"

definition parse_i64 :: "string \<Rightarrow> string + i64" where
  "parse_i64 = parse_signed (- (2 ^ 63)) (2 ^ 63 - 1)"

definition parse_i128 :: "string \<Rightarrow> string + int" where
  "parse_i128 = parse_signed (- (2 ^ 127)) (2 ^ 127 - 1)"

text \<open>An unsigned type takes a \<open>+\<close> and no \<open>-\<close>: a leading \<open>-\<close> is an invalid digit.\<close>

definition parse_unsigned :: "int \<Rightarrow> string \<Rightarrow> string + nat" where
  "parse_unsigned mx s =
     (case s of [] \<Rightarrow> Inl err_empty
      | c # cs \<Rightarrow>
          if cs = [] \<and> (c = CHR ''+'' \<or> c = CHR ''-'') then Inl err_digit
          else if c = CHR ''+'' then map_sum id nat (parse_pos mx 0 cs)
          else map_sum id nat (parse_pos mx 0 s))"

definition parse_u64 :: "string \<Rightarrow> string + nat" where
  "parse_u64 = parse_unsigned (2 ^ 64 - 1)"

definition parse_u32 :: "string \<Rightarrow> string + nat" where
  "parse_u32 = parse_unsigned (2 ^ 32 - 1)"

definition parse_u8 :: "string \<Rightarrow> string + nat" where
  "parse_u8 = parse_unsigned 255"

lemmas parse_defs [str_defs] = parse_u8_def parse_signed_def parse_i64_def parse_i128_def parse_unsigned_def
  parse_u64_def parse_u32_def err_empty_def err_digit_def err_pos_def err_neg_def

text \<open>The value of a digit string, without a bound.\<close>

fun dec_val :: "int \<Rightarrow> string \<Rightarrow> int" where
  "dec_val acc [] = acc"
| "dec_val acc (c # cs) = dec_val (acc * 10 + digit_val c) cs"

abbreviation all_digits :: "string \<Rightarrow> bool" where
  "all_digits s \<equiv> list_all is_ascii_digit s"

lemma dec_val_shift: "dec_val acc s = acc * 10 ^ length s + dec_val 0 s"
proof (induction s arbitrary: acc)
  case (Cons c cs)
  show ?case
    using Cons.IH [of "acc * 10 + digit_val c"] Cons.IH [of "0 * 10 + digit_val c"]
    by (simp add: algebra_simps)
qed simp

lemma dec_val_append: "dec_val acc (s @ t) = dec_val (dec_val acc s) t"
  by (induction s arbitrary: acc) auto

lemma dec_val_bounds: "all_digits s \<Longrightarrow> 0 \<le> dec_val 0 s \<and> dec_val 0 s < 10 ^ length s"
proof (induction s rule: rev_induct)
  case (snoc c s)
  then show ?case using digit_val_bounds [of c] by (simp add: dec_val_append)
qed simp

lemma dec_val_mono: "all_digits s \<Longrightarrow> 0 \<le> acc \<Longrightarrow> acc \<le> dec_val acc s"
proof (induction s arbitrary: acc)
  case (Cons c cs)
  then have "acc * 10 + digit_val c \<le> dec_val (acc * 10 + digit_val c) cs"
    using digit_val_bounds [of c] by simp
  then show ?case using Cons.prems digit_val_bounds [of c] by simp
qed simp

lemma parse_pos_ok:
  assumes "all_digits s" and "0 \<le> acc"
  shows "parse_pos mx acc s = (if s = [] \<or> dec_val acc s \<le> mx then Inr (dec_val acc s) else Inl err_pos)"
  using assms
proof (induction s arbitrary: acc)
  case (Cons c cs)
  let ?a = "acc * 10 + digit_val c"
  have a: "0 \<le> ?a" and d: "0 \<le> digit_val c"
    using Cons.prems digit_val_bounds [of c] by auto
  have le: "?a \<le> dec_val ?a cs" using dec_val_mono [of cs ?a] Cons.prems a by simp
  show ?case
  proof (cases "mx < ?a")
    case True
    then show ?thesis using Cons.prems le by simp
  next
    case False
    then have "\<not> mx < acc * 10" using d by simp
    then show ?thesis using Cons False a by auto
  qed
qed simp

lemma parse_pos_digits: "parse_pos mx acc s = Inr v \<Longrightarrow> all_digits s"
  by (induction s arbitrary: acc) (auto split: if_splits)

lemma digit_not_sign:
  "is_ascii_digit c \<Longrightarrow> c \<noteq> CHR ''+'' \<and> c \<noteq> CHR ''-'' \<and> c \<noteq> CHR ''.'' \<and> \<not> is_whitespace c"
  by (auto simp: is_ascii_digit_def is_whitespace_def chr_code_def)

lemma parse_signed_digits:
  assumes "all_digits s" and "s \<noteq> []"
  shows "parse_signed mn mx s = (if dec_val 0 s \<le> mx then Inr (dec_val 0 s) else Inl err_pos)"
proof -
  obtain c cs where s: "s = c # cs" using assms by (cases s) auto
  then have "parse_signed mn mx s = parse_pos mx 0 s"
    using assms digit_not_sign [of c] by (simp add: parse_signed_def)
  then show ?thesis using parse_pos_ok [OF assms(1), of 0 mx] assms(2) by simp
qed

text \<open>\<open>to_string\<close> of integers.\<close>

fun nat_to_string :: "nat \<Rightarrow> string" where
  "nat_to_string n =
     (if n < 10 then [digit_char n] else nat_to_string (n div 10) @ [digit_char (n mod 10)])"

declare nat_to_string.simps [simp del]

definition int_to_string :: "int \<Rightarrow> string" where
  "int_to_string i =
     (if i < 0 then CHR ''-'' # nat_to_string (nat (- i)) else nat_to_string (nat i))"

lemma nat_to_string_digits: "all_digits (nat_to_string n) \<and> nat_to_string n \<noteq> []"
proof (induction n rule: nat_to_string.induct)
  case (1 n)
  then show ?case
    by (subst nat_to_string.simps, subst (2) nat_to_string.simps)
      (auto simp: digit_char_props)
qed

lemma dec_val_nat_to_string: "dec_val 0 (nat_to_string n) = int n"
proof (induction n rule: nat_to_string.induct)
  case (1 n)
  show ?case
  proof (cases "n < 10")
    case True
    then show ?thesis by (subst nat_to_string.simps) (simp add: digit_char_props)
  next
    case False
    then have "dec_val 0 (nat_to_string n) = int (n div 10) * 10 + int (n mod 10)"
      using 1 digit_char_props [of "n mod 10"]
      by (subst nat_to_string.simps) (simp add: dec_val_append)
    then show ?thesis by presburger
  qed
qed

lemma parse_nat_to_string: "int n \<le> mx \<Longrightarrow> parse_signed mn mx (nat_to_string n) = Inr (int n)"
  using parse_signed_digits nat_to_string_digits dec_val_nat_to_string by simp

lemma nat_to_string_length: "int n < 10 ^ t \<Longrightarrow> 0 < t \<Longrightarrow> length (nat_to_string n) \<le> t"
proof (induction n arbitrary: t rule: nat_to_string.induct)
  case (1 n)
  show ?case
  proof (cases "n < 10")
    case True
    then show ?thesis using 1 by (subst nat_to_string.simps) simp
  next
    case False
    have "t \<noteq> 1" using False 1(2) by auto
    then obtain u where t: "t = Suc u" "0 < u" using 1(3) by (cases t) auto
    have "int n < 10 * 10 ^ u" using 1(2) t(1) by simp
    then have "int (n div 10) < 10 ^ u" by (simp add: zdiv_int)
    then have "length (nat_to_string (n div 10)) \<le> u" using 1(1) False t(2) by blast
    then show ?thesis using False t(1) by (subst nat_to_string.simps) simp
  qed
qed

text \<open>\<open>format!("{x:0>width$}")\<close>: the text padded with zeros on the left.\<close>

definition pad_zeros :: "nat \<Rightarrow> string \<Rightarrow> string" where
  "pad_zeros width s = replicate (width - length s) CHR ''0'' @ s"

lemma dec_val_zeros [simp]: "dec_val 0 (replicate n CHR ''0'' @ s) = dec_val 0 s"
proof -
  have "dec_val 0 (replicate n CHR ''0'') = 0"
    by (induction n) (simp_all add: digit_val_def chr_code_def)
  then show ?thesis by (simp add: dec_val_append)
qed

lemma split_on_no: "c \<notin> set s \<Longrightarrow> split_on c s = [s]"
  by (induction s) auto

lemma split_on_app: "c \<notin> set a \<Longrightarrow> split_on c (a @ c # b) = a # split_on c b"
  by (induction a) auto

lemma split_on_ne [simp]: "split_on c s \<noteq> []"
  by (induction s) (auto split: list.split)

text \<open>Parsed integers are in the range of their type.\<close>

lemma parse_pos_range: "parse_pos mx acc s = Inr v \<Longrightarrow> 0 \<le> acc \<Longrightarrow> acc \<le> mx \<Longrightarrow> 0 \<le> v \<and> v \<le> mx"
proof (induction s arbitrary: acc)
  case (Cons c s)
  then show ?case using digit_val_bounds [of c] by (auto simp: Let_def split: if_splits)
qed simp

lemma parse_unsigned_le: "0 \<le> mx \<Longrightarrow> parse_unsigned mx s = Inr n \<Longrightarrow> int n \<le> mx"
  by (auto simp: parse_unsigned_def map_sum_def split: list.splits if_splits sum.splits
      dest!: parse_pos_range simp del: parse_pos.simps)

lemma parse_neg_range: "parse_neg mn acc s = Inr v \<Longrightarrow> acc \<le> 0 \<Longrightarrow> mn \<le> acc \<Longrightarrow> mn \<le> v \<and> v \<le> 0"
proof (induction s arbitrary: acc)
  case (Cons c s)
  then show ?case using digit_val_bounds [of c] by (auto simp: Let_def split: if_splits)
qed simp

lemma parse_i64_range: "parse_i64 s = Inr v \<Longrightarrow> - (2 ^ 63) \<le> v \<and> v \<le> 2 ^ 63 - 1"
  by (auto simp: parse_i64_def parse_signed_def split: list.splits if_splits
      dest!: parse_pos_range parse_neg_range simp del: parse_pos.simps parse_neg.simps)

end
