(* ===== verification/Exchange_Core.thy ===== *)
theory Exchange_Core
  imports Rust_Str
begin

text \<open>
  The domain types of \<open>crates/exchange-core\<close>: exchanges, instruments, trade prints, footprint
  buckets, the snapshot and diff frames, and the error type of the adapters. A record field
  carries its struct's initials, since record selectors share one name space.
\<close>

section \<open>Enumerations\<close>

datatype exchange =
  Binance | BinanceF | Bybit | BybitF | Bitget | BitgetF | Okx | OkxF | Hyperliquid | HyperliquidF
| Kucoin | KucoinF | Gate | GateF | Aster | AsterF | Mexc | MexcF | Bingx | BingxF

datatype market_type = Spot | Perp

datatype quote = Usdt | Usdc

datatype aggressor_side = Bid | Ask

fun wire_id :: "exchange \<Rightarrow> string" where
  "wire_id Binance = ''BINANCE''"
| "wire_id BinanceF = ''BINANCEF''"
| "wire_id Bybit = ''BYBIT''"
| "wire_id BybitF = ''BYBITF''"
| "wire_id Bitget = ''BITGET''"
| "wire_id BitgetF = ''BITGETF''"
| "wire_id Okx = ''OKX''"
| "wire_id OkxF = ''OKXF''"
| "wire_id Hyperliquid = ''HYPERLIQUID''"
| "wire_id HyperliquidF = ''HYPERLIQUIDF''"
| "wire_id Kucoin = ''KUCOIN''"
| "wire_id KucoinF = ''KUCOINF''"
| "wire_id Gate = ''GATE''"
| "wire_id GateF = ''GATEF''"
| "wire_id Aster = ''ASTER''"
| "wire_id AsterF = ''ASTERF''"
| "wire_id Mexc = ''MEXC''"
| "wire_id MexcF = ''MEXCF''"
| "wire_id Bingx = ''BINGX''"
| "wire_id BingxF = ''BINGXF''"

fun is_futures :: "exchange \<Rightarrow> bool" where
  "is_futures BinanceF = True"
| "is_futures BybitF = True"
| "is_futures BitgetF = True"
| "is_futures OkxF = True"
| "is_futures Hyperliquid = True"
| "is_futures HyperliquidF = True"
| "is_futures KucoinF = True"
| "is_futures GateF = True"
| "is_futures AsterF = True"
| "is_futures MexcF = True"
| "is_futures BingxF = True"
| "is_futures _ = False"

text \<open>The exchanges form an \<open>enum\<close>, so that statements over all of them are executable.\<close>

instantiation exchange :: enum
begin

definition enum_exchange :: "exchange list" where
  "enum_exchange = [Binance, BinanceF, Bybit, BybitF, Bitget, BitgetF, Okx, OkxF, Hyperliquid,
     HyperliquidF, Kucoin, KucoinF, Gate, GateF, Aster, AsterF, Mexc, MexcF, Bingx, BingxF]"

definition enum_all_exchange :: "(exchange \<Rightarrow> bool) \<Rightarrow> bool" where
  "enum_all_exchange P = list_all P enum_class.enum"

definition enum_ex_exchange :: "(exchange \<Rightarrow> bool) \<Rightarrow> bool" where
  "enum_ex_exchange P = list_ex P enum_class.enum"

instance
proof
  have all: "e \<in> set (enum_class.enum :: exchange list)" for e :: exchange
    by (cases e) (simp_all add: enum_exchange_def)
  then show "UNIV = set (enum_class.enum :: exchange list)" by auto
  show "distinct (enum_class.enum :: exchange list)" by (simp add: enum_exchange_def)
  show "enum_class.enum_all P \<longleftrightarrow> Ball UNIV P" for P :: "exchange \<Rightarrow> bool"
    using all by (auto simp: enum_all_exchange_def list_all_iff)
  show "enum_class.enum_ex P \<longleftrightarrow> Bex UNIV P" for P :: "exchange \<Rightarrow> bool"
    using all by (auto simp: enum_ex_exchange_def list_ex_iff)
qed

end

section \<open>Structs\<close>

record symbol_spec =
  sp_exchange :: exchange
  sp_market_type :: market_type
  sp_quote :: quote
  sp_symbol :: string
  sp_price_scale :: nat
  sp_qty_scale :: nat
  sp_tick_size :: i64
  sp_step_size :: i64

record trade_print =
  tp_ts_ns :: i64
  tp_aggressor :: aggressor_side
  tp_price :: i64
  tp_qty :: i64
  tp_trade_id :: nat

record cluster_bucket =
  cb_price :: i64
  cb_bid_qty :: i64
  cb_ask_qty :: i64
  cb_trades :: nat

record symbol_key =
  sk_exchange :: exchange
  sk_market_type :: market_type
  sk_symbol :: string

record stream_key =
  st_symbol :: symbol_key
  st_interval_seconds :: nat

record analytics_snapshot =
  as_window_start_ns :: i64
  as_sequence :: i64
  as_clusters :: "cluster_bucket list"
  as_open :: i64
  as_close :: i64
  as_high :: i64
  as_low :: i64

record analytics_diff =
  ad_window_start_ns :: i64
  ad_sequence :: i64
  ad_upserts :: "cluster_bucket list"
  ad_removes :: "i64 list"

datatype cluster_frame = Snapshot analytics_snapshot | Diff analytics_diff

fun frame_sequence :: "cluster_frame \<Rightarrow> i64" where
  "frame_sequence (Snapshot s) = as_sequence s"
| "frame_sequence (Diff d) = ad_sequence d"

definition symbol_key_new :: "exchange \<Rightarrow> market_type \<Rightarrow> string \<Rightarrow> symbol_key" where
  "symbol_key_new ex mt s = \<lparr>sk_exchange = ex, sk_market_type = mt, sk_symbol = s\<rparr>"

definition stream_key_new :: "symbol_key \<Rightarrow> nat \<Rightarrow> stream_key" where
  "stream_key_new k iv = \<lparr>st_symbol = k, st_interval_seconds = iv\<rparr>"

section \<open>Errors and heartbeats\<close>

datatype exchange_error =
  Network string
| Parse string
| RateLimited i64 string
| Other string

fun exchange_error_display :: "exchange_error \<Rightarrow> string" where
  "exchange_error_display (Network m) = ''network error: '' @ m"
| "exchange_error_display (Parse m) = ''parse error: '' @ m"
| "exchange_error_display (RateLimited u r) =
     ''rate limited until epoch_ms='' @ int_to_string u @ '': '' @ r"
| "exchange_error_display (Other m) = ''unexpected: '' @ m"

datatype ping_kind = Protocol | PingText string | ServerInitiated

text \<open>The constants of a \<open>WsConnector\<close>; the subscribe payloads are definitions of the adapters.\<close>

record ws_profile =
  wp_ws_url :: string
  wp_ping_interval_ms :: nat
  wp_ping_payload :: ping_kind
  wp_pong_timeout_ms :: nat
  wp_max_subscriptions_per_socket :: nat

text \<open>The window and bucket of a frame, which several components read.\<close>

fun frame_window :: "cluster_frame \<Rightarrow> i64" where
  "frame_window (Snapshot s) = as_window_start_ns s"
| "frame_window (Diff d) = ad_window_start_ns d"

fun frame_buckets :: "cluster_frame \<Rightarrow> cluster_bucket list" where
  "frame_buckets (Snapshot s) = as_clusters s"
| "frame_buckets (Diff d) = ad_upserts d"

lemma wire_id_inject: "wire_id a = wire_id b \<Longrightarrow> a = b"
  by (cases a; cases b) simp_all

lemma wire_id_alphanumeric: "list_all is_ascii_alphanumeric (wire_id e) \<and> wire_id e \<noteq> []"
  by (cases e) (simp_all add: chr_defs)

end
