(* ===== verification/Footprint.thy ===== *)
theory Footprint
  imports Aggregator_Props "HOL-Library.Multiset"
begin

text \<open>
  What a footprint is, independently of the aggregator's incremental state: the trades of a
  window, their totals per price bucket and side, and their OHLC; and the refinement that the
  aggregator's state and its closing snapshots are exactly that.
\<close>

section \<open>The abstract footprint of a list of trades\<close>

definition trade_ok :: "trade_print \<Rightarrow> bool" where
  "trade_ok t \<longleftrightarrow> trade_in_range t \<and> 0 < tp_price t \<and> 0 \<le> tp_qty t"

definition in_bucket :: "i64 \<Rightarrow> i64 \<Rightarrow> trade_print list \<Rightarrow> trade_print list" where
  "in_bucket step p ts = filter (\<lambda>t. align step (tp_price t) = p) ts"

definition side_total :: "aggressor_side \<Rightarrow> trade_print list \<Rightarrow> int" where
  "side_total side ts = sum_list (map tp_qty (filter (\<lambda>t. tp_aggressor t = side) ts))"

text \<open>Totals are clamped at the largest \<open>i64\<close> and \<open>u32\<close>, where the code saturates.\<close>

definition totals :: "trade_print list \<Rightarrow> cluster_accum" where
  "totals ts = \<lparr>ca_bid_qty = min (2 ^ 63 - 1) (side_total Bid ts),
     ca_ask_qty = min (2 ^ 63 - 1) (side_total Ask ts), ca_trades = min u32_max (length ts)\<rparr>"

definition book :: "i64 \<Rightarrow> trade_print list \<Rightarrow> i64 \<rightharpoonup> cluster_accum" where
  "book step ts p = (if in_bucket step p ts = [] then None else Some (totals (in_bucket step p ts)))"

type_synonym window_log = "i64 \<times> trade_print list"

text \<open>The open, high, low and close of a list of trades, as a 4-tuple.\<close>

definition ohlc_of :: "trade_print list \<Rightarrow> i64 \<times> i64 \<times> i64 \<times> i64" where
  "ohlc_of ts =
     (if ts = [] then (0, 0, 0, 0)
      else (tp_price (hd ts), Max (tp_price ` set ts), Min (tp_price ` set ts), tp_price (last ts)))"

text \<open>
  The abstract machine: a window is a list of trades; a trade of a later window closes it, a trade
  of an earlier window is dropped.
\<close>

definition spec_ingest ::
  "i64 \<Rightarrow> window_log option \<Rightarrow> trade_print \<Rightarrow> window_log option \<times> window_log option" where
  "spec_ingest width s t =
     (let w = align width (tp_ts_ns t) in
      case s of
        None \<Rightarrow> (Some (w, [t]), None)
      | Some (c, ts) \<Rightarrow>
          if c < w then (Some (w, [t]), Some (c, ts))
          else if w < c then (s, None)
          else (Some (c, ts @ [t]), None))"

definition spec_late :: "i64 \<Rightarrow> window_log option \<Rightarrow> trade_print \<Rightarrow> bool" where
  "spec_late width s t =
     (case s of None \<Rightarrow> False | Some (c, ts) \<Rightarrow> align width (tp_ts_ns t) < c)"

fun spec_event ::
  "i64 \<Rightarrow> window_log option \<Rightarrow> agg_event \<Rightarrow> window_log option \<times> window_log option" where
  "spec_event width s (ETrade t) = spec_ingest width s t"
| "spec_event width s (ETick _) = (s, None)"
| "spec_event width s EDelta = (s, None)"
| "spec_event width s EFlush = (None, s)"

section \<open>The relation between the aggregator and the abstract machine\<close>

definition ohlc :: "aggregator \<Rightarrow> i64 \<times> i64 \<times> i64 \<times> i64" where
  "ohlc a = (ag_open a, ag_high a, ag_low a, ag_close a)"

definition rep :: "aggregator \<Rightarrow> window_log option \<Rightarrow> bool" where
  "rep a s \<longleftrightarrow> agg_wf a \<and>
     (case s of
        None \<Rightarrow> ag_current_window a = None \<and> ohlc a = (0, 0, 0, 0)
      | Some (w, ts) \<Rightarrow> ts \<noteq> [] \<and> ag_current_window a = Some w \<and>
          map_of (ag_accum a) = book (ag_bucket_step a) ts \<and> ohlc a = ohlc_of ts \<and>
          (\<forall>t \<in> set ts. trade_ok t \<and> align (ag_window_ns a) (tp_ts_ns t) = w))"

text \<open>A snapshot that tells a whole window: every bucket, once, with its totals, and the OHLC.\<close>

definition bucket_accum :: "cluster_bucket \<Rightarrow> i64 \<times> cluster_accum" where
  "bucket_accum b = (cb_price b,
     \<lparr>ca_bid_qty = cb_bid_qty b, ca_ask_qty = cb_ask_qty b, ca_trades = cb_trades b\<rparr>)"

definition snapshot_of :: "i64 \<Rightarrow> cluster_frame \<Rightarrow> window_log \<Rightarrow> bool" where
  "snapshot_of step fr wl \<longleftrightarrow>
     (case fr of Diff _ \<Rightarrow> False
      | Snapshot s \<Rightarrow>
          as_window_start_ns s = fst wl \<and>
          distinct (map cb_price (as_clusters s)) \<and>
          map_of (map bucket_accum (as_clusters s)) = book step (snd wl) \<and>
          (as_open s, as_high s, as_low s, as_close s) = ohlc_of (snd wl))"

lemma bucket_accum_mk [simp]: "bucket_accum (mk_bucket p c) = (p, c)"
  by (simp add: bucket_accum_def mk_bucket_def)

lemma cb_price_mk [simp]: "cb_price (mk_bucket p c) = p"
  by (simp add: mk_bucket_def)

lemma side_total_nonneg: "\<forall>t \<in> set ts. 0 \<le> tp_qty t \<Longrightarrow> 0 \<le> side_total side ts"
  by (auto simp: side_total_def intro!: sum_list_nonneg)

lemma saturating_add_min:
  "0 \<le> s \<Longrightarrow> 0 \<le> q \<Longrightarrow> saturating_add_i64 (min (2 ^ 63 - 1) s) q = min (2 ^ 63 - 1) (s + q)"
  by (auto simp: saturating_add_i64_def sat_i64_def)

lemma totals_snoc:
  assumes "\<forall>u \<in> set (ts @ [t]). 0 \<le> tp_qty u"
  shows "totals (ts @ [t]) = add_trade t (totals ts)"
proof -
  have n: "0 \<le> side_total Bid ts" "0 \<le> side_total Ask ts" "0 \<le> tp_qty t"
    using assms by (auto intro: side_total_nonneg)
  have trades: "saturating_add_u32 (min u32_max (length ts)) 1 = min u32_max (Suc (length ts))"
    by (auto simp: saturating_add_u32_def)
  have sides: "side_total s (ts @ [t]) = side_total s ts + (if tp_aggressor t = s then tp_qty t else 0)" for s
    by (simp add: side_total_def)
  show ?thesis
    by (cases "tp_aggressor t")
      (simp_all only: totals_def add_trade_def sides Let_def cluster_accum.simps aggressor_side.simps trades
        saturating_add_min [OF n(1,3)] saturating_add_min [OF n(2,3)] length_append_singleton simp_thms if_True if_False add_0_right)
qed

lemma totals_Nil: "totals [] = accum_default"
  by (simp add: totals_def accum_default_def side_total_def)

lemma book_Nil [simp]: "book step [] = Map.empty"
  by (simp add: book_def in_bucket_def fun_eq_iff)

lemma book_snoc:
  assumes "\<forall>u \<in> set (ts @ [t]). 0 \<le> tp_qty u"
  shows "book step (ts @ [t]) =
    (book step ts)(align step (tp_price t) \<mapsto>
       add_trade t (case book step ts (align step (tp_price t)) of None \<Rightarrow> accum_default | Some c \<Rightarrow> c))"
proof (rule ext)
  fix p
  have "\<forall>u \<in> set (in_bucket step p ts @ [t]). 0 \<le> tp_qty u"
    using assms by (auto simp: in_bucket_def)
  then show "book step (ts @ [t]) p = ((book step ts)(align step (tp_price t) \<mapsto>
       add_trade t (case book step ts (align step (tp_price t)) of None \<Rightarrow> accum_default | Some c \<Rightarrow> c))) p"
    using totals_snoc [of "in_bucket step p ts" t] totals_Nil
    by (auto simp: book_def in_bucket_def)
qed

lemma ohlc_update:
  "ag_open a \<noteq> 0 \<Longrightarrow> ohlc (update_ohlc t a) =
     (ag_open a, max (tp_price t) (ag_high a), min (tp_price t) (ag_low a), tp_price t)"
  by (simp add: ohlc_def update_ohlc_def Let_def)

lemma ohlc_of_snoc:
  "ts \<noteq> [] \<Longrightarrow> ohlc_of (ts @ [t]) =
     (tp_price (hd ts), max (tp_price t) (Max (tp_price ` set ts)),
      min (tp_price t) (Min (tp_price ` set ts)), tp_price t)"
  by (simp add: ohlc_of_def)

lemma ohlc_touched:
  assumes "ohlc a = ohlc_of ts" and "\<forall>u \<in> set ts. 0 < tp_price u"
  shows "ohlc (touched a t) = ohlc_of (ts @ [t])"
proof (cases "ts = []")
  case True
  then show ?thesis using assms(1)
    by (simp add: ohlc_def ohlc_of_def touched_def update_ohlc_def)
next
  case False
  then have "0 < tp_price (hd ts)" using assms(2) by simp
  moreover have "ag_open a = tp_price (hd ts)" "ag_high a = Max (tp_price ` set ts)"
    "ag_low a = Min (tp_price ` set ts)" using assms(1) False by (auto simp: ohlc_def ohlc_of_def)
  ultimately show ?thesis
    unfolding touched_def by (subst ohlc_update) (simp_all add: ohlc_of_snoc [OF False])
qed

lemma closing_snapshot_of_window:
  assumes "rep a (Some (w, ts))"
  shows "snapshot_of (ag_bucket_step a) (closing_snapshot_of a) (w, ts)"
proof -
  have m: "map (\<lambda>(p, acc). mk_bucket p acc) (ag_accum a) = map (\<lambda>x. mk_bucket (fst x) (snd x)) (ag_accum a)"
    by (simp add: case_prod_beta)
  have "ag_current_window a = Some w" "distinct (map fst (ag_accum a))"
    "map_of (ag_accum a) = book (ag_bucket_step a) ts" "ohlc a = ohlc_of ts"
    using assms by (auto simp: rep_def agg_wf_def)
  then show ?thesis
    by (simp add: snapshot_of_def closing_snapshot_of_def build_closing_snapshot_def Let_def m
        comp_def ohlc_def)
qed

lemma rep_touched:
  assumes "rep a (Some (w, ts))" and "trade_ok t" and "align (ag_window_ns a) (tp_ts_ns t) = w"
  shows "rep (touched a t) (Some (w, ts @ [t]))"
proof -
  have "agg_wf (touched a t)" using assms(1) by (auto simp: rep_def touched_wf)
  moreover have "map_of (ag_accum (touched a t)) = book (ag_bucket_step a) (ts @ [t])"
    using assms book_snoc [of ts t "ag_bucket_step a"]
    by (simp add: rep_def acc_at_def bucket_of_def trade_ok_def)
  moreover have "ohlc (touched a t) = ohlc_of (ts @ [t])"
    using assms(1) ohlc_touched [of a ts t] by (simp add: rep_def trade_ok_def)
  ultimately show ?thesis using assms by (auto simp: rep_def)
qed

lemma rep_fresh:
  assumes "agg_wf a" "ag_current_window a = Some w" "ag_accum a = []" "ohlc a = (0, 0, 0, 0)"
    and "trade_ok t" and "align (ag_window_ns a) (tp_ts_ns t) = w"
  shows "rep (touched a t) (Some (w, [t]))"
proof -
  have "map_of (ag_accum (touched a t)) = book (ag_bucket_step a) ([] @ [t])"
    using assms(3,5) book_snoc [of "[]" t "ag_bucket_step a"]
    by (simp add: acc_at_def bucket_of_def trade_ok_def)
  moreover have "ohlc (touched a t) = ohlc_of ([] @ [t])"
    using assms(4) by (intro ohlc_touched) (simp_all add: ohlc_of_def)
  ultimately show ?thesis using assms touched_wf [of a t] by (simp add: rep_def)
qed

section \<open>The refinement\<close>

text \<open>
  One \<open>ingest\<close>: it does not panic, the new state represents the abstract one, the frame is the
  snapshot of the window that closed, and the late counter counts the dropped trade.
\<close>

lemma ingest_refines:
  assumes "rep a s" and "trade_ok t"
  shows "\<exists>a' fr. ingest a t = Some (a', fr) \<and>
     rep a' (fst (spec_ingest (ag_window_ns a) s t)) \<and>
     rel_option (snapshot_of (ag_bucket_step a)) fr (snd (spec_ingest (ag_window_ns a) s t)) \<and>
     ag_dropped_late a' =
       (if spec_late (ag_window_ns a) s t then wrap_u64 (ag_dropped_late a + 1) else ag_dropped_late a) \<and>
     ag_bucket_step a' = ag_bucket_step a \<and> ag_window_ns a' = ag_window_ns a"
proof -
  let ?w = "align (ag_window_ns a) (tp_ts_ns t)"
  have wf: "agg_wf a" and tr: "trade_in_range t" using assms by (auto simp: rep_def trade_ok_def)
  note eq = ingest_eq [OF wf tr]
  show ?thesis
  proof (cases s)
    case None
    then have "rep (touched (a\<lparr>ag_current_window := Some ?w\<rparr>) t) (Some (?w, [t]))"
      using assms by (intro rep_fresh) (auto simp: rep_def agg_wf_def ohlc_def)
    then show ?thesis using None assms(1)
      by (simp add: eq spec_ingest_def spec_late_def rep_def)
  next
    case (Some wl)
    obtain c ts where wl: "s = Some (c, ts)" using Some by (cases wl) auto
    have cur: "ag_current_window a = Some c" using assms(1) wl by (simp add: rep_def)
    have roll: "rep (touched (roll_window ?w a) t) (Some (?w, [t]))"
      using assms wf by (intro rep_fresh) (auto simp: roll_window_def agg_wf_def ohlc_def)
    have same: "?w = c \<Longrightarrow> rep (touched a t) (Some (c, ts @ [t]))"
      using rep_touched assms wl by simp
    have drop: "rep (a\<lparr>ag_dropped_late := n\<rparr>) s" for n
      using assms(1) by (auto simp: rep_def agg_wf_def ohlc_def split: option.splits)
    have close: "snapshot_of (ag_bucket_step a) (closing_snapshot_of a) (c, ts)"
      using closing_snapshot_of_window assms(1) wl by simp
    have frame: "ag_bucket_step (roll_window ?w a) = ag_bucket_step a"
      "ag_window_ns (roll_window ?w a) = ag_window_ns a"
      "ag_dropped_late (roll_window ?w a) = ag_dropped_late a" by (simp_all add: roll_window_def)
    consider "c < ?w" | "?w < c" | "?w = c" by linarith
    then show ?thesis
      using cur wl roll same drop close frame
      by cases (simp_all add: eq spec_ingest_def spec_late_def)
  qed
qed

end
