(* ===== verification/Footprint_Runs.thy ===== *)
theory Footprint_Runs
  imports Footprint
begin

text \<open>
  Runs of the aggregator: the refinement lifted to every event and to whole streams of trades,
  the accounting of trades, the numbering of frames, and what a consumer of the frames sees.
\<close>

section \<open>Every event refines the abstract machine\<close>

text \<open>A frame that tells part of an open window: some of its buckets with their totals so far, and, in
  a snapshot, the open, high, low and close so far.\<close>

definition partial_of :: "i64 \<Rightarrow> cluster_frame \<Rightarrow> window_log \<Rightarrow> bool" where
  "partial_of step fr wl \<longleftrightarrow>
     frame_window fr = fst wl \<and> distinct (map cb_price (frame_buckets fr)) \<and>
     map_of (map bucket_accum (frame_buckets fr)) \<subseteq>\<^sub>m book step (snd wl) \<and>
     (case fr of Diff _ \<Rightarrow> True
      | Snapshot s \<Rightarrow> (as_open s, as_high s, as_low s, as_close s) = ohlc_of (snd wl))"

fun event_ok :: "agg_event \<Rightarrow> bool" where
  "event_ok (ETrade t) = trade_ok t"
| "event_ok _ = True"

lemma partial_buckets:
  assumes "distinct ps" and "set ps \<subseteq> fst ` set xs"
  shows "distinct (map cb_price (map (\<lambda>p. mk_bucket p (acc_at xs p)) ps))"
    and "map_of (map bucket_accum (map (\<lambda>p. mk_bucket p (acc_at xs p)) ps)) \<subseteq>\<^sub>m map_of xs"
    and "map_of (map bucket_accum (map (\<lambda>p. mk_bucket p (acc_at xs p)) ps)) = map_of xs |` set ps"
proof -
  show "distinct (map cb_price (map (\<lambda>p. mk_bucket p (acc_at xs p)) ps))"
    using assms(1) by (simp add: comp_def)
  show eq: "map_of (map bucket_accum (map (\<lambda>p. mk_bucket p (acc_at xs p)) ps)) = map_of xs |` set ps"
  proof (rule ext)
    fix p
    have "p \<in> set ps \<Longrightarrow> Some (acc_at xs p) = map_of xs p"
      using assms(2) by (auto simp: acc_at_def map_of_eq_None_iff split: option.split)
    then show "map_of (map bucket_accum (map (\<lambda>p. mk_bucket p (acc_at xs p)) ps)) p
        = (map_of xs |` set ps) p"
      by (simp add: comp_def map_of_map_restrict restrict_map_def)
  qed
  show "map_of (map bucket_accum (map (\<lambda>p. mk_bucket p (acc_at xs p)) ps)) \<subseteq>\<^sub>m map_of xs"
    by (simp only: eq) (auto simp: map_le_def)
qed

lemma rep_current: "rep a s \<Longrightarrow> ag_current_window a = map_option fst s"
  by (auto simp: rep_def split: option.splits)

lemma rep_emitted:
  assumes "rep a s" and "agg_wf b" and "ag_current_window b = ag_current_window a"
    and "ag_accum b = ag_accum a" and "ohlc b = ohlc a"
    and "ag_bucket_step b = ag_bucket_step a" and "ag_window_ns b = ag_window_ns a"
  shows "rep b s"
  using assms by (auto simp: rep_def split: option.splits)

lemma flush_refines:
  assumes "rep a s"
  shows "rep (fst (flush a)) None"
    and "rel_option (snapshot_of (ag_bucket_step a)) (snd (flush a)) s"
proof -
  have dom: "fst ` set (ag_accum a) = {} \<longleftrightarrow> s = None"
  proof (cases s)
    case None
    then show ?thesis using assms by (simp add: rep_def agg_wf_def)
  next
    case (Some wl)
    obtain w ts where s: "s = Some (w, ts)" using Some by (cases wl) auto
    then obtain t where "t \<in> set ts" using assms by (cases ts) (auto simp: rep_def)
    then have "book (ag_bucket_step a) ts (align (ag_bucket_step a) (tp_price t)) \<noteq> None"
      by (auto simp: book_def in_bucket_def filter_empty_conv)
    moreover have "map_of (ag_accum a) = book (ag_bucket_step a) ts" using assms s by (simp add: rep_def)
    ultimately have "ag_accum a \<noteq> []" by (metis map_of.simps(1))
    then show ?thesis using s by simp
  qed
  have wf: "agg_wf a" using assms by (simp add: rep_def)
  show "rep (fst (flush a)) None"
    using assms wf dom by (auto simp: flush_def rep_def case_prod_beta Let_def ohlc_def agg_wf_def
        split: option.splits)
  show "rel_option (snapshot_of (ag_bucket_step a)) (snd (flush a)) s"
  proof (cases s)
    case None
    then show ?thesis using dom by (simp add: flush_def)
  next
    case (Some wl)
    then have "snapshot_of (ag_bucket_step a) (closing_snapshot_of a) wl"
      using closing_snapshot_of_window assms by (cases wl) simp
    then show ?thesis using Some dom
      by (auto simp: flush_def case_prod_beta Let_def closing_snapshot_of_def)
  qed
qed

definition frame_fits :: "i64 \<Rightarrow> window_log option \<Rightarrow> window_log option \<Rightarrow> cluster_frame option \<Rightarrow> bool" where
  "frame_fits step s closed fr =
     (case closed of
        Some wl \<Rightarrow> (case fr of None \<Rightarrow> False | Some f \<Rightarrow> snapshot_of step f wl)
      | None \<Rightarrow> (case fr of None \<Rightarrow> True
                 | Some f \<Rightarrow> (case s of None \<Rightarrow> False | Some wl \<Rightarrow> partial_of step f wl)))"

lemma frame_fits_rel: "rel_option (snapshot_of step) fr closed \<Longrightarrow> frame_fits step s closed fr"
  by (auto simp: frame_fits_def rel_option_iff split: option.splits)

lemma agg_step_refines:
  assumes r: "rep a s" and e: "event_ok e"
  shows "\<exists>a' fr. agg_step a e = Some (a', fr) \<and>
     rep a' (fst (spec_event (ag_window_ns a) s e)) \<and>
     frame_fits (ag_bucket_step a) s (snd (spec_event (ag_window_ns a) s e)) fr \<and>
     ag_bucket_step a' = ag_bucket_step a \<and> ag_window_ns a' = ag_window_ns a"
proof (cases e)
  case (ETrade t)
  then show ?thesis using ingest_refines [of a s t] r e frame_fits_rel by fastforce
next
  case (ETick now)
  have wf: "agg_wf a" using r by (simp add: rep_def)
  let ?b = "a\<lparr>ag_sequence := wrap_i64 (ag_sequence a + 1), ag_dirty := [], ag_last_diff_emit_ns := now\<rparr>"
  have "rep ?b s" using wf by (intro rep_emitted [OF r]) (auto simp: agg_wf_def ohlc_def)
  moreover have "\<And>w ts. s = Some (w, ts) \<Longrightarrow> map_of (ag_accum a) = book (ag_bucket_step a) ts"
    using r by (simp add: rep_def)
  moreover have "distinct (ag_dirty a)" "set (ag_dirty a) \<subseteq> fst ` set (ag_accum a)"
    using wf by (auto simp: agg_wf_def)
  ultimately show ?thesis
    using ETick r rep_current [OF r] partial_buckets(1,2) [of "ag_dirty a" "ag_accum a"]
    by (cases s) (auto simp: tick_eq [OF wf] frame_fits_def partial_of_def)
next
  case EDelta
  have wf: "agg_wf a" using r by (simp add: rep_def)
  let ?b = "a\<lparr>ag_sequence := wrap_i64 (ag_sequence a + 1), ag_partial_dirty := []\<rparr>"
  have "rep ?b s" using wf by (intro rep_emitted [OF r]) (auto simp: agg_wf_def ohlc_def)
  moreover have "\<And>w ts. s = Some (w, ts) \<Longrightarrow> map_of (ag_accum a) = book (ag_bucket_step a) ts"
    using r by (simp add: rep_def)
  moreover have "distinct (ag_partial_dirty a)" "set (ag_partial_dirty a) \<subseteq> fst ` set (ag_accum a)"
    using wf by (auto simp: agg_wf_def)
  ultimately show ?thesis
    using EDelta r rep_current [OF r] partial_buckets(1,2) [of "ag_partial_dirty a" "ag_accum a"]
    by (cases s) (auto simp: delta_eq [OF wf] frame_fits_def partial_of_def rep_def ohlc_def)
next
  case EFlush
  have "ag_bucket_step (fst (flush a)) = ag_bucket_step a" "ag_window_ns (fst (flush a)) = ag_window_ns a"
    by (simp_all add: flush_def case_prod_beta Let_def)
  then show ?thesis using EFlush flush_refines [OF r] frame_fits_rel
    by (cases "flush a") fastforce
qed

section \<open>Streams of trades\<close>

text \<open>
  The windows of a stream: those that closed, the one still open, and the trades that came late.
\<close>

fun windows :: "i64 \<Rightarrow> window_log option \<Rightarrow> trade_print list \<Rightarrow>
    window_log list \<times> window_log option \<times> trade_print list" where
  "windows width s [] = ([], s, [])"
| "windows width s (t # ts) =
     (let (s', closed) = spec_ingest width s t;
          (cs, s'', late) = windows width s' ts
      in ((case closed of None \<Rightarrow> cs | Some wl \<Rightarrow> wl # cs), s'',
          (if spec_late width s t then t # late else late)))"

abbreviation closed_windows where "closed_windows width s ts \<equiv> fst (windows width s ts)"
abbreviation open_window where "open_window width s ts \<equiv> fst (snd (windows width s ts))"
abbreviation late_trades where "late_trades width s ts \<equiv> snd (snd (windows width s ts))"

lemma wrap_u64_add: "wrap_u64 (wrap_u64 m + n) = wrap_u64 (m + n)"
  by (simp add: wrap_u64_def mod_add_left_eq)

lemma stream_refines:
  assumes "rep a s" and "list_all trade_ok ts" and "ag_dropped_late a < 2 ^ 64"
  shows "\<exists>b frs. agg_run a (map ETrade ts) = Some (b, frs) \<and>
     list_all2 (snapshot_of (ag_bucket_step a)) frs (closed_windows (ag_window_ns a) s ts) \<and>
     rep b (open_window (ag_window_ns a) s ts) \<and>
     ag_dropped_late b = wrap_u64 (ag_dropped_late a + length (late_trades (ag_window_ns a) s ts)) \<and>
     ag_bucket_step b = ag_bucket_step a \<and> ag_window_ns b = ag_window_ns a"
  using assms
proof (induction ts arbitrary: a s)
  case Nil
  then show ?case by (simp add: wrap_u64_def)
next
  case (Cons t ts)
  let ?W = "ag_window_ns a" and ?S = "ag_bucket_step a"
  obtain s' closed where s': "spec_ingest ?W s t = (s', closed)" by fastforce
  obtain a' fr where i: "ingest a t = Some (a', fr)" "rep a' s'" "rel_option (snapshot_of ?S) fr closed"
      "ag_dropped_late a' = (if spec_late ?W s t then wrap_u64 (ag_dropped_late a + 1) else ag_dropped_late a)"
      "ag_bucket_step a' = ?S" "ag_window_ns a' = ?W"
    using ingest_refines [of a s t] Cons.prems s' by auto
  have "ag_dropped_late a' < 2 ^ 64" using i(4) Cons.prems by (simp add: wrap_u64_def)
  then obtain b frs where r: "agg_run a' (map ETrade ts) = Some (b, frs)"
      "list_all2 (snapshot_of ?S) frs (closed_windows ?W s' ts)" "rep b (open_window ?W s' ts)"
      "ag_dropped_late b = wrap_u64 (ag_dropped_late a' + length (late_trades ?W s' ts))"
      "ag_bucket_step b = ?S" "ag_window_ns b = ?W"
    using Cons.IH [of a' s'] i Cons.prems by auto
  show ?case
    using i r s' wrap_u64_add [of "ag_dropped_late a + 1"]
    by (cases closed; cases fr) (auto simp: case_prod_beta Let_def)
qed

text \<open>The accounting: every trade is in one window or late, and the windows come in order.\<close>

definition open_list :: "window_log option \<Rightarrow> window_log list" where
  "open_list s = (case s of None \<Rightarrow> [] | Some wl \<Rightarrow> [wl])"

lemma windows_Cons:
  assumes "spec_ingest W s t = (s', c)"
  shows "closed_windows W s (t # ts) = open_list c @ closed_windows W s' ts"
    and "open_window W s (t # ts) = open_window W s' ts"
    and "late_trades W s (t # ts) = (if spec_late W s t then [t] else []) @ late_trades W s' ts"
  using assms by (auto simp: case_prod_beta open_list_def split: option.split)

lemma windows_mset:
  "mset (concat (map snd (open_list s))) + mset ts
   = mset (concat (map snd (closed_windows W s ts @ open_list (open_window W s ts))))
     + mset (late_trades W s ts)"
proof (induction ts arbitrary: s)
  case (Cons t ts)
  obtain s' c where s': "spec_ingest W s t = (s', c)" by fastforce
  let ?m = "\<lambda>s. mset (concat (map snd (open_list s)))"
  let ?l = "mset (if spec_late W s t then [t] else [])"
  have step: "?m s + {#t#} = ?m c + ?l + ?m s'"
    using s' by (auto simp: spec_ingest_def spec_late_def open_list_def Let_def split: option.splits if_splits)
  have "?m s + mset (t # ts) = (?m s + {#t#}) + mset ts" by simp
  also have "\<dots> = ?m c + ?l + (?m s' + mset ts)" by (simp only: step add.assoc)
  finally show ?case by (simp only: Cons.IH [of s'] windows_Cons [OF s']) simp
qed simp

definition log_aligned :: "i64 \<Rightarrow> window_log \<Rightarrow> bool" where
  "log_aligned W wl \<longleftrightarrow> snd wl \<noteq> [] \<and> (\<forall>t \<in> set (snd wl). align W (tp_ts_ns t) = fst wl)"

lemma window_in_front:
  fixes R :: "window_log list"
  assumes "sorted_wrt (<) (map fst R)" "list_all P R" "P x" "\<forall>wl \<in> set R. fst x < fst wl"
  shows "sorted_wrt (<) (map fst ([x] @ R)) \<and> list_all P ([x] @ R)
    \<and> (\<forall>wl \<in> set ([x] @ R). \<forall>c \<in> set [x]. fst c \<le> fst wl)"
  using assms by (auto simp: order_less_imp_le)

lemma windows_sorted:
  assumes "list_all (log_aligned W) (open_list s)"
  shows "sorted_wrt (<) (map fst (closed_windows W s ts @ open_list (open_window W s ts)))
    \<and> list_all (log_aligned W) (closed_windows W s ts @ open_list (open_window W s ts))
    \<and> (\<forall>wl \<in> set (closed_windows W s ts @ open_list (open_window W s ts)).
         \<forall>c \<in> set (open_list s). fst c \<le> fst wl)"
  using assms
proof (induction ts arbitrary: s)
  case (Cons t ts)
  obtain s' c where s': "spec_ingest W s t = (s', c)" by fastforce
  have al: "list_all (log_aligned W) (open_list s')"
    using s' Cons.prems
    by (auto simp: spec_ingest_def open_list_def log_aligned_def Let_def split: option.splits if_splits)
  have ord: "c = None \<and> (\<forall>x \<in> set (open_list s). \<forall>y \<in> set (open_list s'). fst x \<le> fst y) \<and> open_list s' \<noteq> [] \<or>
     (\<exists>x y. c = s \<and> s = Some x \<and> s' = Some y \<and> fst x < fst y)"
    using s' by (auto simp: spec_ingest_def open_list_def Let_def split: option.splits if_splits)
  let ?R = "closed_windows W s' ts @ open_list (open_window W s' ts)"
  have R: "sorted_wrt (<) (map fst ?R)" "list_all (log_aligned W) ?R"
    and le: "\<forall>wl \<in> set ?R. \<forall>y \<in> set (open_list s'). fst y \<le> fst wl"
    using Cons.IH [OF al] by auto
  have L: "closed_windows W s (t # ts) @ open_list (open_window W s (t # ts)) = open_list c @ ?R"
    by (simp only: windows_Cons [OF s'] append_assoc)
  from ord show ?case
  proof
    assume o: "c = None \<and> (\<forall>x \<in> set (open_list s). \<forall>y \<in> set (open_list s'). fst x \<le> fst y) \<and> open_list s' \<noteq> []"
    then obtain y where "y \<in> set (open_list s')" by (cases "open_list s'") auto
    with o le have "\<forall>wl \<in> set ?R. \<forall>x \<in> set (open_list s). fst x \<le> fst wl"
      by (meson order_trans)
    then show ?case unfolding L using R o by (simp add: open_list_def)
  next
    assume "\<exists>x y. c = s \<and> s = Some x \<and> s' = Some y \<and> fst x < fst y"
    then obtain x y where xy: "open_list c = [x]" "open_list s = [x]" "fst x < fst y"
        "y \<in> set (open_list s')"
      by (auto simp: open_list_def)
    then have "\<forall>wl \<in> set ?R. fst x < fst wl" using le by (meson less_le_trans)
    moreover have "log_aligned W x" using Cons.prems xy by simp
    ultimately show ?case unfolding L xy by (intro window_in_front R)
  qed
qed (auto simp: open_list_def split: option.split)

lemma windows_none_late:
  assumes "sorted (map (\<lambda>t. align W (tp_ts_ns t)) ts)"
    and "\<forall>wl \<in> set (open_list s). \<forall>t \<in> set ts. fst wl \<le> align W (tp_ts_ns t)"
  shows "late_trades W s ts = []"
  using assms
proof (induction ts arbitrary: s)
  case (Cons t ts)
  obtain s' c where s': "spec_ingest W s t = (s', c)" by fastforce
  have "\<not> spec_late W s t"
    using Cons.prems by (auto simp: spec_late_def open_list_def split: option.split)
  moreover have "\<forall>wl \<in> set (open_list s'). \<forall>u \<in> set ts. fst wl \<le> align W (tp_ts_ns u)"
    using s' Cons.prems
    by (auto simp: spec_ingest_def open_list_def Let_def split: option.splits if_splits)
  ultimately show ?case using Cons.IH [of s'] s' Cons.prems(1) by (simp add: case_prod_beta)
qed simp

text \<open>The order of the trades inside a window does not matter to its buckets.\<close>

lemma side_total_mset:
  "side_total side ts = sum_mset (image_mset tp_qty (filter_mset (\<lambda>t. tp_aggressor t = side) (mset ts)))"
  by (simp add: side_total_def flip: sum_mset_sum_list)

lemma totals_perm: "mset us = mset vs \<Longrightarrow> totals us = totals vs"
  using mset_eq_length [of us vs] by (simp add: totals_def side_total_mset)

lemma book_perm: "mset us = mset vs \<Longrightarrow> book step us = book step vs"
proof (rule ext)
  fix p assume "mset us = mset vs"
  then have m: "mset (in_bucket step p us) = mset (in_bucket step p vs)"
    by (simp add: in_bucket_def)
  then have "in_bucket step p us = [] \<longleftrightarrow> in_bucket step p vs = []"
    by (metis mset_zero_iff)
  then show "book step us p = book step vs p"
    using totals_perm [OF m] by (simp add: book_def)
qed

end
