(* ===== verification/Frame_Stream.thy ===== *)
theory Frame_Stream
  imports Footprint_Runs
begin

text \<open>
  The frames as a consumer sees them: how they are numbered, the view of a live subscriber that
  applies every frame, and the view of a store that keeps snapshot rows and may lose partial ones.
\<close>

section \<open>Numbering\<close>

fun numbered :: "int \<Rightarrow> cluster_frame list \<Rightarrow> bool" where
  "numbered q [] = True"
| "numbered q (f # fs) = (frame_sequence f = q + 1 \<and> numbered (q + 1) fs)"

definition seq_base :: "aggregator \<Rightarrow> i64 \<Rightarrow> int" where
  "seq_base a w = (if ag_current_window a = Some w then ag_sequence a else 0)"

definition seq_wf :: "aggregator \<Rightarrow> nat \<Rightarrow> bool" where
  "seq_wf a n \<longleftrightarrow> agg_wf a \<and> 0 \<le> ag_sequence a \<and> ag_sequence a + int n < 2 ^ 63 \<and>
     (ag_current_window a = None \<longrightarrow> ag_sequence a = 0)"

fun no_flush :: "agg_event \<Rightarrow> bool" where
  "no_flush EFlush = False"
| "no_flush _ = True"

text \<open>What one event does to the window, the sequence and the frame.\<close>

definition emits :: "aggregator \<Rightarrow> aggregator \<Rightarrow> cluster_frame option \<Rightarrow> bool" where
  "emits a a' fr \<longleftrightarrow>
     (case fr of
        None \<Rightarrow> ag_sequence a' = ag_sequence a \<and>
          (ag_current_window a' = ag_current_window a \<or>
           ag_current_window a = None \<and> ag_current_window a' \<noteq> None)
      | Some f \<Rightarrow> \<exists>c. ag_current_window a = Some c \<and> frame_window f = c \<and>
          frame_sequence f = ag_sequence a + 1 \<and>
          (ag_current_window a' = Some c \<and> ag_sequence a' = ag_sequence a + 1 \<or>
           (\<exists>w. ag_current_window a' = Some w \<and> c < w \<and> ag_sequence a' = 0)))"

lemma seq_succ: "seq_wf a (Suc n) \<Longrightarrow> wrap_i64 (ag_sequence a + 1) = ag_sequence a + 1"
  by (simp add: seq_wf_def in_i64_def)

lemma closing_frame_fields:
  "ag_current_window a = Some c \<Longrightarrow> frame_window (closing_snapshot_of a) = c"
  "frame_sequence (closing_snapshot_of a) = wrap_i64 (ag_sequence a + 1)"
  by (simp_all add: closing_snapshot_of_def build_closing_snapshot_def Let_def)

lemma agg_step_emits:
  assumes "seq_wf a (Suc n)" "event_in_range e" "no_flush e" "agg_step a e = Some (a', fr)"
  shows "emits a a' fr \<and> seq_wf a' n"
proof -
  have wf: "agg_wf a" "agg_wf a'" using assms agg_step_wf [of a e] by (auto simp: seq_wf_def)
  have 1: "emits a a' fr"
  proof (cases e)
    case (ETrade t)
    then show ?thesis
      using assms(2,4) closing_frame_fields [of a]
      by (auto simp: ingest_eq [OF wf(1)] seq_succ [OF assms(1)] emits_def Let_def roll_window_def
          split: option.splits if_splits)
  next
    case (ETick now)
    then show ?thesis using assms(4)
      by (auto simp: tick_eq [OF wf(1)] seq_succ [OF assms(1)] emits_def split: if_splits)
  next
    case EDelta
    then show ?thesis using assms(4)
      by (auto simp: delta_eq [OF wf(1)] seq_succ [OF assms(1)] emits_def split: if_splits)
  next
    case EFlush
    then show ?thesis using assms(3) by simp
  qed
  then have "seq_wf a' n" using assms(1) wf
    by (auto simp: emits_def seq_wf_def split: option.splits)
  with 1 show ?thesis ..
qed

lemma filter_none: "(\<And>x. x \<in> set xs \<Longrightarrow> \<not> P x) \<Longrightarrow> filter P xs = []"
  by (simp add: filter_empty_conv)

lemma agg_run_numbered:
  assumes "seq_wf a (length es)" "list_all event_in_range es" "list_all no_flush es"
    and "agg_run a es = Some (b, frs)"
  shows "numbered (seq_base a w) (filter (\<lambda>f. frame_window f = w) frs)
    \<and> (\<forall>f \<in> set frs. \<forall>c. ag_current_window a = Some c \<longrightarrow> c \<le> frame_window f)"
  using assms
proof (induction es arbitrary: a frs)
  case (Cons e es)
  obtain a' fr fs where s: "agg_step a e = Some (a', fr)" "agg_run a' es = Some (b, fs)"
      "frs = (case fr of None \<Rightarrow> fs | Some f \<Rightarrow> f # fs)"
    using Cons.prems(4) by (auto split: bind_splits)
  have em: "emits a a' fr" and wf: "seq_wf a' (length es)"
    using agg_step_emits [of a "length es" e] Cons.prems s(1) by auto
  have IH: "numbered (seq_base a' w) (filter (\<lambda>f. frame_window f = w) fs)"
    "\<And>f c. f \<in> set fs \<Longrightarrow> ag_current_window a' = Some c \<Longrightarrow> c \<le> frame_window f"
    using Cons.IH [OF wf _ _ s(2)] Cons.prems by auto
  show ?case
  proof (cases fr)
    case None
    have "seq_base a' w = seq_base a w"
      using em None Cons.prems(1) by (auto simp: emits_def seq_base_def seq_wf_def)
    then show ?thesis using IH None s(3) em by (auto simp: emits_def)
  next
    case (Some f)
    then obtain c where c: "ag_current_window a = Some c" "frame_window f = c"
        "frame_sequence f = ag_sequence a + 1"
      using em by (auto simp: emits_def)
    consider "ag_current_window a' = Some c" "ag_sequence a' = ag_sequence a + 1"
      | v where "ag_current_window a' = Some v" "c < v" "ag_sequence a' = 0"
      using em Some c by (auto simp: emits_def)
    then show ?thesis
    proof cases
      case 1
      then show ?thesis using IH c Some s(3) by (auto simp: seq_base_def)
    next
      case 2
      then have later: "\<And>g. g \<in> set fs \<Longrightarrow> c < frame_window g" using IH(2) by fastforce
      then have "filter (\<lambda>f. frame_window f = c) fs = []" by (intro filter_none) auto
      then show ?thesis using IH(1) c 2 Some s(3) later
        by (auto simp: seq_base_def order_less_imp_le split: if_splits)
    qed
  qed
qed simp

section \<open>A live subscriber\<close>

text \<open>
  A subscriber keeps the window it last heard of and the buckets of that window; a frame of the
  same window updates them, a frame of another window starts afresh.
\<close>

type_synonym view = "i64 option \<times> (i64 \<rightharpoonup> cluster_accum)"

definition frame_map :: "cluster_frame \<Rightarrow> i64 \<rightharpoonup> cluster_accum" where
  "frame_map f = map_of (map bucket_accum (frame_buckets f))"

definition view_apply :: "view \<Rightarrow> cluster_frame \<Rightarrow> view" where
  "view_apply v f =
     (if fst v = Some (frame_window f) then (fst v, snd v ++ frame_map f)
      else (Some (frame_window f), frame_map f))"

definition in_sync :: "aggregator \<Rightarrow> view \<Rightarrow> bool" where
  "in_sync a v \<longleftrightarrow>
     (\<forall>x. fst v = Some x \<longrightarrow> (\<exists>c. ag_current_window a = Some c \<and> x \<le> c)) \<and>
     (if fst v = ag_current_window a
      then \<forall>p. p \<notin> set (ag_dirty a) \<longrightarrow> snd v p = map_of (ag_accum a) p
      else fst ` set (ag_accum a) \<subseteq> set (ag_dirty a))"

lemma frame_map_buckets:
  assumes "agg_wf a"
  shows "map_of (map bucket_accum (map (\<lambda>p. mk_bucket p (acc_at (ag_accum a) p)) (ag_dirty a)))
         = map_of (ag_accum a) |` set (ag_dirty a)"
    and "map_of (map bucket_accum (map (\<lambda>p. mk_bucket p (acc_at (ag_accum a) p)) (ag_partial_dirty a)))
         = map_of (ag_accum a) |` set (ag_partial_dirty a)"
  using assms partial_buckets(3) [of "ag_dirty a" "ag_accum a"]
    partial_buckets(3) [of "ag_partial_dirty a" "ag_accum a"]
  by (simp_all add: agg_wf_def del: map_map)

lemma map_of_notin: "p \<notin> fst ` set xs \<Longrightarrow> map_of xs p = None"
  by (simp add: map_of_eq_None_iff)

lemma view_apply_restricted:
  assumes "in_sync a v" and "ag_current_window a = Some c" and "frame_window f = c"
    and "frame_map f = map_of (ag_accum a) |` S" and "S \<subseteq> fst ` set (ag_accum a)"
    and "p \<notin> set (ag_dirty a) \<or> p \<in> S"
  shows "snd (view_apply v f) p = map_of (ag_accum a) p"
  using assms map_of_notin [of p "ag_accum a"] map_of_eq_None_iff [of "ag_accum a" p]
  by (cases "p \<in> S"; cases "map_of (ag_accum a) p")
    (auto simp: in_sync_def view_apply_def map_add_def restrict_map_def split: if_splits)

lemma agg_step_in_sync:
  assumes wf: "agg_wf a" and sync: "in_sync a v" and e: "event_in_range e" "no_flush e"
    and s: "agg_step a e = Some (a', fr)"
  shows "in_sync a' (case fr of None \<Rightarrow> v | Some f \<Rightarrow> view_apply v f)"
proof (cases e)
  case (ETrade t)
  have "in_sync (touched a t) v" if "ag_current_window a \<noteq> None"
    using sync by (auto simp: in_sync_def split: if_splits)
  moreover have "in_sync (touched (a\<lparr>ag_current_window := Some w\<rparr>) t) v"
    if "ag_current_window a = None" for w
    using that sync wf by (auto simp: in_sync_def agg_wf_def)
  moreover have "in_sync (a\<lparr>ag_dropped_late := n\<rparr>) v" for n
    using sync by (simp add: in_sync_def)
  moreover have "in_sync (touched (roll_window w a) t) (view_apply v (closing_snapshot_of a))"
    if "ag_current_window a = Some c" "c < w" for c w
    using that closing_frame_fields(1) [of a c]
    by (auto simp: in_sync_def view_apply_def roll_window_def)
  ultimately show ?thesis using ETrade e(1) s
    by (auto simp: ingest_eq [OF wf] Let_def split: option.splits if_splits)
next
  case (ETick now)
  show ?thesis
  proof (cases fr)
    case None
    then show ?thesis using ETick s sync by (auto simp: tick_eq [OF wf] split: if_splits)
  next
    case (Some f)
    then obtain c where c: "ag_current_window a = Some c" "frame_window f = c"
        "frame_map f = map_of (ag_accum a) |` set (ag_dirty a)"
        "ag_current_window a' = Some c" "ag_accum a' = ag_accum a" "ag_dirty a' = []"
      using ETick s frame_map_buckets(1) [OF wf]
      by (auto simp: tick_eq [OF wf] frame_map_def simp del: map_map split: if_splits)
    have "fst (view_apply v f) = Some c" using c by (simp add: view_apply_def)
    then show ?thesis using Some c view_apply_restricted [OF sync c(1,2,3)] wf
      by (simp add: in_sync_def agg_wf_def)
  qed
next
  case EDelta
  show ?thesis
  proof (cases fr)
    case None
    then show ?thesis using EDelta s sync by (auto simp: delta_eq [OF wf] split: if_splits)
  next
    case (Some f)
    then obtain c where c: "ag_current_window a = Some c" "frame_window f = c"
        "frame_map f = map_of (ag_accum a) |` set (ag_partial_dirty a)"
        "ag_current_window a' = Some c" "ag_accum a' = ag_accum a" "ag_dirty a' = ag_dirty a"
      using EDelta s frame_map_buckets(2) [OF wf]
      by (auto simp: delta_eq [OF wf] frame_map_def simp del: map_map split: if_splits)
    have "fst (view_apply v f) = Some c" using c by (simp add: view_apply_def)
    then show ?thesis using Some c view_apply_restricted [OF sync c(1,2,3)] wf
      by (simp add: in_sync_def agg_wf_def)
  qed
next
  case EFlush
  then show ?thesis using e by simp
qed

lemma agg_run_in_sync:
  assumes "agg_wf a" "in_sync a v" "list_all event_in_range es" "list_all no_flush es"
    and "agg_run a es = Some (b, frs)"
  shows "in_sync b (foldl view_apply v frs) \<and> agg_wf b"
  using assms
proof (induction es arbitrary: a v frs)
  case (Cons e es)
  obtain a' fr fs where s: "agg_step a e = Some (a', fr)" "agg_run a' es = Some (b, fs)"
      "frs = (case fr of None \<Rightarrow> fs | Some f \<Rightarrow> f # fs)"
    using Cons.prems(5) by (auto split: bind_splits)
  have "agg_wf a'" using agg_step_wf [of a e] Cons.prems s(1) by auto
  moreover have "in_sync a' (case fr of None \<Rightarrow> v | Some f \<Rightarrow> view_apply v f)"
    using agg_step_in_sync [OF Cons.prems(1,2) _ _ s(1)] Cons.prems by auto
  ultimately show ?case
    using Cons.IH [OF _ _ _ _ s(2)] Cons.prems(3,4) s(3) by (cases fr) auto
qed simp

end
