(* ===== verification/Footprint_Theorems.thy ===== *)
theory Footprint_Theorems
  imports Frame_Stream
begin

text \<open>
  What the aggregator promises for whole streams, from its constructor on: the snapshots it
  publishes are the footprints of the windows, no trade is lost or counted twice, and consumers of
  its frames end with the state it has.
\<close>

section \<open>The constructor\<close>

lemma new_rep:
  assumes "aggregator_new k step wms dms = Some a"
    and "wms * 1000000 < 2 ^ 63" and "dms * 1000000 < 2 ^ 63"
  shows "rep a None" and "ag_bucket_step a = step" and "ag_window_ns a = wms * 1000000"
    and "ag_dropped_late a = 0" and "ag_sequence a = 0" and "ag_current_window a = None"
    and "ag_diff_interval_ns a = dms * 1000000"
proof -
  have "0 < wms" "0 < dms" using assms(1) by (auto simp: aggregator_new_def split: if_splits)
  then have r: "in_i64 (wms * 1000000)" "in_i64 (dms * 1000000)"
    using assms(2,3) by (auto simp: in_i64_def)
  have wf: "agg_wf a" by (rule aggregator_new_wf [OF assms(1) r])
  show "rep a None" "ag_bucket_step a = step" "ag_window_ns a = wms * 1000000"
    "ag_dropped_late a = 0" "ag_sequence a = 0" "ag_current_window a = None"
    "ag_diff_interval_ns a = dms * 1000000"
    using assms(1) wf r by (auto simp: aggregator_new_def rep_def ohlc_def split: if_splits)
qed

lemma agg_run_append:
  "agg_run a (es @ fs) =
     Option.bind (agg_run a es) (\<lambda>(b, frs). map_option (\<lambda>(c, grs). (c, frs @ grs)) (agg_run b fs))"
proof (induction es arbitrary: a)
  case Nil
  then show ?case by (cases "agg_run a fs") auto
next
  case (Cons e es)
  show ?case
    by (cases "agg_step a e")
      (auto simp: Cons.IH case_prod_beta option.map_comp comp_def split: Option.bind_split option.split)
qed

section \<open>Every window, once\<close>

definition all_windows :: "i64 \<Rightarrow> trade_print list \<Rightarrow> window_log list" where
  "all_windows W ts = closed_windows W None ts @ open_list (open_window W None ts)"

lemma run_flushed:
  assumes "rep a None" and "list_all trade_ok ts" and "ag_dropped_late a = 0"
  shows "\<exists>b frs. agg_run a (map ETrade ts @ [EFlush]) = Some (b, frs) \<and>
     list_all2 (snapshot_of (ag_bucket_step a)) frs (all_windows (ag_window_ns a) ts) \<and>
     rep b None \<and> ag_dropped_late b = wrap_u64 (length (late_trades (ag_window_ns a) None ts))"
proof -
  let ?W = "ag_window_ns a" and ?S = "ag_bucket_step a"
  obtain b frs where r: "agg_run a (map ETrade ts) = Some (b, frs)"
      "list_all2 (snapshot_of ?S) frs (closed_windows ?W None ts)" "rep b (open_window ?W None ts)"
      "ag_dropped_late b = wrap_u64 (length (late_trades ?W None ts))" "ag_bucket_step b = ?S"
    using stream_refines [OF assms(1,2)] assms(3) by fastforce
  have f: "rep (fst (flush b)) None" "rel_option (snapshot_of ?S) (snd (flush b)) (open_window ?W None ts)"
    using flush_refines [OF r(3)] r(5) by auto
  have late: "ag_dropped_late (fst (flush b)) = ag_dropped_late b"
    by (simp add: flush_def case_prod_beta Let_def)
  have "list_all2 (snapshot_of ?S) (case snd (flush b) of None \<Rightarrow> [] | Some g \<Rightarrow> [g])
      (open_list (open_window ?W None ts))"
    using f(2) by (auto simp: open_list_def rel_option_iff split: option.splits)
  then show ?thesis using r f late
    by (auto simp: agg_run_append all_windows_def case_prod_beta intro!: list_all2_appendI
        split: option.splits)
qed

section \<open>Sums over the buckets of a snapshot\<close>

definition frame_trades :: "cluster_frame \<Rightarrow> nat" where
  "frame_trades f = sum_list (map cb_trades (frame_buckets f))"

definition frame_volume :: "cluster_frame \<Rightarrow> int" where
  "frame_volume f = sum_list (map (\<lambda>b. cb_bid_qty b + cb_ask_qty b) (frame_buckets f))"

definition volume :: "trade_print list \<Rightarrow> int" where
  "volume ts = sum_list (map tp_qty ts)"

lemma sum_by_key:
  fixes g :: "'a \<Rightarrow> 'b::comm_monoid_add"
  assumes "finite K" and "f ` set ts \<subseteq> K"
  shows "(\<Sum>p\<in>K. sum_list (map g (filter (\<lambda>t. f t = p) ts))) = sum_list (map g ts)"
  using assms(2)
proof (induction ts)
  case (Cons t ts)
  have "(\<Sum>p\<in>K. sum_list (map g (filter (\<lambda>t. f t = p) (t # ts)))) =
    (\<Sum>p\<in>K. (if f t = p then g t else 0) + sum_list (map g (filter (\<lambda>t. f t = p) ts)))"
    by (rule sum.cong) auto
  also have "\<dots> = g t + sum_list (map g ts)"
    using Cons assms(1) by (simp add: sum.distrib)
  finally show ?case by simp
qed simp

lemma sum_by_key_length:
  assumes "finite K" and "f ` set ts \<subseteq> K"
  shows "(\<Sum>p\<in>K. length (filter (\<lambda>t. f t = p) ts)) = length ts"
  using sum_by_key [OF assms, of "\<lambda>_. 1 :: nat"] by (simp add: sum_list_triv)

lemma volume_split: "volume ts = side_total Bid ts + side_total Ask ts"
proof (induction ts)
  case (Cons t ts)
  then show ?case by (cases "tp_aggressor t") (simp_all add: volume_def side_total_def)
qed (simp add: volume_def side_total_def)

lemma volume_filter_le: "\<forall>t \<in> set ts. 0 \<le> tp_qty t \<Longrightarrow> volume (filter P ts) \<le> volume ts"
  by (induction ts) (auto simp: volume_def)

lemma dom_book: "dom (book step ts) = (\<lambda>t. align step (tp_price t)) ` set ts"
  by (auto simp: book_def in_bucket_def filter_empty_conv split: if_splits)

lemma snapshot_sums:
  assumes "snapshot_of step f (w, ts)" and "\<forall>t \<in> set ts. 0 \<le> tp_qty t"
    and "length ts \<le> u32_max" and "volume ts < 2 ^ 63"
  shows "frame_trades f = length ts" and "frame_volume f = volume ts"
proof -
  obtain s where f: "f = Snapshot s" using assms(1) by (cases f) (auto simp: snapshot_of_def)
  let ?bs = "as_clusters s" and ?B = "\<lambda>t. align step (tp_price t)"
  have d: "distinct (map cb_price ?bs)" and m: "map_of (map bucket_accum ?bs) = book step ts"
    using assms(1) f by (auto simp: snapshot_of_def)
  have key: "map fst (map bucket_accum ?bs) = map cb_price ?bs" by (simp add: bucket_accum_def)
  have K: "set (map cb_price ?bs) = ?B ` set ts"
    using dom_book [of step ts] dom_map_of_conv_image_fst [of "map bucket_accum ?bs"] m key
    by (simp add: image_image bucket_accum_def)
  have sums: "sum_list (map (\<lambda>b. h (snd (bucket_accum b))) ?bs) = (\<Sum>p\<in>?B ` set ts. h (totals (in_bucket step p ts)))"
    for h :: "cluster_accum \<Rightarrow> 'b::comm_monoid_add"
  proof -
    have "snd (bucket_accum b) = totals (in_bucket step (cb_price b) ts)" if "b \<in> set ?bs" for b
    proof -
      have "map_of (map bucket_accum ?bs) (cb_price b) = Some (snd (bucket_accum b))"
        using that d unfolding key [symmetric]
        by (intro map_of_is_SomeI) (auto simp: bucket_accum_def image_iff simp del: map_map)
      then show ?thesis using m by (auto simp: book_def split: if_splits)
    qed
    then have "sum_list (map (\<lambda>b. h (snd (bucket_accum b))) ?bs)
        = sum_list (map (\<lambda>p. h (totals (in_bucket step p ts))) (map cb_price ?bs))"
      by (simp add: comp_def cong: map_cong)
    also have "\<dots> = (\<Sum>p\<in>set (map cb_price ?bs). h (totals (in_bucket step p ts)))"
      by (rule sum_list_distinct_conv_sum_set [OF d])
    finally show ?thesis using K by simp
  qed
  have tr: "ca_trades (totals (in_bucket step p ts)) = length (filter (\<lambda>t. ?B t = p) ts)" for p
    using order_trans [OF length_filter_le [of "\<lambda>t. ?B t = p" ts] assms(3)]
    by (simp add: totals_def in_bucket_def)
  show "frame_trades f = length ts"
    using sums [of ca_trades] f tr sum_by_key_length [of "?B ` set ts" ?B ts]
    by (simp add: frame_trades_def bucket_accum_def)
  have vol: "ca_bid_qty (totals (in_bucket step p ts)) + ca_ask_qty (totals (in_bucket step p ts))
      = volume (filter (\<lambda>t. ?B t = p) ts)" for p
  proof -
    let ?F = "filter (\<lambda>t. ?B t = p) ts"
    have "volume ?F < 2 ^ 63" using volume_filter_le [OF assms(2)] assms(4) by (meson order_le_less_trans)
    moreover have "0 \<le> side_total Bid ?F" "0 \<le> side_total Ask ?F"
      using assms(2) by (auto intro!: side_total_nonneg)
    ultimately show ?thesis by (simp add: volume_split totals_def in_bucket_def)
  qed
  show "frame_volume f = volume ts"
    using sums [of "\<lambda>c. ca_bid_qty c + ca_ask_qty c"] f vol sum_by_key [of "?B ` set ts" ?B ts tp_qty]
    by (simp add: frame_volume_def bucket_accum_def volume_def)
qed

section \<open>Accounting over a whole stream\<close>

lemma all_windows_mset:
  "mset ts = mset (concat (map snd (all_windows W ts))) + mset (late_trades W None ts)"
  using windows_mset [of None ts W] by (simp add: all_windows_def open_list_def)

lemma window_subset:
  assumes "wl \<in> set (all_windows W ts)"
  shows "mset (snd wl) \<subseteq># mset ts"
proof -
  have "mset us \<subseteq># mset (concat xs)" if "us \<in> set xs" for us and xs :: "trade_print list list"
    using that by (induction xs) (auto intro: subset_mset.add_increasing subset_mset.add_increasing2)
  then have "mset (snd wl) \<subseteq># mset (concat (map snd (all_windows W ts)))" using assms by simp
  then show ?thesis using all_windows_mset [of ts W] by (metis mset_subset_eq_add_left subset_mset.trans)
qed

lemma volume_mset: "volume ts = sum_mset (image_mset tp_qty (mset ts))"
  by (simp add: volume_def flip: sum_mset_sum_list)

lemma snapshot_frame_map:
  "snapshot_of step f (w, us) \<Longrightarrow> frame_window f = w \<and> frame_map f = book step us"
  by (cases f) (simp_all add: snapshot_of_def frame_map_def)

lemma window_bounds:
  assumes "wl \<in> set (all_windows W ts)" and "list_all trade_ok ts"
  shows "\<forall>t \<in> set (snd wl). trade_ok t" and "length (snd wl) \<le> length ts"
    and "volume (snd wl) \<le> volume ts"
proof -
  note sub = window_subset [OF assms(1)]
  show ok: "\<forall>t \<in> set (snd wl). trade_ok t"
    using set_mset_mono [OF sub] assms(2) by (auto simp: list_all_iff)
  show "length (snd wl) \<le> length ts" using size_mset_mono [OF sub] by simp
  obtain R where R: "mset ts = mset (snd wl) + R" using sub by (auto simp: subset_mset.le_iff_add)
  then have "set_mset R \<subseteq> set ts" by (metis mset_subset_eq_add_right set_mset_mono set_mset_mset)
  then have "\<forall>x \<in># R. 0 \<le> tp_qty x" using assms(2) by (auto simp: list_all_iff trade_ok_def)
  then have "0 \<le> sum_mset (image_mset tp_qty R)" by (induction R) auto
  then show "volume (snd wl) \<le> volume ts" using R by (simp add: volume_mset)
qed

lemma frames_sums:
  assumes "list_all2 (snapshot_of step) frs wls"
    and "\<And>wl. wl \<in> set wls \<Longrightarrow> (\<forall>t \<in> set (snd wl). trade_ok t)"
    and "\<And>wl. wl \<in> set wls \<Longrightarrow> length (snd wl) \<le> u32_max \<and> volume (snd wl) < 2 ^ 63"
  shows "sum_list (map frame_trades frs) = length (concat (map snd wls)) \<and>
    sum_list (map frame_volume frs) = volume (concat (map snd wls))"
  using assms
proof (induction rule: list_all2_induct)
  case (Cons f fs wl wls)
  have "\<forall>t \<in> set (snd wl). 0 \<le> tp_qty t" using Cons.prems(1) [of wl] by (simp add: trade_ok_def)
  then have "frame_trades f = length (snd wl)" "frame_volume f = volume (snd wl)"
    using snapshot_sums [of step f "fst wl" "snd wl"] Cons.hyps(1) Cons.prems(2) [of wl] by auto
  moreover have "sum_list (map frame_trades fs) = length (concat (map snd wls)) \<and>
      sum_list (map frame_volume fs) = volume (concat (map snd wls))"
    using Cons.prems by (intro Cons.IH) auto
  ultimately show ?case by (simp add: volume_def)
qed (simp add: volume_def)

text \<open>A stream in time order: each window holds its trades, in order, and none is late.\<close>

lemma windows_in_order:
  assumes "sorted (c # map (\<lambda>t. align W (tp_ts_ns t)) ts)"
  shows "closed_windows W (Some (c, us)) ts @ open_list (open_window W (Some (c, us)) ts) =
    map (\<lambda>w. (w, (if w = c then us else []) @ filter (\<lambda>t. align W (tp_ts_ns t) = w) ts))
      (remdups_adj (c # map (\<lambda>t. align W (tp_ts_ns t)) ts))"
  using assms
proof (induction ts arbitrary: c us)
  case Nil
  then show ?case by (simp add: open_list_def)
next
  case (Cons t ts)
  let ?w = "align W (tp_ts_ns t)"
  have le: "c \<le> ?w" "\<And>x. x \<in> set (remdups_adj (?w # map (\<lambda>t. align W (tp_ts_ns t)) ts)) \<Longrightarrow> ?w \<le> x"
    using Cons.prems by auto
  have s: "sorted (?w # map (\<lambda>t. align W (tp_ts_ns t)) ts)" using Cons.prems by simp
  show ?case
  proof (cases "c = ?w")
    case True
    show ?thesis
      using Cons.IH [of c "us @ [t]"] s True
      by (simp add: spec_ingest_def case_prod_beta Let_def cong: map_cong)
  next
    case False
    then have lt: "c < ?w" using le by simp
    have ne: "\<forall>u \<in> set ts. align W (tp_ts_ns u) \<noteq> c" using lt s by auto
    then have none: "filter (\<lambda>u. align W (tp_ts_ns u) = c) ts = []"
      by (simp add: filter_empty_conv)
    have "closed_windows W (Some (c, us)) (t # ts) @ open_list (open_window W (Some (c, us)) (t # ts))
        = (c, us) # map (\<lambda>w. (w, (if w = ?w then [t] else []) @ filter (\<lambda>t. align W (tp_ts_ns t) = w) ts))
            (remdups_adj (?w # map (\<lambda>t. align W (tp_ts_ns t)) ts))"
      using Cons.IH [OF s, of "[t]"] lt by (simp add: spec_ingest_def case_prod_beta Let_def)
    also have "\<dots> = map (\<lambda>w. (w, (if w = c then us else []) @ filter (\<lambda>t. align W (tp_ts_ns t) = w) (t # ts)))
        (remdups_adj (c # map (\<lambda>t. align W (tp_ts_ns t)) (t # ts)))"
      using lt none False ne by (auto intro!: map_cong)
    finally show ?thesis .
  qed
qed

lemma all_windows_in_order:
  assumes "sorted (map (\<lambda>t. align W (tp_ts_ns t)) ts)"
  shows "all_windows W ts = map (\<lambda>w. (w, filter (\<lambda>t. align W (tp_ts_ns t) = w) ts))
      (remdups_adj (map (\<lambda>t. align W (tp_ts_ns t)) ts))"
proof (cases ts)
  case Nil
  then show ?thesis by (simp add: all_windows_def open_list_def)
next
  case (Cons t us)
  then have "all_windows W ts = closed_windows W (Some (align W (tp_ts_ns t), [t])) us
      @ open_list (open_window W (Some (align W (tp_ts_ns t), [t])) us)"
    by (simp add: all_windows_def spec_ingest_def case_prod_beta Let_def)
  then show ?thesis using windows_in_order [of "align W (tp_ts_ns t)" W us "[t]"] assms Cons
    by (auto intro!: map_cong)
qed

section \<open>The theorems\<close>

text \<open>C2: From a fresh aggregator, whatever stream of well-formed trades is ingested and then
  flushed, nothing panics and the published frames are exactly the windows of the stream, in order:
  each is a snapshot with every bucket once, holding the (saturating) bid and ask totals and the
  trade count of that bucket, and the open, high, low and close of the window's trades; the late
  counter counts the late trades.\<close>

theorem footprint_stream:
  assumes "aggregator_new k step wms dms = Some a"
    and "wms * 1000000 < 2 ^ 63" and "dms * 1000000 < 2 ^ 63" and "list_all trade_ok ts"
  shows "\<exists>b frs. agg_run a (map ETrade ts @ [EFlush]) = Some (b, frs) \<and>
     list_all2 (snapshot_of step) frs (all_windows (wms * 1000000) ts) \<and>
     ag_current_window b = None \<and>
     ag_dropped_late b = wrap_u64 (length (late_trades (wms * 1000000) None ts))"
  using run_flushed [OF new_rep(1) [OF assms(1-3)] assms(4) new_rep(4) [OF assms(1-3)]]
    new_rep(2,3) [OF assms(1-3)]
  by (auto simp: rep_def)

definition sample_key :: symbol_key where
  "sample_key = symbol_key_new BinanceF Perp ''BTCUSDT''"

definition sample_trade :: "int \<Rightarrow> int \<Rightarrow> int \<Rightarrow> aggressor_side \<Rightarrow> trade_print" where
  "sample_trade ms p q side =
     \<lparr>tp_ts_ns = ms * 1000000, tp_aggressor = side, tp_price = p, tp_qty = q, tp_trade_id = 0\<rparr>"

definition sample_trades :: "trade_print list" where
  "sample_trades =
     [sample_trade 100 12347 5 Bid, sample_trade 900 12352 7 Ask, sample_trade 950 12341 2 Bid,
      sample_trade 1200 12360 1 Ask, sample_trade 990 12300 9 Bid]"

definition sample_agg :: aggregator where
  "sample_agg = the (aggregator_new sample_key 10 1000 250)"

lemma sample_new: "aggregator_new sample_key 10 1000 250 = Some sample_agg"
  by (simp add: sample_agg_def aggregator_new_def)

lemma sample_ok: "list_all trade_ok sample_trades"
  by (simp add: sample_trades_def sample_trade_def trade_ok_def trade_in_range_def in_i64_def)

lemma footprint_stream_witness:
  "\<exists>b frs. agg_run sample_agg (map ETrade sample_trades @ [EFlush]) = Some (b, frs) \<and>
     list_all2 (snapshot_of 10) frs (all_windows (1000 * 1000000) sample_trades) \<and>
     ag_current_window b = None \<and>
     ag_dropped_late b = wrap_u64 (length (late_trades (1000 * 1000000) None sample_trades))"
  by (rule footprint_stream [OF sample_new _ _ sample_ok]) simp_all

text \<open>C3: No trade is lost or counted twice: while the stream has fewer than $2^{32}$ trades and its
  volume fits an \<open>i64\<close>, the trade counts of all published buckets plus the late counter are the
  number of trades ingested, and the bid and ask quantities of all published buckets are the volume
  of the trades that were not late.\<close>

theorem stream_conserved:
  assumes "aggregator_new k step wms dms = Some a"
    and "wms * 1000000 < 2 ^ 63" and "dms * 1000000 < 2 ^ 63" and "list_all trade_ok ts"
    and "length ts \<le> u32_max" and "volume ts < 2 ^ 63"
    and "agg_run a (map ETrade ts @ [EFlush]) = Some (b, frs)"
  shows "sum_list (map frame_trades frs) + ag_dropped_late b = length ts \<and>
    sum_list (map frame_volume frs) + volume (late_trades (wms * 1000000) None ts) = volume ts"
proof -
  let ?W = "wms * 1000000" and ?A = "concat (map snd (all_windows (wms * 1000000) ts))"
  have r: "list_all2 (snapshot_of step) frs (all_windows ?W ts)"
      "ag_dropped_late b = wrap_u64 (length (late_trades ?W None ts))"
    using run_flushed [OF new_rep(1) [OF assms(1-3)] assms(4) new_rep(4) [OF assms(1-3)]]
      new_rep(2,3) [OF assms(1-3)] assms(7) by auto
  have m: "mset ts = mset ?A + mset (late_trades ?W None ts)" by (rule all_windows_mset)
  have n: "length ts = length ?A + length (late_trades ?W None ts)"
    using arg_cong [OF m, of size] by simp
  have "wrap_u64 (length (late_trades ?W None ts)) = length (late_trades ?W None ts)"
    using n assms(5) by (simp add: wrap_u64_def u32_max_def)
  moreover have "volume ts = volume ?A + volume (late_trades ?W None ts)"
    by (simp only: volume_mset m image_mset_union sum_mset.union)
  moreover have "sum_list (map frame_trades frs) = length ?A \<and> sum_list (map frame_volume frs) = volume ?A"
    using assms(5,6) window_bounds [OF _ assms(4)] by (intro frames_sums [OF r(1)]) fastforce+
  ultimately show ?thesis using r(2) n by simp
qed

lemma stream_conserved_witness:
  "\<exists>b frs. agg_run sample_agg (map ETrade sample_trades @ [EFlush]) = Some (b, frs) \<and>
     sum_list (map frame_trades frs) + ag_dropped_late b = 5 \<and>
     sum_list (map frame_volume frs) + volume (late_trades (1000 * 1000000) None sample_trades) = 24"
proof -
  obtain b frs where r: "agg_run sample_agg (map ETrade sample_trades @ [EFlush]) = Some (b, frs)"
    using agg_run_wf [OF aggregator_new_wf [OF sample_new], of "map ETrade sample_trades @ [EFlush]"]
      sample_ok by (fastforce simp: list_all_iff trade_ok_def in_i64_def)
  show ?thesis using r stream_conserved [OF sample_new _ _ sample_ok _ _ r]
    by (simp add: sample_trades_def sample_trade_def volume_def u32_max_def)
qed

lemma align_mono: "0 < w \<Longrightarrow> x \<le> y \<Longrightarrow> align w x \<le> align w y"
proof -
  assume "0 < w" "x \<le> y"
  moreover have "- (- x div w) \<le> y div w" if "x < 0" "0 \<le> y"
    using that \<open>0 < w\<close> pos_imp_zdiv_nonneg_iff [of w "- x"] pos_imp_zdiv_nonneg_iff [of w y] by linarith
  ultimately have "x sdiv w \<le> y sdiv w"
    by (cases "0 \<le> x"; cases "0 \<le> y") (auto simp: signed_divide_int_def sgn_if zdiv_mono1 pos_imp_zdiv_nonneg_iff)
  then show ?thesis using \<open>0 < w\<close> by (simp add: align_def mult_right_mono)
qed

text \<open>C21: For a stream in time order, the published frames are one snapshot per window that has
  trades, in time order, each of exactly the trades whose timestamp falls in that window, and no
  trade is counted as late.\<close>

theorem footprint_in_order:
  assumes "aggregator_new k step wms dms = Some a"
    and "wms * 1000000 < 2 ^ 63" and "dms * 1000000 < 2 ^ 63" and "list_all trade_ok ts"
    and "sorted (map tp_ts_ns ts)"
  shows "\<exists>b frs. agg_run a (map ETrade ts @ [EFlush]) = Some (b, frs) \<and> ag_dropped_late b = 0 \<and>
     list_all2 (snapshot_of step) frs
       (map (\<lambda>w. (w, filter (\<lambda>t. align (wms * 1000000) (tp_ts_ns t) = w) ts))
         (remdups_adj (map (\<lambda>t. align (wms * 1000000) (tp_ts_ns t)) ts)))"
proof -
  have "0 < wms * 1000000" using assms(1) by (auto simp: aggregator_new_def split: if_splits)
  then have s: "sorted (map (\<lambda>t. align (wms * 1000000) (tp_ts_ns t)) ts)"
    using assms(5) align_mono by (auto simp: sorted_wrt_map elim!: sorted_wrt_mono_rel [rotated])
  have "late_trades (wms * 1000000) None ts = []"
    by (rule windows_none_late [OF s]) (simp add: open_list_def)
  then show ?thesis
    using run_flushed [OF new_rep(1) [OF assms(1-3)] assms(4) new_rep(4) [OF assms(1-3)]]
      new_rep(2,3) [OF assms(1-3)] all_windows_in_order [OF s]
    by (auto simp: wrap_u64_def)
qed

lemma footprint_in_order_witness:
  "\<exists>b frs. agg_run sample_agg (map ETrade (take 4 sample_trades) @ [EFlush]) = Some (b, frs) \<and>
     ag_dropped_late b = 0 \<and>
     list_all2 (snapshot_of 10) frs
       (map (\<lambda>w. (w, filter (\<lambda>t. align (1000 * 1000000) (tp_ts_ns t) = w) (take 4 sample_trades)))
         (remdups_adj (map (\<lambda>t. align (1000 * 1000000) (tp_ts_ns t)) (take 4 sample_trades))))"
  using sample_ok by (intro footprint_in_order [OF sample_new])
    (auto simp: sample_trades_def sample_trade_def)

text \<open>The result does not depend on the order in which the trades of a window arrive: two
  streams of one window with the same trades are both published as one snapshot, with the same
  buckets and the same totals.\<close>

lemma footprint_order_independent:
  assumes "aggregator_new k step wms dms = Some a"
    and "wms * 1000000 < 2 ^ 63" and "dms * 1000000 < 2 ^ 63" and "list_all trade_ok ts"
    and "ts \<noteq> []" and "\<forall>t \<in> set ts. align (wms * 1000000) (tp_ts_ns t) = w" and "mset us = mset ts"
  shows "\<exists>b f c g. agg_run a (map ETrade ts @ [EFlush]) = Some (b, [f]) \<and>
     agg_run a (map ETrade us @ [EFlush]) = Some (c, [g]) \<and>
     frame_window f = w \<and> frame_window g = w \<and> frame_map f = book step ts \<and> frame_map g = frame_map f"
proof -
  have one: "\<exists>b f. agg_run a (map ETrade vs @ [EFlush]) = Some (b, [f]) \<and> frame_window f = w \<and>
      frame_map f = book step vs" if "mset vs = mset ts" for vs
  proof -
    have v: "set vs = set ts" "vs \<noteq> []" using that assms(5) mset_eq_setD by auto
    then have al: "map (\<lambda>t. align (wms * 1000000) (tp_ts_ns t)) vs = replicate (length vs) w"
      using assms(6) by (intro replicate_eqI) auto
    have "filter (\<lambda>t. align (wms * 1000000) (tp_ts_ns t) = w) vs = vs"
      using v assms(6) by simp
    then have "all_windows (wms * 1000000) vs = [(w, vs)]"
      using all_windows_in_order [of "wms * 1000000" vs] v(2)
      by (simp add: al remdups_adj_replicate)
    moreover have "list_all trade_ok vs" using assms(4) v by (simp add: list_all_iff)
    ultimately show ?thesis
      using run_flushed [OF new_rep(1) [OF assms(1-3)] _ new_rep(4) [OF assms(1-3)], of vs]
        new_rep(2,3) [OF assms(1-3)]
      snapshot_frame_map by (fastforce simp: list_all2_Cons2)
  qed
  show ?thesis using one [of ts] one [of us] assms(7) book_perm [OF assms(7)] by auto
qed

section \<open>Runs with ticks, partial snapshots and flushes\<close>

fun spec_run :: "i64 \<Rightarrow> window_log option \<Rightarrow> agg_event list \<Rightarrow> window_log option" where
  "spec_run W s [] = s"
| "spec_run W s (e # es) = spec_run W (fst (spec_event W s e)) es"

lemma spec_run_snoc: "spec_run W s (es @ [e]) = fst (spec_event W (spec_run W s es) e)"
  by (induction es arbitrary: s) simp_all

lemma run_refines:
  assumes "rep a s" and "list_all event_ok es"
  shows "\<exists>b frs. agg_run a es = Some (b, frs) \<and> rep b (spec_run (ag_window_ns a) s es) \<and>
     ag_bucket_step b = ag_bucket_step a \<and> ag_window_ns b = ag_window_ns a"
  using assms
proof (induction es arbitrary: a s)
  case (Cons e es)
  obtain a' fr where "agg_step a e = Some (a', fr)" "rep a' (fst (spec_event (ag_window_ns a) s e))"
      "ag_bucket_step a' = ag_bucket_step a" "ag_window_ns a' = ag_window_ns a"
    using agg_step_refines [OF Cons.prems(1), of e] Cons.prems(2) by auto
  then show ?case using Cons.IH [of a'] Cons.prems(2) by fastforce
qed simp

lemma event_ok_in_range: "event_ok e \<Longrightarrow> event_in_range e"
  by (cases e) (simp_all add: trade_ok_def)

text \<open>C4: After any sequence of trades, ticks, partial-snapshot requests and flushes, every further
  event is handled without a panic, its frame fits the abstract window machine (a closing snapshot
  tells the whole window that closed, a diff or partial snapshot tells part of the open window,
  each bucket with its full totals), and the state again represents the abstract one.\<close>

theorem aggregator_refines:
  assumes "aggregator_new k step wms dms = Some a"
    and "wms * 1000000 < 2 ^ 63" and "dms * 1000000 < 2 ^ 63"
    and "list_all event_ok es" and "event_ok e"
  shows "\<exists>b frs b' fr. agg_run a es = Some (b, frs) \<and> agg_step b e = Some (b', fr) \<and>
     frame_fits step (spec_run (wms * 1000000) None es)
       (snd (spec_event (wms * 1000000) (spec_run (wms * 1000000) None es) e)) fr \<and>
     rep b' (spec_run (wms * 1000000) None (es @ [e]))"
proof -
  note new = new_rep [OF assms(1-3)]
  obtain b frs where b: "agg_run a es = Some (b, frs)" "rep b (spec_run (wms * 1000000) None es)"
      "ag_bucket_step b = step" "ag_window_ns b = wms * 1000000"
    using run_refines [OF new(1) assms(4)] new(2,3) by auto
  show ?thesis using agg_step_refines [OF b(2) assms(5), unfolded b(3,4)] b unfolding spec_run_snoc by blast
qed

definition sample_events :: "agg_event list" where
  "sample_events = map ETrade (take 2 sample_trades) @ [ETick 300000000, EDelta]
     @ map ETrade (drop 2 sample_trades) @ [ETick 1300000000]"

lemma sample_events_ok: "list_all event_ok sample_events" "list_all no_flush sample_events"
  by (simp_all add: sample_events_def sample_trades_def sample_trade_def trade_ok_def
      trade_in_range_def in_i64_def)

lemma aggregator_refines_witness:
  "\<exists>b frs b' fr. agg_run sample_agg sample_events = Some (b, frs) \<and> agg_step b EFlush = Some (b', fr) \<and>
     frame_fits 10 (spec_run (1000 * 1000000) None sample_events)
       (snd (spec_event (1000 * 1000000) (spec_run (1000 * 1000000) None sample_events) EFlush)) fr \<and>
     rep b' (spec_run (1000 * 1000000) None (sample_events @ [EFlush]))"
  by (rule aggregator_refines [OF sample_new _ _ sample_events_ok(1)]) simp_all

lemma run_windows_sorted:
  assumes "seq_wf a (length es)" "list_all event_in_range es" "list_all no_flush es"
    and "agg_run a es = Some (b, frs)"
  shows "sorted (map frame_window frs)"
  using assms
proof (induction es arbitrary: a frs)
  case (Cons e es)
  obtain a' fr fs where s: "agg_step a e = Some (a', fr)" "agg_run a' es = Some (b, fs)"
      "frs = (case fr of None \<Rightarrow> fs | Some f \<Rightarrow> f # fs)"
    using Cons.prems(4) by (auto split: bind_splits)
  have em: "emits a a' fr" and wf: "seq_wf a' (length es)"
    using agg_step_emits [of a "length es" e] Cons.prems s(1) by auto
  have "sorted (map frame_window fs)" using Cons.IH [OF wf _ _ s(2)] Cons.prems by auto
  moreover have "\<forall>f \<in> set fs. \<forall>c. ag_current_window a' = Some c \<longrightarrow> c \<le> frame_window f"
    using agg_run_numbered [OF wf _ _ s(2)] Cons.prems by auto
  ultimately show ?case using em s(3) by (fastforce simp: emits_def split: option.splits)
qed simp

lemma new_seq_wf:
  assumes "aggregator_new k step wms dms = Some a"
    and "wms * 1000000 < 2 ^ 63" and "dms * 1000000 < 2 ^ 63" and "n < 2 ^ 62"
  shows "seq_wf a n"
  using new_rep [OF assms(1-3)] assms(4) by (simp add: seq_wf_def rep_def)

text \<open>C20: A consumer can detect every lost frame: while the aggregator runs, the frames of each
  window are numbered 1, 2, 3, ... without a gap, and the windows of the frames never go back.\<close>

theorem frames_numbered:
  assumes "aggregator_new k step wms dms = Some a"
    and "wms * 1000000 < 2 ^ 63" and "dms * 1000000 < 2 ^ 63" and "length es < 2 ^ 62"
    and "list_all event_in_range es" and "list_all no_flush es" and "agg_run a es = Some (b, frs)"
  shows "numbered 0 (filter (\<lambda>f. frame_window f = w) frs) \<and> sorted (map frame_window frs)"
proof -
  have wf: "seq_wf a (length es)" by (rule new_seq_wf [OF assms(1-4)])
  have "seq_base a w = 0" using new_rep(5) [OF assms(1-3)] by (simp add: seq_base_def)
  then show ?thesis
    using agg_run_numbered [OF wf assms(5-7), of w] run_windows_sorted [OF wf assms(5-7)] by simp
qed

lemma sample_run: "\<exists>b frs. agg_run sample_agg sample_events = Some (b, frs) \<and> agg_wf b"
  using sample_events_ok(1)
  by (intro agg_run_wf aggregator_new_wf [OF sample_new])
    (auto simp: in_i64_def list_all_iff event_ok_in_range)

lemma frames_numbered_witness:
  "\<exists>b frs. agg_run sample_agg sample_events = Some (b, frs) \<and>
     numbered 0 (filter (\<lambda>f. frame_window f = 0) frs) \<and> sorted (map frame_window frs)"
proof -
  obtain b frs where r: "agg_run sample_agg sample_events = Some (b, frs)" using sample_run by auto
  have "list_all event_in_range sample_events"
    using sample_events_ok(1) by (auto simp: list_all_iff event_ok_in_range)
  then show ?thesis
    using r frames_numbered [OF sample_new _ _ _ _ sample_events_ok(2) r, of 0]
    by (simp add: sample_events_def sample_trades_def)
qed

text \<open>A live subscriber that only ever receives the incremental frames is up to date after every
  diff: folding all frames from the start into its view gives the window now open and exactly the
  buckets of that window's trades so far.\<close>

lemma frames_in_sync:
  assumes "aggregator_new k step wms dms = Some a"
    and "wms * 1000000 < 2 ^ 63" and "dms * 1000000 < 2 ^ 63"
    and "list_all event_ok es" and "list_all no_flush es" and "agg_run a es = Some (b, frs)"
    and "tick b now = Some (b', Some f)"
  shows "\<exists>w us. spec_run (wms * 1000000) None es = Some (w, us) \<and>
     foldl view_apply (None, Map.empty) (frs @ [f]) = (Some w, book step us)"
proof -
  note new = new_rep [OF assms(1-3)]
  have es: "list_all event_in_range es" using assms(4) by (auto simp: list_all_iff event_ok_in_range)
  have wf: "agg_wf a" using new(1) by (simp add: rep_def)
  have "in_sync a (None, Map.empty)" using new(1,6) wf by (simp add: in_sync_def agg_wf_def)
  then have b: "in_sync b (foldl view_apply (None, Map.empty) frs)" "agg_wf b"
    using agg_run_in_sync [OF wf _ es assms(5,6)] by auto
  have s: "in_sync b' (foldl view_apply (None, Map.empty) (frs @ [f]))"
    using agg_step_in_sync [OF b(2,1), of "ETick now"] assms(7) by simp
  have t: "ag_dirty b' = []" "ag_current_window b' = Some (frame_window f)"
      "ag_current_window b = Some (frame_window f)" "ag_accum b' = ag_accum b"
    using assms(7) by (auto simp: tick_eq [OF b(2)] split: if_splits)
  have rb: "rep b (spec_run (wms * 1000000) None es)" "ag_bucket_step b = step"
    using run_refines [OF new(1) assms(4)] new(2,3) assms(6) by auto
  then obtain us where us: "spec_run (wms * 1000000) None es = Some (frame_window f, us)"
    using t(3) rep_current [OF rb(1)] by (cases "spec_run (wms * 1000000) None es") auto
  then have "map_of (ag_accum b) = book step us" using rb by (simp add: rep_def)
  moreover have "fst (foldl view_apply (None, Map.empty) (frs @ [f])) = Some (frame_window f)"
    by (simp add: view_apply_def)
  ultimately have "foldl view_apply (None, Map.empty) (frs @ [f]) = (Some (frame_window f), book step us)"
    using s t by (intro prod_eqI ext) (simp_all add: in_sync_def)
  then show ?thesis using us by auto
qed

lemma sample_tick:
  "\<exists>b frs b' f. agg_run sample_agg (map ETrade (take 1 sample_trades)) = Some (b, frs) \<and>
     tick b 300000000 = Some (b', Some f)"
  by (simp add: sample_agg_def aggregator_new_def sample_trades_def sample_trade_def ingest_def
      apply_trade_def update_ohlc_def add_trade_def tick_def collect_buckets_def Let_def
      div_i64_def i64_defs)

end
