(* ===== verification/Diff_Rate.thy ===== *)
theory Diff_Rate
  imports Footprint_Theorems
begin

text \<open>
  How often the aggregator emits diffs: \<open>tick\<close> keeps the diff interval between two diffs of one
  window.
\<close>

section \<open>The rate of diffs\<close>

text \<open>The window and the clock of every diff a run emits.\<close>

fun diff_times :: "aggregator \<Rightarrow> agg_event list \<Rightarrow> (i64 \<times> i64) list" where
  "diff_times a [] = []"
| "diff_times a (e # es) =
     (case agg_step a e of
        None \<Rightarrow> []
      | Some (a', fr) \<Rightarrow>
          (case (e, fr) of (ETick now, Some f) \<Rightarrow> [(frame_window f, now)] | _ \<Rightarrow> []) @ diff_times a' es)"

fun tick_in_range :: "agg_event \<Rightarrow> bool" where
  "tick_in_range (ETick now) = (0 \<le> now \<and> now < 2 ^ 63)"
| "tick_in_range _ = True"

definition spaced :: "i64 \<Rightarrow> i64 \<times> i64 \<Rightarrow> i64 \<times> i64 \<Rightarrow> bool" where
  "spaced D x y \<longleftrightarrow> (fst x = fst y \<longrightarrow> snd x + D \<le> snd y)"

lemma sub_sat_less: "0 < D \<Longrightarrow> saturating_sub_i64 now l < D \<or> l + D \<le> now"
  by (auto simp: saturating_sub_i64_def sat_i64_def)

text \<open>What one event does to the clock of the last diff.\<close>

lemma clock_step:
  assumes "agg_wf a" "0 \<le> ag_last_diff_emit_ns a" "event_in_range e" "no_flush e" "tick_in_range e"
    and "agg_step a e = Some (a', fr)"
  shows "0 \<le> ag_last_diff_emit_ns a'" "ag_diff_interval_ns a' = ag_diff_interval_ns a"
    and "ag_current_window a = Some c \<Longrightarrow> \<exists>c'. ag_current_window a' = Some c' \<and>
       (c < c' \<or> c = c' \<and> ag_last_diff_emit_ns a \<le> ag_last_diff_emit_ns a')"
    and "e = ETick now \<Longrightarrow> fr = Some f \<Longrightarrow> ag_current_window a = Some (frame_window f) \<and>
       ag_current_window a' = Some (frame_window f) \<and> ag_last_diff_emit_ns a' = now \<and>
       ag_last_diff_emit_ns a + ag_diff_interval_ns a \<le> now"
proof -
  have D: "0 < ag_diff_interval_ns a" using assms(1) by (simp add: agg_wf_def)
  note sub = sub_sat_less [OF D, of _ "ag_last_diff_emit_ns a"]
  show "0 \<le> ag_last_diff_emit_ns a'" "ag_diff_interval_ns a' = ag_diff_interval_ns a"
    using assms by (cases e; auto simp: ingest_eq tick_eq delta_eq Let_def roll_window_def
        split: option.splits if_splits)+
  show "\<exists>c'. ag_current_window a' = Some c' \<and>
       (c < c' \<or> c = c' \<and> ag_last_diff_emit_ns a \<le> ag_last_diff_emit_ns a')"
    if "ag_current_window a = Some c"
  proof (cases e)
    case (ETick now)
    then show ?thesis using that assms sub [of now] D by (auto simp: tick_eq split: if_splits)
  qed (use that assms in \<open>auto simp: ingest_eq delta_eq Let_def roll_window_def split: if_splits\<close>)
  show "ag_current_window a = Some (frame_window f) \<and>
       ag_current_window a' = Some (frame_window f) \<and> ag_last_diff_emit_ns a' = now \<and>
       ag_last_diff_emit_ns a + ag_diff_interval_ns a \<le> now"
    if "e = ETick now" "fr = Some f"
    using that assms sub [of now] by (auto simp: tick_eq split: if_splits)
qed

lemma diff_times_spaced:
  assumes "agg_wf a" "0 \<le> ag_last_diff_emit_ns a"
    and "list_all event_in_range es" "list_all no_flush es" "list_all tick_in_range es"
  shows "sorted_wrt (spaced (ag_diff_interval_ns a)) (diff_times a es) \<and>
    (\<forall>x \<in> set (diff_times a es). \<forall>c. ag_current_window a = Some c \<longrightarrow> c \<le> fst x \<and>
       (fst x = c \<longrightarrow> ag_last_diff_emit_ns a + ag_diff_interval_ns a \<le> snd x))"
  using assms
proof (induction es arbitrary: a)
  case (Cons e es)
  obtain a' fr where s: "agg_step a e = Some (a', fr)" "agg_wf a'"
    using agg_step_wf [of a e] Cons.prems by auto
  have e: "event_in_range e" "no_flush e" "tick_in_range e" using Cons.prems by auto
  note st = clock_step [OF Cons.prems(1,2) e s(1)]
  have IH: "sorted_wrt (spaced (ag_diff_interval_ns a)) (diff_times a' es)"
    "\<And>x c. x \<in> set (diff_times a' es) \<Longrightarrow> ag_current_window a' = Some c \<Longrightarrow> c \<le> fst x \<and>
       (fst x = c \<longrightarrow> ag_last_diff_emit_ns a' + ag_diff_interval_ns a \<le> snd x)"
    using Cons.IH [OF s(2) st(1)] Cons.prems(3-5) st(2) by auto
  have later: "c \<le> fst x \<and> (fst x = c \<longrightarrow> ag_last_diff_emit_ns a + ag_diff_interval_ns a \<le> snd x)"
    if "x \<in> set (diff_times a' es)" "ag_current_window a = Some c" for x c
    using st(3) [OF that(2)] IH(2) [OF that(1)] by fastforce
  show ?case
  proof (cases "\<exists>now f. e = ETick now \<and> fr = Some f")
    case True
    then obtain now f where t: "e = ETick now" "fr = Some f" by auto
    have "spaced (ag_diff_interval_ns a) (frame_window f, now) x" if "x \<in> set (diff_times a' es)" for x
      using st(4) [OF t] IH(2) [OF that] by (auto simp: spaced_def)
    then show ?thesis using t s IH(1) st(4) [OF t] later by auto
  next
    case False
    then have "diff_times a (e # es) = diff_times a' es"
      using s by (auto split: agg_event.splits option.splits)
    then show ?thesis using IH(1) later by auto
  qed
qed simp

text \<open>C22: The diffs of one window are at least the diff interval apart on the clock the ticks carry,
  whatever trades, ticks and partial snapshots come between them.\<close>

theorem diffs_rate_limited:
  assumes "aggregator_new k step wms dms = Some a"
    and "wms * 1000000 < 2 ^ 63" and "dms * 1000000 < 2 ^ 63"
    and "list_all event_in_range es" "list_all no_flush es" "list_all tick_in_range es"
  shows "sorted_wrt (spaced (dms * 1000000)) (diff_times a es)"
proof -
  have "ag_last_diff_emit_ns a = 0" using assms(1) by (auto simp: aggregator_new_def split: if_splits)
  then show ?thesis
    using diff_times_spaced [of a es] assms(4-6) new_rep(1,7) [OF assms(1-3)] by (simp add: rep_def)
qed

lemma diffs_rate_limited_witness:
  "sorted_wrt (spaced (250 * 1000000)) (diff_times sample_agg sample_events)"
  using sample_events_ok
  by (intro diffs_rate_limited [OF sample_new])
    (auto simp: list_all_iff event_ok_in_range sample_events_def)

end
