(* ===== verification/Json_Api.thy ===== *)
theory Json_Api
  imports Exchange_Core
begin

text \<open>
  The interface of \<open>serde_json::Value\<close>, which the adapters read their messages through. The
  library is not part of the repository, so a value is of any type \<open>'j\<close> and its accessors are
  a record that every parser takes as its first argument. \<open>j_number\<close> is the \<open>to_string\<close> of a
  value matched against \<open>Value::Number\<close>, and \<open>j_string\<close> serves both \<open>as_str\<close> and a match
  against \<open>Value::String\<close>. \<open>j_parse\<close>, \<open>j_parse_vec\<close> and \<open>j_parse_bytes\<close> are \<open>from_str\<close> at
  \<open>Value\<close> and at \<open>Vec<Value>\<close> and \<open>from_slice\<close>, with the text of the error; \<open>j_str\<close>,
  \<open>j_nat\<close>, \<open>j_of_bool\<close>, \<open>j_arr\<close> and \<open>j_obj\<close> are the values \<open>json!\<close> builds and \<open>j_text\<close> is their
  \<open>to_string\<close>.
\<close>

record 'j json_api =
  j_get :: "'j \<Rightarrow> string \<Rightarrow> 'j option"
  j_string :: "'j \<Rightarrow> string option"
  j_i64 :: "'j \<Rightarrow> i64 option"
  j_u64 :: "'j \<Rightarrow> nat option"
  j_bool :: "'j \<Rightarrow> bool option"
  j_array :: "'j \<Rightarrow> 'j list option"
  j_is_object :: "'j \<Rightarrow> bool"
  j_number :: "'j \<Rightarrow> string option"
  j_parse :: "string \<Rightarrow> string + 'j"
  j_parse_vec :: "string \<Rightarrow> string + 'j list"
  j_parse_bytes :: "byte list \<Rightarrow> string + 'j"
  j_str :: "string \<Rightarrow> 'j"
  j_nat :: "nat \<Rightarrow> 'j"
  j_of_bool :: "bool \<Rightarrow> 'j"
  j_arr :: "'j list \<Rightarrow> 'j"
  j_obj :: "(string \<times> 'j) list \<Rightarrow> 'j"
  j_text :: "'j \<Rightarrow> string"

text \<open>\<open>v.get(k).and_then(|x| x.as_str())\<close> and its kin.\<close>

definition get_string :: "'j json_api \<Rightarrow> 'j \<Rightarrow> string \<Rightarrow> string option" where
  "get_string J v k = Option.bind (j_get J v k) (j_string J)"

definition get_i64 :: "'j json_api \<Rightarrow> 'j \<Rightarrow> string \<Rightarrow> i64 option" where
  "get_i64 J v k = Option.bind (j_get J v k) (j_i64 J)"

definition get_u64 :: "'j json_api \<Rightarrow> 'j \<Rightarrow> string \<Rightarrow> nat option" where
  "get_u64 J v k = Option.bind (j_get J v k) (j_u64 J)"

definition get_bool :: "'j json_api \<Rightarrow> 'j \<Rightarrow> string \<Rightarrow> bool option" where
  "get_bool J v k = Option.bind (j_get J v k) (j_bool J)"

definition get_array :: "'j json_api \<Rightarrow> 'j \<Rightarrow> string \<Rightarrow> 'j list option" where
  "get_array J v k = Option.bind (j_get J v k) (j_array J)"

lemmas json_defs = get_string_def get_i64_def get_u64_def get_bool_def get_array_def

fun unwrap_or :: "'a option \<Rightarrow> 'a \<Rightarrow> 'a" where
  "unwrap_or None d = d"
| "unwrap_or (Some x) d = x"

text \<open>A concrete value type for the witnesses: integers, strings, arrays and objects.\<close>

datatype jv = JNull | JBool bool | JInt int | JStr string | JArr "jv list" | JObj "(string \<times> jv) list"

fun jv_get :: "jv \<Rightarrow> string \<Rightarrow> jv option" where
  "jv_get (JObj kvs) k = map_of kvs k"
| "jv_get _ k = None"

definition jv_api :: "jv json_api" where
  "jv_api = \<lparr>j_get = jv_get,
     j_string = (\<lambda>v. case v of JStr s \<Rightarrow> Some s | _ \<Rightarrow> None),
     j_i64 = (\<lambda>v. case v of JInt i \<Rightarrow> if in_i64 i then Some i else None | _ \<Rightarrow> None),
     j_u64 = (\<lambda>v. case v of JInt i \<Rightarrow> if 0 \<le> i \<and> i < 2 ^ 64 then Some (nat i) else None | _ \<Rightarrow> None),
     j_bool = (\<lambda>v. case v of JBool b \<Rightarrow> Some b | _ \<Rightarrow> None),
     j_array = (\<lambda>v. case v of JArr a \<Rightarrow> Some a | _ \<Rightarrow> None),
     j_is_object = (\<lambda>v. case v of JObj _ \<Rightarrow> True | _ \<Rightarrow> False),
     j_number = (\<lambda>v. case v of JInt i \<Rightarrow> Some (int_to_string i) | _ \<Rightarrow> None),
     j_parse = (\<lambda>_. Inl ''expected value''), j_parse_vec = (\<lambda>_. Inl ''expected value''),
     j_parse_bytes = (\<lambda>_. Inl ''expected value''),
     j_str = JStr, j_nat = (\<lambda>n. JInt (int n)), j_of_bool = JBool, j_arr = JArr, j_obj = JObj, j_text = (\<lambda>_. [])\<rparr>"

end
