(* ===== verification/Scale.thy ===== *)
theory Scale
  imports Exchange_Core
begin

text \<open>
  Decimal strings and price scales. Every adapter crate carries its own copy of
  \<open>count_decimals_trimmed\<close> and \<open>parse_scaled\<close>, which the comments require to agree to the
  last bit, because the stored prices are integers at that scale. This theory holds the copy of
  \<open>crates/exchange-binance/src/scale.rs\<close>, what the pair promises (the locales
  \<open>scaled_parser\<close> and \<open>decimal_counter\<close>), and the facts every copy inherits from them.
\<close>

section \<open>The Binance copy\<close>

definition binance_count_decimals_trimmed :: "string \<Rightarrow> nat" where
  "binance_count_decimals_trimmed value =
     (case find_char CHR ''.'' value of
        None \<Rightarrow> 0
      | Some dot \<Rightarrow>
          let trimmed = trim_end_matches CHR ''0'' value in
          if ends_with trimmed ''.'' then 0
          else min (length trimmed - dot - 1) 255)"

definition binance_parse_scaled :: "string \<Rightarrow> nat \<Rightarrow> exchange_error + i64" where
  "binance_parse_scaled s0 scale =
     (let s = trim s0 in
      if s = [] then Inl (Parse ''empty number'')
      else if starts_with s ''-'' then Inl (Parse (''negative number not allowed: '' @ s))
      else
        let (int_part, rest) = splitn2 CHR ''.'' s;
            frac_part = (case rest of None \<Rightarrow> [] | Some f \<Rightarrow> f)
        in
        if int_part = [] \<or> \<not> all_digits int_part then Inl (Parse (''invalid integer part: '' @ s))
        else if \<not> all_digits frac_part then Inl (Parse (''invalid fractional part: '' @ s))
        else
          rbind (map_err Parse (parse_i64 int_part)) (\<lambda>int_val.
          rbind (if frac_part = [] \<or> scale = 0 then Inr 0
                 else if length frac_part \<le> scale then
                   map_err Parse (parse_i64
                     (frac_part @ replicate (scale - length frac_part) CHR ''0''))
                 else map_err Parse (parse_i64 (take scale frac_part))) (\<lambda>frac_val.
          rbind (ok_or (checked_pow_i64 10 scale)
                   (Parse (''scale '' @ nat_to_string scale @ '' overflows i64''))) (\<lambda>multiplier.
          ok_or (Option.bind (checked_mul_i64 int_val multiplier)
                   (\<lambda>v. checked_add_i64 v frac_val))
                (Parse (''value '' @ s @ '' overflows i64 at scale '' @ nat_to_string scale))))))"

section \<open>What the parser promises\<close>

text \<open>
  The decimal \<open>I.F\<close> denotes \<open>(I * 10 ^ |F| + F) / 10 ^ |F|\<close>; at scale \<open>k\<close> it is that times
  \<open>10 ^ k\<close>, rounded down.
\<close>

definition scaled_floor :: "string \<Rightarrow> string \<Rightarrow> nat \<Rightarrow> int" where
  "scaled_floor i f k = dec_val 0 (i @ f) * 10 ^ k div 10 ^ length f"

text \<open>
  The specification: which strings are numbers, and their value at the scale. It knows nothing
  of padding, of the order of the checks or of 64-bit intermediate results.
\<close>

definition decimal_parts :: "string \<Rightarrow> (string \<times> string) option" where
  "decimal_parts s =
     (let (i, r) = splitn2 CHR ''.'' (trim s); f = (case r of None \<Rightarrow> [] | Some f \<Rightarrow> f)
      in if i \<noteq> [] \<and> all_digits i \<and> all_digits f then Some (i, f) else None)"

definition scaled_spec :: "string \<Rightarrow> nat \<Rightarrow> i64 option" where
  "scaled_spec s k =
     (case decimal_parts s of None \<Rightarrow> None
      | Some (i, f) \<Rightarrow> if k \<le> 18 \<and> scaled_floor i f k < 2 ^ 63 then Some (scaled_floor i f k) else None)"

lemma scaled_floor_split:
  assumes "all_digits f"
  shows "scaled_floor i f k = dec_val 0 i * 10 ^ k + dec_val 0 f * 10 ^ k div 10 ^ length f"
proof -
  have "dec_val 0 (i @ f) * 10 ^ k
        = dec_val 0 f * 10 ^ k + (dec_val 0 i * 10 ^ k) * 10 ^ length f"
    using dec_val_shift [of "dec_val 0 i" f] by (simp add: dec_val_append algebra_simps)
  then show ?thesis by (simp add: scaled_floor_def)
qed

text \<open>Padding with zeros and truncating are both the rounded product.\<close>

lemma digits_replicate0 [simp]: "all_digits (replicate n CHR ''0'')"
  by (induction n) (auto simp: chr_defs)

lemma dec_val_replicate0 [simp]: "dec_val acc (replicate n CHR ''0'') = acc * 10 ^ n"
  by (induction n arbitrary: acc) (auto simp: chr_defs)

lemma frac_padded:
  assumes "length f \<le> k"
  shows "dec_val 0 (f @ replicate (k - length f) CHR ''0'') = dec_val 0 f * 10 ^ k div 10 ^ length f"
proof -
  obtain d where k: "k = length f + d" using assms le_Suc_ex by blast
  have "dec_val 0 f * 10 ^ k = (dec_val 0 f * 10 ^ d) * 10 ^ length f"
    by (simp add: k power_add mult.commute mult.left_commute)
  then have "dec_val 0 f * 10 ^ k div 10 ^ length f = dec_val 0 f * 10 ^ d"
    by (metis nonzero_mult_div_cancel_right power_not_zero zero_neq_numeral)
  then show ?thesis by (simp add: k dec_val_append)
qed

lemma frac_truncated:
  assumes "k \<le> length f" and "all_digits f"
  shows "dec_val 0 (take k f) = dec_val 0 f * 10 ^ k div 10 ^ length f"
proof -
  let ?r = "drop k f"
  have r: "0 \<le> dec_val 0 ?r" "dec_val 0 ?r < 10 ^ length ?r"
    using dec_val_bounds [of ?r] assms by (auto simp: list_all_iff dest: in_set_dropD)
  have len: "10 ^ length f = (10::int) ^ k * 10 ^ length ?r"
    using assms by (simp flip: power_add)
  have "dec_val 0 f = dec_val 0 (take k f) * 10 ^ length ?r + dec_val 0 ?r"
    by (metis append_take_drop_id dec_val_append dec_val_shift)
  then have "dec_val 0 f div 10 ^ length ?r = dec_val 0 (take k f)"
    using r by (simp add: div_pos_pos_trivial)
  moreover have "dec_val 0 f * 10 ^ k div 10 ^ length f = dec_val 0 f div 10 ^ length ?r"
    by (simp add: len mult.commute)
  ultimately show ?thesis by simp
qed

lemma scaled_frac_bounds:
  assumes "all_digits f"
  shows "0 \<le> dec_val 0 f * 10 ^ k div 10 ^ length f \<and> dec_val 0 f * 10 ^ k div 10 ^ length f < 10 ^ k"
proof -
  have "dec_val 0 f * 10 ^ k < 10 ^ k * 10 ^ length f"
    using dec_val_bounds [OF assms] by (simp add: mult.commute)
  then have "dec_val 0 f * 10 ^ k div 10 ^ length f < 10 ^ k"
    by (rule int_div_less [rotated]) simp
  then show ?thesis using dec_val_bounds [OF assms] by (simp add: pos_imp_zdiv_nonneg_iff)
qed

lemma pow10_small: "k \<le> 18 \<Longrightarrow> (10::int) ^ k < 2 ^ 63"
proof -
  assume "k \<le> 18"
  then have "(10::int) ^ k \<le> 10 ^ 18" by (rule power_increasing) simp
  then show ?thesis by simp
qed

lemma pow10_big: "\<not> k \<le> 18 \<Longrightarrow> (2::int) ^ 63 \<le> 10 ^ k"
proof -
  assume "\<not> k \<le> 18"
  then have "(10::int) ^ 19 \<le> 10 ^ k" by (intro power_increasing) simp_all
  then show ?thesis by simp
qed

lemma parse_i64_digits:
  "all_digits s \<Longrightarrow> s \<noteq> [] \<Longrightarrow>
   parse_i64 s = (if dec_val 0 s < 2 ^ 63 then Inr (dec_val 0 s) else Inl err_pos)"
  by (simp add: parse_i64_def parse_signed_digits)

lemma frac_branch:
  assumes "all_digits f" and "k \<le> 18"
  shows "(if f = [] \<or> k = 0 then Inr 0
          else if length f \<le> k then
            map_err Parse (parse_i64 (f @ replicate (k - length f) CHR ''0''))
          else map_err Parse (parse_i64 (take k f)))
         = Inr (dec_val 0 f * 10 ^ k div 10 ^ length f)" (is "?l = Inr ?v")
proof -
  have v: "?v < 2 ^ 63" using scaled_frac_bounds [OF assms(1), of k] pow10_small [OF assms(2)] by simp
  consider "f = [] \<or> k = 0" | "f \<noteq> []" "k \<noteq> 0" "length f \<le> k" | "f \<noteq> []" "k \<noteq> 0" "\<not> length f \<le> k"
    by blast
  then show ?thesis
  proof cases
    case 1
    then show ?thesis using dec_val_bounds [OF assms(1)] by (auto simp: div_pos_pos_trivial)
  next
    case 2
    then show ?thesis
      using parse_i64_digits [of "f @ replicate (k - length f) CHR ''0''"] assms v
      by (simp add: frac_padded)
  next
    case 3
    then have "all_digits (take k f)" "take k f \<noteq> []"
      using assms by (auto simp: list_all_iff dest: in_set_takeD)
    then show ?thesis using 3 parse_i64_digits [of "take k f"] frac_truncated [of k f] assms v
      by simp
  qed
qed

text \<open>The branches of the code after the syntax checks, against the rounded value.\<close>

lemma checked_add_nonneg:
  "0 \<le> x \<Longrightarrow> 0 \<le> g \<Longrightarrow>
   Option.bind (checked_i64 x) (\<lambda>v. checked_add_i64 v g) = (if x + g < 2 ^ 63 then Some (x + g) else None)"
  by (auto simp: checked_add_i64_def checked_i64_def in_i64_def)

lemma res_ok_ok_or [simp]: "res_ok (ok_or m e) = m"
  by (cases m) auto

lemma res_ok_rbind: "res_ok (rbind m f) = Option.bind (res_ok m) (\<lambda>x. res_ok (f x))"
  by (cases m) auto

lemma res_ok_map_err [simp]: "res_ok (map_err f m) = res_ok m"
  by (cases m) auto

lemma binance_parse_valid:
  assumes i: "i \<noteq> []" "all_digits i" and f: "all_digits f"
  shows "res_ok
     (rbind (map_err Parse (parse_i64 i)) (\<lambda>int_val.
      rbind (if f = [] \<or> k = 0 then Inr 0
             else if length f \<le> k then
               map_err Parse (parse_i64 (f @ replicate (k - length f) CHR ''0''))
             else map_err Parse (parse_i64 (take k f))) (\<lambda>frac_val.
      rbind (ok_or (checked_pow_i64 10 k) e1) (\<lambda>multiplier.
      ok_or (Option.bind (checked_mul_i64 int_val multiplier)
               (\<lambda>v. checked_add_i64 v frac_val)) e2))))
    = (if k \<le> 18 \<and> scaled_floor i f k < 2 ^ 63 then Some (scaled_floor i f k) else None)"
proof (cases "k \<le> 18")
  case True
  let ?I = "dec_val 0 i" and ?G = "dec_val 0 f * 10 ^ k div 10 ^ length f"
  have G: "0 \<le> ?G" "?G < 10 ^ k" using scaled_frac_bounds [OF f, of k] by auto
  have I: "0 \<le> ?I" using dec_val_bounds [OF i(2)] by simp
  have pow: "checked_pow_i64 10 k = Some (10 ^ k)"
    using pow10_small [OF True] zero_le_power [of "10::int" k]
    by (simp add: checked_pow_i64_def in_i64_def order_trans [OF _ zero_le_power])
  have prod: "Option.bind (checked_mul_i64 ?I (10 ^ k)) (\<lambda>v. checked_add_i64 v ?G)
      = (if ?I * 10 ^ k + ?G < 2 ^ 63 then Some (?I * 10 ^ k + ?G) else None)"
    unfolding checked_mul_i64_def by (rule checked_add_nonneg) (use I G in simp_all)
  have big: "\<not> ?I < 2 ^ 63 \<Longrightarrow> \<not> ?I * 10 ^ k + ?G < 2 ^ 63"
  proof -
    assume "\<not> ?I < 2 ^ 63"
    moreover have "?I * 1 \<le> ?I * 10 ^ k" by (rule mult_left_mono) (simp_all add: I)
    ultimately show ?thesis using G(1) by linarith
  qed
  show ?thesis
    using frac_branch [OF f True] parse_i64_digits [OF i(2,1)] prod big
    by (simp add: res_ok_rbind pow scaled_floor_split [OF f] True del: checked_i64_Some)
next
  case False
  then have "checked_pow_i64 10 k = None"
    using pow10_big by (simp add: checked_pow_i64_def in_i64_def not_less)
  then show ?thesis using False by (simp add: res_ok_rbind bind_eq_None_conv)
qed

lemma splitn2_hd: "c \<noteq> d \<Longrightarrow> fst (splitn2 c (d # s)) = d # fst (splitn2 c s)"
  by (simp add: case_prod_beta Let_def)

lemma binance_parse_scaled_spec: "res_ok (binance_parse_scaled s k) = scaled_spec s k"
proof -
  let ?t = "trim s"
  obtain i r where ir: "splitn2 CHR ''.'' ?t = (i, r)" by fastforce
  let ?f = "case r of None \<Rightarrow> [] | Some f \<Rightarrow> f"
  have nil: "?t = [] \<Longrightarrow> i = []" using ir by auto
  have neg: "starts_with ?t ''-'' \<Longrightarrow> \<not> all_digits i"
  proof -
    assume "starts_with ?t ''-''"
    then obtain u where "?t = CHR ''-'' # u" by (auto simp: starts_with_conv)
    moreover have "fst (splitn2 CHR ''.'' (CHR ''-'' # u)) = CHR ''-'' # fst (splitn2 CHR ''.'' u)"
      by (rule splitn2_hd) simp
    ultimately have "i = CHR ''-'' # fst (splitn2 CHR ''.'' u)" using ir by simp
    then show ?thesis by (simp add: chr_defs)
  qed
  show ?thesis
  proof (cases "i \<noteq> [] \<and> all_digits i \<and> all_digits ?f")
    case True
    then have "?t \<noteq> []" "\<not> starts_with ?t ''-''" using nil neg by auto
    with True ir binance_parse_valid [of i ?f k] show ?thesis
      by (simp add: binance_parse_scaled_def scaled_spec_def decimal_parts_def Let_def)
  next
    case False
    then show ?thesis using ir nil neg
      by (auto simp: binance_parse_scaled_def scaled_spec_def decimal_parts_def Let_def)
  qed
qed

section \<open>What the counter promises\<close>

definition decimals_spec :: "string \<Rightarrow> nat" where
  "decimals_spec value =
     (case splitn2 CHR ''.'' value of
        (_, None) \<Rightarrow> 0
      | (_, Some f) \<Rightarrow>
          let t = trim_end_matches CHR ''0'' f in if ends_with t ''.'' then 0 else min (length t) 255)"

lemma trim_end_matches_app:
  "trim_end_matches c (a @ b)
   = (if trim_end_matches c b = [] then trim_end_matches c a else a @ trim_end_matches c b)"
  by (auto simp: trim_end_matches_def dropWhile_append dropWhile_eq_Nil_conv)

lemma splitn2_parts: "splitn2 c s = (a, r) \<Longrightarrow>
  c \<notin> set a \<and> (case r of None \<Rightarrow> s = a | Some b \<Rightarrow> s = a @ c # b)"
  by (induction s arbitrary: a r)
    (auto split: if_splits prod.splits option.splits)

lemma ends_with_single: "ends_with s [c] \<longleftrightarrow> s \<noteq> [] \<and> last s = c"
  by (cases s rule: rev_cases) (auto simp: ends_with_conv)

lemma binance_count_decimals_spec: "binance_count_decimals_trimmed v = decimals_spec v"
proof -
  obtain a r where ar: "splitn2 CHR ''.'' v = (a, r)" by fastforce
  show ?thesis
  proof (cases r)
    case None
    then have "find_char CHR ''.'' v = None" using splitn2_parts [OF ar] by (simp add: find_char_None)
    then show ?thesis using ar None
      by (simp add: binance_count_decimals_trimmed_def decimals_spec_def)
  next
    case (Some f)
    let ?t = "trim_end_matches CHR ''0'' f"
    have v: "v = a @ CHR ''.'' # f" "CHR ''.'' \<notin> set a" using splitn2_parts [OF ar] Some by auto
    have dot: "trim_end_matches CHR ''0'' ''.'' = ''.''" by (simp add: trim_end_matches_def)
    have tr: "trim_end_matches CHR ''0'' v = a @ CHR ''.'' # ?t"
      using trim_end_matches_app [of "CHR ''0''" "a @ ''.''" f]
        trim_end_matches_app [of "CHR ''0''" a "''.''"] dot by (auto simp: v(1))
    show ?thesis
      using ar Some v(2) find_char_app [of "CHR ''.''" a f] tr
      by (auto simp: binance_count_decimals_trimmed_def decimals_spec_def v(1) ends_with_single Let_def)
  qed
qed

text \<open>A scale is exact for a decimal when scaling to it drops no digit.\<close>

definition exact_at :: "string \<Rightarrow> string \<Rightarrow> nat \<Rightarrow> bool" where
  "exact_at i f k \<longleftrightarrow> scaled_floor i f k * 10 ^ length f = dec_val 0 (i @ f) * 10 ^ k"

lemma exact_at_dvd: "exact_at i f k \<longleftrightarrow> 10 ^ length f dvd dec_val 0 (i @ f) * 10 ^ k"
  by (auto simp: exact_at_def scaled_floor_def dvd_eq_mod_eq_0 minus_mod_eq_div_mult [symmetric])

lemma dec_val_dvd10:
  assumes "all_digits s" and "s \<noteq> []"
  shows "(10::int) dvd dec_val 0 s \<longleftrightarrow> last s = CHR ''0''"
proof -
  obtain u c where s: "s = u @ [c]" using assms(2) by (cases s rule: rev_cases) auto
  have "is_ascii_digit c" using assms(1) s by simp
  then have d: "0 \<le> digit_val c" "digit_val c \<le> 9" using digit_val_bounds by auto
  have "(10::int) dvd dec_val 0 s \<longleftrightarrow> 10 dvd digit_val c"
    by (simp add: s dec_val_append dvd_add_right_iff)
  also have "\<dots> \<longleftrightarrow> digit_val c = 0" using d by presburger
  also have "\<dots> \<longleftrightarrow> c = CHR ''0''"
    by (simp add: digit_val_def char_eq_iff_code [of c] chr_code_def [of "CHR ''0''"])
  finally show ?thesis by (simp add: s)
qed

lemma exact_at_least:
  assumes "all_digits (i @ g)" and "g \<noteq> []" and "last g \<noteq> CHR ''0''" and "k < length g"
  shows "\<not> exact_at i (g @ replicate n CHR ''0'') k"
proof
  let ?v = "dec_val 0 (i @ g)"
  assume "exact_at i (g @ replicate n CHR ''0'') k"
  then have "10 ^ (length g + n) dvd ?v * 10 ^ n * 10 ^ k"
    by (simp add: exact_at_dvd dec_val_append)
  then have "10 ^ n * 10 ^ length g dvd 10 ^ n * (?v * 10 ^ k)"
    by (simp add: power_add mult.commute mult.left_commute)
  then have a: "10 ^ length g dvd ?v * 10 ^ k" by simp
  have "length g = k + Suc (length g - Suc k)" using assms(4) by simp
  then have "(10::int) ^ length g = 10 ^ k * (10 * 10 ^ (length g - Suc k))"
    by (metis power_Suc power_add)
  with a have "10 ^ k * (10 * 10 ^ (length g - Suc k)) dvd 10 ^ k * ?v" by (simp add: mult.commute)
  then have "10 * 10 ^ (length g - Suc k) dvd ?v" by simp
  then have "10 dvd ?v" by (rule dvd_mult_left)
  then show False using dec_val_dvd10 [of "i @ g"] assms by simp
qed

lemma decimals_spec_parts:
  assumes "CHR ''.'' \<notin> set i" and "all_digits f"
  shows "decimals_spec (i @ CHR ''.'' # f) = min (length (trim_end_matches CHR ''0'' f)) 255"
proof -
  let ?t = "trim_end_matches CHR ''0'' f"
  obtain n where "f = ?t @ replicate n CHR ''0''" using trim_end_matches_decomp by blast
  then have "all_digits ?t" using assms(2) by (metis list_all_append)
  then have "\<not> ends_with ?t ''.''"
    using digit_not_sign [of "CHR ''.''"] by (auto simp: ends_with_conv)
  then show ?thesis using assms(1) by (simp add: decimals_spec_def splitn2_app Let_def)
qed

lemma digits_no_dot: "all_digits s \<Longrightarrow> CHR ''.'' \<notin> set s"
  using digit_not_sign by (auto simp: list_all_iff)

lemma decimal_parts_digits:
  assumes "i \<noteq> []" "all_digits i" "all_digits f"
  shows "decimal_parts (i @ CHR ''.'' # f) = Some (i, f)"
proof -
  let ?s = "i @ CHR ''.'' # f"
  have "\<not> is_whitespace (hd ?s)"
    using assms digit_not_sign by (cases i) auto
  moreover have "\<not> is_whitespace (last ?s)"
  proof (cases "f = []")
    case True
    then show ?thesis by (simp add: is_whitespace_def chr_code_def)
  next
    case False
    then show ?thesis using assms digit_not_sign by (cases f rule: rev_cases) auto
  qed
  ultimately have "trim ?s = ?s" by (intro trim_id) simp_all
  then show ?thesis
    using assms digits_no_dot [of i] by (simp add: decimal_parts_def splitn2_app Let_def)
qed

section \<open>The two contracts as locales\<close>

locale scaled_parser =
  fixes parse :: "string \<Rightarrow> nat \<Rightarrow> exchange_error + i64"
  assumes parse_spec: "res_ok (parse s k) = scaled_spec s k"
begin

lemma parse_Inr: "parse s k = Inr v \<longleftrightarrow> scaled_spec s k = Some v"
  using parse_spec [of s k] by (metis res_ok_Some)

lemma parse_value:
  assumes "parse s k = Inr v"
  obtains i f where "decimal_parts s = Some (i, f)" "v = scaled_floor i f k" "k \<le> 18" "v < 2 ^ 63"
  using assms by (auto simp: parse_Inr scaled_spec_def split: option.splits prod.splits if_splits)

lemma parse_parts:
  "decimal_parts s = Some (i, f) \<Longrightarrow> k \<le> 18 \<Longrightarrow> scaled_floor i f k < 2 ^ 63 \<Longrightarrow>
   parse s k = Inr (scaled_floor i f k)"
  by (simp add: parse_Inr scaled_spec_def)

lemma parse_bounds:
  assumes "parse s k = Inr v"
  shows "0 \<le> v \<and> in_i64 v"
proof -
  obtain i f where p: "decimal_parts s = Some (i, f)" "v = scaled_floor i f k" "v < 2 ^ 63"
    using parse_value [OF assms] by metis
  then have "all_digits (i @ f)"
    by (auto simp: decimal_parts_def Let_def split: prod.splits if_splits)
  then have "0 \<le> v" using dec_val_bounds [of "i @ f"]
    by (simp add: p(2) scaled_floor_def pos_imp_zdiv_nonneg_iff)
  then show ?thesis using p(3) by (simp add: in_i64_def)
qed

text \<open>A coarser scale is the finer one rounded down: history kept at a fine scale loses nothing.\<close>

lemma parse_downscale:
  assumes "parse s (k + d) = Inr v"
  shows "parse s k = Inr (v div 10 ^ d)"
proof -
  obtain i f where p: "decimal_parts s = Some (i, f)" "v = scaled_floor i f (k + d)" "k + d \<le> 18"
      "v < 2 ^ 63"
    using parse_value [OF assms] by metis
  have "0 \<le> v" using parse_bounds [OF assms] by simp
  then have "v div 10 ^ d \<le> v" by (simp add: int_div_le)
  moreover have "v div 10 ^ d = scaled_floor i f k"
    using int_mult_div_div [of "10 ^ d" "dec_val 0 (i @ f) * 10 ^ k" "10 ^ length f"]
    by (simp add: p(2) scaled_floor_def power_add mult.assoc)
  ultimately show ?thesis using p by (simp add: parse_parts)
qed

end

locale decimal_counter =
  fixes count :: "string \<Rightarrow> nat"
  assumes count_spec: "count v = decimals_spec v"
begin

lemma count_le: "count v \<le> 255"
  by (simp add: count_spec decimals_spec_def Let_def split: prod.split option.split)

end

text \<open>
  An adapter uses the pair together: the scale of an instrument is counted on its tick string,
  and that string is parsed at that scale. The scale is the least one that represents the tick.
\<close>

locale scale_pair = scaled_parser parse + decimal_counter count
  for parse :: "string \<Rightarrow> nat \<Rightarrow> exchange_error + i64" and count :: "string \<Rightarrow> nat"
begin

lemma tick_exact:
  assumes i: "i \<noteq> []" "all_digits i" and f: "all_digits f"
    and v: "parse (i @ CHR ''.'' # f) (count (i @ CHR ''.'' # f)) = Inr v"
  shows "v * 10 ^ length f = dec_val 0 (i @ f) * 10 ^ count (i @ CHR ''.'' # f)"
    and "k < count (i @ CHR ''.'' # f) \<Longrightarrow> \<not> exact_at i f k"
proof -
  let ?s = "i @ CHR ''.'' # f" and ?g = "trim_end_matches CHR ''0'' f"
  obtain n where fg: "f = ?g @ replicate n CHR ''0''" using trim_end_matches_decomp by blast
  have g: "all_digits ?g" using f fg by (metis list_all_append)
  have c: "count ?s = min (length ?g) 255"
    using decimals_spec_parts [OF digits_no_dot [OF i(2)] f] by (simp add: count_spec)
  obtain i' f' where p: "decimal_parts ?s = Some (i', f')" "v = scaled_floor i' f' (count ?s)"
      "count ?s \<le> 18"
    using parse_value [OF v] by metis
  then have p: "v = scaled_floor i f (length ?g)" "count ?s = length ?g"
    using decimal_parts_digits [OF i f] c by auto
  have "10 ^ length f dvd dec_val 0 (i @ f) * 10 ^ length ?g"
    by (subst (1 2) fg) (simp add: dec_val_append power_add mult.commute mult.left_commute)
  then have "exact_at i f (length ?g)" by (simp add: exact_at_dvd)
  then show "v * 10 ^ length f = dec_val 0 (i @ f) * 10 ^ count ?s"
    by (simp add: exact_at_def p)
  show "k < count ?s \<Longrightarrow> \<not> exact_at i f k"
    using exact_at_least [of i ?g k n] trim_end_matches_last [of "CHR ''0''" f] i g fg
    by (cases "?g = []") (auto simp: p)
qed

end

interpretation binance: scale_pair binance_parse_scaled binance_count_decimals_trimmed
  by unfold_locales (rule binance_parse_scaled_spec, rule binance_count_decimals_spec)

end
