(* ===== verification/Adapter_Common.thy ===== *)
theory Adapter_Common
  imports Json_Api Scale
begin

text \<open>
  What the nine exchange adapters share in shape: one HTTP exchange, the scan of Binance-style
  filters, the scales of an instrument from its tick and step strings, the map of 24-hour volumes,
  and the process-wide tables of contract multipliers. The HTTP client and the \<open>f64\<close> type are
  parameters.
\<close>

section \<open>HTTP\<close>

text \<open>
  A client maps a URL to its transport error or to a reply: whether the status is a success, its
  text, and its body or the error of reading it.
\<close>

type_synonym http_client = "string \<Rightarrow> string + (bool \<times> string \<times> (string + string))"

definition http_fetch :: "http_client \<Rightarrow> string \<Rightarrow> exchange_error + string" where
  "http_fetch http url =
     rbind (map_err Network (http url)) (\<lambda>(success, status, text).
     rbind (map_err Network text) (\<lambda>body.
       if \<not> success then Inl (Network (''HTTP '' @ status @ '': '' @ body)) else Inr body))"

section \<open>Floating point\<close>

text \<open>
  \<open>f_display\<close> is \<open>format!("{v}")\<close>, \<open>f_fixed12\<close> is \<open>format!("{v:.12}")\<close>, \<open>f_json\<close> is \<open>as_f64\<close>.
\<close>

record ('j, 'f) f64_api =
  f_parse :: "string \<Rightarrow> 'f option"
  f_json :: "'j \<Rightarrow> 'f option"
  f_zero :: 'f
  f_mul :: "'f \<Rightarrow> 'f \<Rightarrow> 'f"
  f_finite :: "'f \<Rightarrow> bool"
  f_positive :: "'f \<Rightarrow> bool"
  f_display :: "'f \<Rightarrow> string"
  f_fixed12 :: "'f \<Rightarrow> string"

text \<open>The loop that fills a \<open>HashMap<String, f64>\<close>: a later entry replaces an earlier one.\<close>

definition collect_volumes :: "('j \<Rightarrow> (string \<times> 'f) option) \<Rightarrow> 'j list \<Rightarrow> (string \<times> 'f) list" where
  "collect_volumes row entries =
     fold (\<lambda>e m. case row e of None \<Rightarrow> m | Some (k, v) \<Rightarrow> AList.update k v m) entries []"

section \<open>Scales of an instrument\<close>

text \<open>The scan of \<open>filters\<close>: the last \<open>tickSize\<close> and \<open>stepSize\<close> win.\<close>

definition scan_filters :: "'j json_api \<Rightarrow> 'j list \<Rightarrow> string \<times> string" where
  "scan_filters J filters =
     fold (\<lambda>f (tick_str, step_str).
       let ft = unwrap_or (get_string J f ''filterType'') [] in
       if ft = ''PRICE_FILTER'' then
         ((case get_string J f ''tickSize'' of Some t \<Rightarrow> t | None \<Rightarrow> tick_str), step_str)
       else if ft = ''LOT_SIZE'' then
         (tick_str, (case get_string J f ''stepSize'' of Some t \<Rightarrow> t | None \<Rightarrow> step_str))
       else (tick_str, step_str)) filters ([], [])"

text \<open>
  The tail of the instrument parsers: the scales are the decimals of the tick and step strings,
  both strings must parse at them and be positive; \<open>None\<close> skips the instrument.
\<close>

definition tick_and_step ::
  "(string \<Rightarrow> nat) \<Rightarrow> (string \<Rightarrow> nat \<Rightarrow> exchange_error + i64) \<Rightarrow> string \<Rightarrow> string
   \<Rightarrow> (nat \<times> nat \<times> i64 \<times> i64) option" where
  "tick_and_step count parse tick_str step_str =
     (let price_scale = count tick_str; qty_scale = count step_str in
      case parse tick_str price_scale of
        Inl _ \<Rightarrow> None
      | Inr tick_size \<Rightarrow>
          (case parse step_str qty_scale of
             Inl _ \<Rightarrow> None
           | Inr step_size \<Rightarrow>
               if tick_size \<le> 0 \<or> step_size \<le> 0 then None
               else Some (price_scale, qty_scale, tick_size, step_size)))"

definition usd_quote :: "string option \<Rightarrow> quote option" where
  "usd_quote q = (if q = Some ''USDT'' then Some Usdt else if q = Some ''USDC'' then Some Usdc else None)"

text \<open>
  A usable instrument: positive tick and step that fit their type, scales that fit a byte. The
  aggregator's constructor asserts the first.
\<close>

definition spec_usable :: "symbol_spec \<Rightarrow> bool" where
  "spec_usable sp \<longleftrightarrow> 0 < sp_tick_size sp \<and> 0 < sp_step_size sp \<and> in_i64 (sp_tick_size sp) \<and>
     in_i64 (sp_step_size sp) \<and> sp_price_scale sp \<le> 255 \<and> sp_qty_scale sp \<le> 255"

context scale_pair
begin

lemma tick_and_step_usable:
  assumes "tick_and_step count parse t s = Some (ps, qs, tick, step)"
  shows "0 < tick \<and> 0 < step \<and> in_i64 tick \<and> in_i64 step \<and> ps \<le> 18 \<and> qs \<le> 18
    \<and> ps = count t \<and> qs = count s \<and> parse t ps = Inr tick \<and> parse s qs = Inr step"
proof -
  have p: "parse t ps = Inr tick" "parse s qs = Inr step" "0 < tick" "0 < step" "ps = count t" "qs = count s"
    using assms by (auto simp: tick_and_step_def Let_def split: sum.splits if_splits)
  moreover have "ps \<le> 18" "qs \<le> 18" using p(1,2) by (metis parse_value)+
  ultimately show ?thesis using parse_bounds [OF p(1)] parse_bounds [OF p(2)] by simp
qed

text \<open>A default of 1 where the string does not parse, as several adapters have it.\<close>

lemma parse_or_1_usable:
  "0 < max 1 (case parse t k of Inl _ \<Rightarrow> 1 | Inr v \<Rightarrow> v) \<and> in_i64 (max 1 (case parse t k of Inl _ \<Rightarrow> 1 | Inr v \<Rightarrow> v))"
  using parse_bounds [of t k] by (auto simp: in_i64_def max_def split: sum.splits)

end

lemma map_filter_set: "y \<in> set (List.map_filter f xs) \<Longrightarrow> \<exists>x \<in> set xs. f x = Some y"
  by (auto simp: List.map_filter_def)

section \<open>Contract multipliers\<close>

text \<open>
  \<open>CT_MAP\<close> is a process-wide \<open>HashMap\<close> behind a lock; a poisoned lock cannot occur, because a
  panic aborts the process. The map is passed as an argument.
\<close>

type_synonym ct_map = "(string \<times> (i64 \<times> i64)) list"

locale keyed_store =
  fixes put :: "string \<Rightarrow> 'v \<Rightarrow> (string \<times> 'v) list \<Rightarrow> (string \<times> 'v) list"
    and get :: "(string \<times> 'v) list \<Rightarrow> string \<Rightarrow> 'v"
    and default :: "string \<Rightarrow> 'v"
  assumes get_put: "get (put k v m) j = (if j = k then v else get m j)"
    and get_empty: "get [] k = default k"
begin

lemma get_fold_absent:
  "k \<notin> set (map fst kvs) \<Longrightarrow> get (fold (\<lambda>(k, v). put k v) kvs m) k = get m k"
  by (induction kvs arbitrary: m) (auto simp: get_put)

text \<open>After a series of registrations every key reads its last value.\<close>

lemma get_fold_last:
  assumes "(k, v) \<in> set kvs" and "distinct (map fst kvs)"
  shows "get (fold (\<lambda>(k, v). put k v) kvs m) k = v"
  using assms
proof (induction kvs arbitrary: m)
  case (Cons x kvs)
  then show ?case
    by (cases x) (auto simp: get_fold_absent get_put image_iff)
qed simp

end

end
