(* ===== verification/Binance.thy ===== *)
theory Binance
  imports Adapter_Common
begin

text \<open>
  The Binance adapter (\<open>crates/exchange-binance/src\<close>): the trade parser that the Aster sessions
  share, the two connectors, and the instrument lists of the futures and the spot market. Its
  decimal functions are in \<open>Scale\<close>.
\<close>

section \<open>Trades\<close>

definition binance_data :: "'j json_api \<Rightarrow> 'j \<Rightarrow> 'j" where
  "binance_data J v = unwrap_or (j_get J v ''data'') v"

definition binance_peek_symbol :: "'j json_api \<Rightarrow> 'j \<Rightarrow> string option" where
  "binance_peek_symbol J v =
     (let data = binance_data J v in
      Option.bind (get_string J data ''e'') (\<lambda>e.
        if e \<noteq> ''aggTrade'' then None else get_string J data ''s''))"

definition missing :: "string \<Rightarrow> string \<Rightarrow> exchange_error" where
  "missing what field = Parse (what @ '': missing '' @ [CHR 0x27] @ field @ [CHR 0x27])"

definition binance_parse_value ::
  "'j json_api \<Rightarrow> 'j \<Rightarrow> symbol_spec \<Rightarrow> exchange_error + trade_print option" where
  "binance_parse_value J v spec =
     (let data = binance_data J v in
      if get_string J data ''e'' \<noteq> Some ''aggTrade'' then Inr None
      else
        (case get_string J data ''s'' of
           None \<Rightarrow> Inr None
         | Some s \<Rightarrow>
             if \<not> eq_ignore_ascii_case s (sp_symbol spec) then Inr None
             else
               rbind (ok_or (get_i64 J data ''a'') (missing ''aggTrade'' ''a'')) (\<lambda>trade_id.
               rbind (ok_or (get_i64 J data ''T'') (missing ''aggTrade'' ''T'')) (\<lambda>event_time_ms.
               rbind (ok_or (get_string J data ''p'') (missing ''aggTrade'' ''p'')) (\<lambda>price_str.
               rbind (ok_or (get_string J data ''q'') (missing ''aggTrade'' ''q'')) (\<lambda>qty_str.
               rbind (ok_or (get_bool J data ''m'') (missing ''aggTrade'' ''m'')) (\<lambda>buyer_is_maker.
               rbind (binance_parse_scaled price_str (sp_price_scale spec)) (\<lambda>price.
               rbind (binance_parse_scaled qty_str (sp_qty_scale spec)) (\<lambda>qty.
                 Inr (Some \<lparr>tp_ts_ns = saturating_mul_i64 event_time_ms 1000000,
                            tp_aggressor = (if buyer_is_maker then Ask else Bid),
                            tp_price = price, tp_qty = qty,
                            tp_trade_id = i64_as_u64 trade_id\<rparr>)))))))))) "

definition binance_parse ::
  "'j json_api \<Rightarrow> byte list \<Rightarrow> symbol_spec \<Rightarrow> exchange_error + trade_print option" where
  "binance_parse J raw spec =
     rbind (map_err Parse (j_parse_bytes J raw)) (\<lambda>v. binance_parse_value J v spec)"

section \<open>Connectors\<close>

definition binance_futures_ws :: ws_profile where
  "binance_futures_ws =
     \<lparr>wp_ws_url = ''wss://fstream.binance.com/market/stream'', wp_ping_interval_ms = 180000,
      wp_ping_payload = ServerInitiated, wp_pong_timeout_ms = 600000,
      wp_max_subscriptions_per_socket = 200\<rparr>"

definition binance_spot_ws :: ws_profile where
  "binance_spot_ws =
     \<lparr>wp_ws_url = ''wss://stream.binance.com:9443/stream'', wp_ping_interval_ms = 20000,
      wp_ping_payload = ServerInitiated, wp_pong_timeout_ms = 60000,
      wp_max_subscriptions_per_socket = 200\<rparr>"

definition binance_futures_subscribe_payload :: "'j json_api \<Rightarrow> symbol_spec list \<Rightarrow> string" where
  "binance_futures_subscribe_payload J symbols =
     j_text J (j_obj J
       [(''method'', j_str J ''SUBSCRIBE''),
        (''params'', j_arr J (map (\<lambda>s. j_str J (to_lowercase (sp_symbol s) @ ''@aggTrade'')) symbols)),
        (''id'', j_nat J 1)])"

definition binance_spot_subscribe_payload :: "'j json_api \<Rightarrow> symbol_spec list \<Rightarrow> string" where
  "binance_spot_subscribe_payload J symbols =
     j_text J (j_obj J
       [(''method'', j_str J ''SUBSCRIBE''),
        (''params'', j_arr J (map (\<lambda>s. j_str J (to_lowercase (sp_symbol s) @ ''@aggTrade'')) symbols)),
        (''id'', j_nat J 1)])"

section \<open>Instruments\<close>

text \<open>The fields that follow the market's own filter; both lists read them alike.\<close>

definition binance_symbol_scales :: "'j json_api \<Rightarrow> 'j \<Rightarrow> exchange_error + (string \<times> (nat \<times> nat \<times> i64 \<times> i64) option)" where
  "binance_symbol_scales J s =
     rbind (ok_or (get_string J s ''symbol'') (Parse ''symbol missing'')) (\<lambda>symbol.
     rbind (ok_or (get_array J s ''filters'') (Parse (symbol @ '': filters missing''))) (\<lambda>filters.
       let (tick_str, step_str) = scan_filters J filters in
       if tick_str = [] \<or> step_str = [] then Inr (symbol, None)
       else Inr (symbol, tick_and_step binance_count_decimals_trimmed binance_parse_scaled
                   tick_str step_str)))"

definition binance_futures_symbol :: "'j json_api \<Rightarrow> 'j \<Rightarrow> exchange_error + symbol_spec option" where
  "binance_futures_symbol J s =
     (let contract_type = unwrap_or (get_string J s ''contractType'') [];
          status = unwrap_or (get_string J s ''status'') [];
          is_perp = (contract_type = ''PERPETUAL'' \<or> contract_type = ''TRADIFI_PERPETUAL'')
      in if \<not> is_perp \<or> status \<noteq> ''TRADING'' then Inr None
         else
           (case usd_quote (get_string J s ''quoteAsset'') of
              None \<Rightarrow> Inr None
            | Some q \<Rightarrow>
                rbind (binance_symbol_scales J s) (\<lambda>(symbol, scales).
                  Inr (map_option (\<lambda>(price_scale, qty_scale, tick_size, step_size).
                    \<lparr>sp_exchange = BinanceF, sp_market_type = Perp, sp_quote = q, sp_symbol = symbol,
                     sp_price_scale = price_scale, sp_qty_scale = qty_scale,
                     sp_tick_size = tick_size, sp_step_size = step_size\<rparr>) scales))))"

definition binance_spot_symbol :: "'j json_api \<Rightarrow> 'j \<Rightarrow> exchange_error + symbol_spec option" where
  "binance_spot_symbol J s =
     (if unwrap_or (get_string J s ''status'') [] \<noteq> ''TRADING'' then Inr None
      else
        (case usd_quote (get_string J s ''quoteAsset'') of
           None \<Rightarrow> Inr None
         | Some q \<Rightarrow>
             if get_bool J s ''isSpotTradingAllowed'' = Some False then Inr None
             else
               rbind (binance_symbol_scales J s) (\<lambda>(symbol, scales).
                 Inr (map_option (\<lambda>(price_scale, qty_scale, tick_size, step_size).
                   \<lparr>sp_exchange = Binance, sp_market_type = Spot, sp_quote = q, sp_symbol = symbol,
                    sp_price_scale = price_scale, sp_qty_scale = qty_scale,
                    sp_tick_size = tick_size, sp_step_size = step_size\<rparr>) scales))))"

definition binance_futures_exchange_info :: "'j json_api \<Rightarrow> string \<Rightarrow> exchange_error + symbol_spec list" where
  "binance_futures_exchange_info J json =
     rbind (map_err Parse (j_parse J json)) (\<lambda>v.
     rbind (ok_or (get_array J v ''symbols'') (Parse (''missing '' @ [CHR 0x27] @ ''symbols'' @ [CHR 0x27] @ '' array'')))
       (\<lambda>symbols. try_collect (binance_futures_symbol J) symbols))"

definition binance_spot_exchange_info :: "'j json_api \<Rightarrow> string \<Rightarrow> exchange_error + symbol_spec list" where
  "binance_spot_exchange_info J json =
     rbind (map_err Parse (j_parse J json)) (\<lambda>v.
     rbind (ok_or (get_array J v ''symbols'') (Parse (''missing '' @ [CHR 0x27] @ ''symbols'' @ [CHR 0x27] @ '' array'')))
       (\<lambda>symbols. try_collect (binance_spot_symbol J) symbols))"

definition binance_volume_row :: "'j json_api \<Rightarrow> ('j, 'f) f64_api \<Rightarrow> 'j \<Rightarrow> (string \<times> 'f) option" where
  "binance_volume_row J F entry =
     Option.bind (get_string J entry ''symbol'') (\<lambda>symbol.
     Option.bind (get_string J entry ''quoteVolume'') (\<lambda>qv_str.
     Option.bind (f_parse F qv_str) (\<lambda>qv. Some (symbol, qv))))"

definition binance_futures_24h_quote_volumes ::
  "'j json_api \<Rightarrow> ('j, 'f) f64_api \<Rightarrow> string \<Rightarrow> exchange_error + (string \<times> 'f) list" where
  "binance_futures_24h_quote_volumes J F json =
     rbind (map_err Parse (j_parse_vec J json)) (\<lambda>arr. Inr (collect_volumes (binance_volume_row J F) arr))"

definition binance_spot_24h_quote_volumes ::
  "'j json_api \<Rightarrow> ('j, 'f) f64_api \<Rightarrow> string \<Rightarrow> exchange_error + (string \<times> 'f) list" where
  "binance_spot_24h_quote_volumes J F json =
     rbind (map_err Parse (j_parse_vec J json)) (\<lambda>arr. Inr (collect_volumes (binance_volume_row J F) arr))"

definition binance_futures_fetch_symbols :: "'j json_api \<Rightarrow> http_client \<Rightarrow> string \<Rightarrow> exchange_error + symbol_spec list" where
  "binance_futures_fetch_symbols J http base_url =
     rbind (http_fetch http (base_url @ ''/fapi/v1/exchangeInfo'')) (binance_futures_exchange_info J)"

definition binance_spot_fetch_symbols :: "'j json_api \<Rightarrow> http_client \<Rightarrow> string \<Rightarrow> exchange_error + symbol_spec list" where
  "binance_spot_fetch_symbols J http base_url =
     rbind (http_fetch http (base_url @ ''/api/v3/exchangeInfo'')) (binance_spot_exchange_info J)"

definition binance_futures_fetch_24h_quote_volumes ::
  "'j json_api \<Rightarrow> ('j, 'f) f64_api \<Rightarrow> http_client \<Rightarrow> string \<Rightarrow> exchange_error + (string \<times> 'f) list" where
  "binance_futures_fetch_24h_quote_volumes J F http base_url =
     rbind (http_fetch http (base_url @ ''/fapi/v1/ticker/24hr'')) (binance_futures_24h_quote_volumes J F)"

definition binance_spot_fetch_24h_quote_volumes ::
  "'j json_api \<Rightarrow> ('j, 'f) f64_api \<Rightarrow> http_client \<Rightarrow> string \<Rightarrow> exchange_error + (string \<times> 'f) list" where
  "binance_spot_fetch_24h_quote_volumes J F http base_url =
     rbind (http_fetch http (base_url @ ''/api/v3/ticker/24hr'')) (binance_spot_24h_quote_volumes J F)"

section \<open>Usable instruments and valid trades\<close>

lemma binance_symbol_scales_usable:
  assumes "binance_symbol_scales J s = Inr (symbol, Some (ps, qs, tick, step))"
  shows "0 < tick \<and> 0 < step \<and> in_i64 tick \<and> in_i64 step \<and> ps \<le> 18 \<and> qs \<le> 18"
proof -
  obtain t u where
      "tick_and_step binance_count_decimals_trimmed binance_parse_scaled t u = Some (ps, qs, tick, step)"
    using assms by (auto simp: binance_symbol_scales_def case_prod_beta split: if_splits)
  then show ?thesis using binance.tick_and_step_usable by blast
qed

text \<open>The instrument a list entry yields, for both markets.\<close>

lemma spec_of_scales:
  assumes "rbind (binance_symbol_scales J s) (\<lambda>(symbol, scales).
      Inr (map_option (\<lambda>(price_scale, qty_scale, tick_size, step_size).
        \<lparr>sp_exchange = e, sp_market_type = m, sp_quote = q, sp_symbol = symbol,
         sp_price_scale = price_scale, sp_qty_scale = qty_scale,
         sp_tick_size = tick_size, sp_step_size = step_size\<rparr>) scales)) = Inr (Some sp)"
  shows "spec_usable sp \<and> sp_exchange sp = e \<and> sp_market_type sp = m \<and>
    sp_price_scale sp \<le> 18 \<and> sp_qty_scale sp \<le> 18"
proof -
  obtain symbol ps qs tick step where b: "binance_symbol_scales J s = Inr (symbol, Some (ps, qs, tick, step))"
      "sp = \<lparr>sp_exchange = e, sp_market_type = m, sp_quote = q, sp_symbol = symbol,
         sp_price_scale = ps, sp_qty_scale = qs, sp_tick_size = tick, sp_step_size = step\<rparr>"
    using assms by auto
  then show ?thesis using binance_symbol_scales_usable [OF b(1)] by (simp add: spec_usable_def)
qed

lemma binance_futures_symbol_usable:
  assumes "binance_futures_symbol J s = Inr (Some sp)"
  shows "spec_usable sp \<and> sp_exchange sp = BinanceF \<and> sp_market_type sp = Perp \<and>
    sp_price_scale sp \<le> 18 \<and> sp_qty_scale sp \<le> 18"
  using assms unfolding binance_futures_symbol_def Let_def
  by (cases "usd_quote (get_string J s ''quoteAsset'')") (simp_all add: spec_of_scales split: if_splits del: rbind_Inr)

lemma binance_spot_symbol_usable:
  assumes "binance_spot_symbol J s = Inr (Some sp)"
  shows "spec_usable sp \<and> sp_exchange sp = Binance \<and> sp_market_type sp = Spot \<and>
    sp_price_scale sp \<le> 18 \<and> sp_qty_scale sp \<le> 18"
  using assms unfolding binance_spot_symbol_def Let_def
  by (cases "usd_quote (get_string J s ''quoteAsset'')") (simp_all add: spec_of_scales split: if_splits del: rbind_Inr)

lemma binance_exchange_info_usable:
  "binance_futures_exchange_info J json = Inr specs \<Longrightarrow> sp \<in> set specs \<Longrightarrow>
     spec_usable sp \<and> sp_exchange sp = BinanceF \<and> sp_market_type sp = Perp"
  "binance_spot_exchange_info J json = Inr specs \<Longrightarrow> sp \<in> set specs \<Longrightarrow>
     spec_usable sp \<and> sp_exchange sp = Binance \<and> sp_market_type sp = Spot"
  unfolding binance_futures_exchange_info_def binance_spot_exchange_info_def
  by (auto dest!: try_collect_set dest: binance_futures_symbol_usable binance_spot_symbol_usable)

lemma binance_parse_value_trade:
  assumes "binance_parse_value J v spec = Inr (Some t)"
  shows "in_i64 (tp_ts_ns t) \<and> 0 \<le> tp_price t \<and> in_i64 (tp_price t) \<and> 0 \<le> tp_qty t \<and> in_i64 (tp_qty t)"
  using assms unfolding binance_parse_value_def Let_def
  by (auto split: if_splits option.splits dest!: binance.parse_bounds)

end
