(* ===== verification/Aster.thy ===== *)
theory Aster
  imports Adapter_Common
begin

text \<open>
  The Aster adapter (\<open>crates/exchange-aster/src\<close>): its decimal functions, the batched subscribe
  frames and the instrument lists. Its trades are parsed by \<open>Binance\<close>.
\<close>

section \<open>Decimal strings\<close>

definition aster_count_decimals_trimmed :: "string \<Rightarrow> nat" where
  "aster_count_decimals_trimmed value =
     (case find_char CHR ''.'' value of
        None \<Rightarrow> 0
      | Some dot \<Rightarrow>
          let trimmed = trim_end_matches CHR ''0'' value in
          if ends_with trimmed ''.'' then 0
          else min (length trimmed - dot - 1) 255)"

definition aster_parse_scaled :: "string \<Rightarrow> nat \<Rightarrow> exchange_error + i64" where
  "aster_parse_scaled s0 scale =
     (let s = trim s0 in
      if s = [] then Inl (Parse ''empty number'')
      else if starts_with s ''-'' then Inl (Parse (''negative number not allowed: '' @ s))
      else
        let (int_part, rest) = splitn2 CHR ''.'' s;
            frac_part = (case rest of None \<Rightarrow> [] | Some f \<Rightarrow> f)
        in
        if int_part = [] \<or> \<not> all_digits int_part then Inl (Parse (''invalid integer part: '' @ s))
        else if \<not> all_digits frac_part then Inl (Parse (''invalid fractional part: '' @ s))
        else
          rbind (map_err Parse (parse_i64 int_part)) (\<lambda>int_val.
          rbind (if frac_part = [] \<or> scale = 0 then Inr 0
                 else if length frac_part \<le> scale then
                   map_err Parse (parse_i64
                     (frac_part @ replicate (scale - length frac_part) CHR ''0''))
                 else map_err Parse (parse_i64 (take scale frac_part))) (\<lambda>frac_val.
          rbind (ok_or (checked_pow_i64 10 scale)
                   (Parse (''scale '' @ nat_to_string scale @ '' overflows i64''))) (\<lambda>multiplier.
          ok_or (Option.bind (checked_mul_i64 int_val multiplier)
                   (\<lambda>v. checked_add_i64 v frac_val))
                (Parse (''value '' @ s @ '' overflows i64 at scale '' @ nat_to_string scale))))))"

lemma aster_parse_scaled_copy: "aster_parse_scaled = binance_parse_scaled"
  by (intro ext) (simp only: aster_parse_scaled_def binance_parse_scaled_def)

lemma aster_count_copy: "aster_count_decimals_trimmed = binance_count_decimals_trimmed"
  by (intro ext) (simp only: aster_count_decimals_trimmed_def binance_count_decimals_trimmed_def)

interpretation aster: scale_pair aster_parse_scaled aster_count_decimals_trimmed
  by unfold_locales
    (simp_all add: aster_parse_scaled_copy aster_count_copy binance_parse_scaled_spec binance_count_decimals_spec)


section \<open>Connector\<close>

definition aster_futures_ws :: ws_profile where
  "aster_futures_ws =
     \<lparr>wp_ws_url = ''wss://fstream.asterdex.com/ws'', wp_ping_interval_ms = 180000,
      wp_ping_payload = ServerInitiated, wp_pong_timeout_ms = 600000,
      wp_max_subscriptions_per_socket = 1024\<rparr>"

definition aster_spot_ws :: ws_profile where
  "aster_spot_ws = aster_futures_ws\<lparr>wp_ws_url := ''wss://sstream.asterdex.com/ws''\<rparr>"

definition aster_max_params_per_subscribe :: nat where
  "aster_max_params_per_subscribe = 100"

text \<open>One frame: the parameters of a chunk and its number, from 1.\<close>

definition aster_subscribe_frame :: "'j json_api \<Rightarrow> nat \<Rightarrow> symbol_spec list \<Rightarrow> string" where
  "aster_subscribe_frame J idx chunk =
     j_text J (j_obj J
       [(''method'', j_str J ''SUBSCRIBE''),
        (''params'', j_arr J (map (\<lambda>s. j_str J (to_lowercase (sp_symbol s) @ ''@aggTrade'')) chunk)),
        (''id'', j_nat J (idx + 1))])"

definition aster_subscribe_payloads_batched :: "'j json_api \<Rightarrow> symbol_spec list \<Rightarrow> string list" where
  "aster_subscribe_payloads_batched J symbols =
     (if symbols = [] then []
      else map (\<lambda>(idx, chunk). aster_subscribe_frame J idx chunk)
             (enumerate 0 (chunks aster_max_params_per_subscribe symbols)))"

definition aster_subscribe_payload :: "'j json_api \<Rightarrow> symbol_spec list \<Rightarrow> string" where
  "aster_subscribe_payload J symbols =
     (case aster_subscribe_payloads_batched J symbols of
        [] \<Rightarrow> [CHR ''{'', CHR 0x22] @ ''method'' @ [CHR 0x22, CHR '':'', CHR 0x22] @ ''SUBSCRIBE''
              @ [CHR 0x22, CHR '','', CHR 0x22] @ ''params'' @ [CHR 0x22] @ '':[],'' @ [CHR 0x22]
              @ ''id'' @ [CHR 0x22] @ '':1}''
      | p # _ \<Rightarrow> p)"

section \<open>Instruments\<close>

datatype aster_category = AsterPerp | AsterSpot

definition aster_is_perp :: "aster_category \<Rightarrow> bool" where
  "aster_is_perp c = (c = AsterPerp)"

definition aster_instruments_url :: "string \<Rightarrow> string \<Rightarrow> aster_category \<Rightarrow> string" where
  "aster_instruments_url futures_base_url spot_base_url c =
     (case c of AsterPerp \<Rightarrow> futures_base_url @ ''/fapi/v1/exchangeInfo''
      | AsterSpot \<Rightarrow> spot_base_url @ ''/api/v1/exchangeInfo'')"

definition aster_tickers_url :: "string \<Rightarrow> string \<Rightarrow> aster_category \<Rightarrow> string" where
  "aster_tickers_url futures_base_url spot_base_url c =
     (case c of AsterPerp \<Rightarrow> futures_base_url @ ''/fapi/v1/ticker/24hr''
      | AsterSpot \<Rightarrow> spot_base_url @ ''/api/v1/ticker/24hr'')"

definition aster_symbol :: "'j json_api \<Rightarrow> aster_category \<Rightarrow> 'j \<Rightarrow> symbol_spec option" where
  "aster_symbol J category s =
     (let is_perp = aster_is_perp category;
          (ex, mt) = (if is_perp then (AsterF, Perp) else (exchange.Aster, Spot))
      in if unwrap_or (get_string J s ''status'') [] \<noteq> ''TRADING'' then None
         else if is_perp \<and> (case get_string J s ''contractType'' of None \<Rightarrow> False | Some ct \<Rightarrow> ct \<noteq> ''PERPETUAL'')
           then None
         else if \<not> is_perp \<and> get_bool J s ''isSpotTradingAllowed'' = Some False then None
         else
           Option.bind (usd_quote (get_string J s ''quoteAsset'')) (\<lambda>q.
           Option.bind (get_string J s ''symbol'') (\<lambda>sy.
           Option.bind (get_array J s ''filters'') (\<lambda>filters.
             let symbol = to_uppercase sy; (tick_str, step_str) = scan_filters J filters in
             if tick_str = [] \<or> step_str = [] then None
             else
               map_option (\<lambda>(price_scale, qty_scale, tick_size, step_size).
                 \<lparr>sp_exchange = ex, sp_market_type = mt, sp_quote = q, sp_symbol = symbol,
                  sp_price_scale = price_scale, sp_qty_scale = qty_scale,
                  sp_tick_size = tick_size, sp_step_size = step_size\<rparr>)
                 (tick_and_step aster_count_decimals_trimmed aster_parse_scaled tick_str step_str)))))"

definition aster_exchange_info ::
  "'j json_api \<Rightarrow> string \<Rightarrow> aster_category \<Rightarrow> exchange_error + symbol_spec list" where
  "aster_exchange_info J json category =
     rbind (map_err Parse (j_parse J json)) (\<lambda>v.
     rbind (ok_or (get_array J v ''symbols'') (Parse (''missing '' @ [CHR 0x27] @ ''symbols'' @ [CHR 0x27] @ '' array'')))
       (\<lambda>symbols. Inr (List.map_filter (aster_symbol J category) symbols)))"

definition aster_volume_row :: "'j json_api \<Rightarrow> ('j, 'f) f64_api \<Rightarrow> 'j \<Rightarrow> (string \<times> 'f) option" where
  "aster_volume_row J F entry =
     Option.bind (get_string J entry ''symbol'') (\<lambda>symbol.
     Option.bind (get_string J entry ''quoteVolume'') (\<lambda>qv_str.
     Option.bind (f_parse F qv_str) (\<lambda>qv. Some (to_uppercase symbol, qv))))"

definition aster_24h_quote_volumes ::
  "'j json_api \<Rightarrow> ('j, 'f) f64_api \<Rightarrow> string \<Rightarrow> exchange_error + (string \<times> 'f) list" where
  "aster_24h_quote_volumes J F json =
     rbind (map_err Parse (j_parse_vec J json)) (\<lambda>arr. Inr (collect_volumes (aster_volume_row J F) arr))"

definition aster_fetch_symbols ::
  "'j json_api \<Rightarrow> http_client \<Rightarrow> string \<Rightarrow> string \<Rightarrow> aster_category \<Rightarrow> exchange_error + symbol_spec list" where
  "aster_fetch_symbols J http fb sb c =
     rbind (http_fetch http (aster_instruments_url fb sb c)) (\<lambda>body. aster_exchange_info J body c)"

definition aster_fetch_24h_quote_volumes ::
  "'j json_api \<Rightarrow> ('j, 'f) f64_api \<Rightarrow> http_client \<Rightarrow> string \<Rightarrow> string \<Rightarrow> aster_category
   \<Rightarrow> exchange_error + (string \<times> 'f) list" where
  "aster_fetch_24h_quote_volumes J F http fb sb c =
     rbind (http_fetch http (aster_tickers_url fb sb c)) (aster_24h_quote_volumes J F)"

section \<open>Usable instruments\<close>

lemma aster_symbol_usable:
  assumes "aster_symbol J c s = Some sp"
  shows "spec_usable sp \<and> sp_market_type sp = (if aster_is_perp c then Perp else Spot) \<and>
    sp_exchange sp = (if aster_is_perp c then AsterF else exchange.Aster)"
proof -
  obtain t u ps qs tick step where
    k: "tick_and_step aster_count_decimals_trimmed aster_parse_scaled t u = Some (ps, qs, tick, step)"
    and sp: "sp_price_scale sp = ps" "sp_qty_scale sp = qs" "sp_tick_size sp = tick" "sp_step_size sp = step"
      "sp_market_type sp = (if aster_is_perp c then Perp else Spot)"
      "sp_exchange sp = (if aster_is_perp c then AsterF else exchange.Aster)"
    using assms by (auto simp: aster_symbol_def case_prod_beta Let_def bind_eq_Some_conv split: if_splits)
  show ?thesis using aster.tick_and_step_usable [OF k] sp by (simp add: spec_usable_def)
qed

lemma aster_exchange_info_usable:
  "aster_exchange_info J json c = Inr specs \<Longrightarrow> sp \<in> set specs \<Longrightarrow> spec_usable sp"
  by (auto simp: aster_exchange_info_def dest!: map_filter_set dest: aster_symbol_usable)

end
