(* ===== verification/Bybit.thy ===== *)
theory Bybit
  imports Adapter_Common
begin

text \<open>
  The Bybit adapter (\<open>crates/exchange-bybit/src\<close>): decimal functions, trade messages that carry
  an array of trades, batched subscribe frames, instrument lists and turnovers.
\<close>

section \<open>Decimal strings\<close>

definition bybit_count_decimals_trimmed :: "string \<Rightarrow> nat" where
  "bybit_count_decimals_trimmed value =
     (case find_char CHR ''.'' value of
        None \<Rightarrow> 0
      | Some dot \<Rightarrow>
          let trimmed = trim_end_matches CHR ''0'' value in
          if ends_with trimmed ''.'' then 0
          else min (length trimmed - dot - 1) 255)"

definition bybit_parse_scaled :: "string \<Rightarrow> nat \<Rightarrow> exchange_error + i64" where
  "bybit_parse_scaled s0 scale =
     (let s = trim s0 in
      if s = [] then Inl (Parse ''empty number'')
      else if starts_with s ''-'' then Inl (Parse (''negative number not allowed: '' @ s))
      else
        let (int_part, rest) = splitn2 CHR ''.'' s;
            frac_part = (case rest of None \<Rightarrow> [] | Some f \<Rightarrow> f)
        in
        if int_part = [] \<or> \<not> all_digits int_part then Inl (Parse (''invalid integer part: '' @ s))
        else if \<not> all_digits frac_part then Inl (Parse (''invalid fractional part: '' @ s))
        else
          rbind (map_err Parse (parse_i64 int_part)) (\<lambda>int_val.
          rbind (if frac_part = [] \<or> scale = 0 then Inr 0
                 else if length frac_part \<le> scale then
                   map_err Parse (parse_i64
                     (frac_part @ replicate (scale - length frac_part) CHR ''0''))
                 else map_err Parse (parse_i64 (take scale frac_part))) (\<lambda>frac_val.
          rbind (ok_or (checked_pow_i64 10 scale)
                   (Parse (''scale '' @ nat_to_string scale @ '' overflows i64''))) (\<lambda>multiplier.
          ok_or (Option.bind (checked_mul_i64 int_val multiplier)
                   (\<lambda>v. checked_add_i64 v frac_val))
                (Parse (''value '' @ s @ '' overflows i64 at scale '' @ nat_to_string scale))))))"

lemma bybit_parse_scaled_copy: "bybit_parse_scaled = binance_parse_scaled"
  by (intro ext) (simp only: bybit_parse_scaled_def binance_parse_scaled_def)

lemma bybit_count_copy: "bybit_count_decimals_trimmed = binance_count_decimals_trimmed"
  by (intro ext) (simp only: bybit_count_decimals_trimmed_def binance_count_decimals_trimmed_def)

interpretation bybit: scale_pair bybit_parse_scaled bybit_count_decimals_trimmed
  by unfold_locales
    (simp_all add: bybit_parse_scaled_copy bybit_count_copy binance_parse_scaled_spec binance_count_decimals_spec)


section \<open>Trades\<close>

definition bybit_peek_symbol :: "'j json_api \<Rightarrow> 'j \<Rightarrow> string option" where
  "bybit_peek_symbol J v = Option.bind (get_string J v ''topic'') (strip_prefix ''publicTrade.'')"

definition bybit_parse_trade :: "'j json_api \<Rightarrow> 'j \<Rightarrow> symbol_spec \<Rightarrow> exchange_error + trade_print" where
  "bybit_parse_trade J t spec =
     rbind (ok_or (get_i64 J t ''T'') (Parse ''trade: missing T'')) (\<lambda>ts_ms.
     rbind (ok_or (get_string J t ''S'') (Parse ''trade: missing S'')) (\<lambda>side_str.
     rbind (if side_str = ''Buy'' then Inr Bid else if side_str = ''Sell'' then Inr Ask
            else Inl (Parse (''trade: unknown S='' @ side_str))) (\<lambda>aggressor.
     rbind (ok_or (get_string J t ''p'') (Parse ''trade: missing p'')) (\<lambda>price_str.
     rbind (ok_or (get_string J t ''v'') (Parse ''trade: missing v'')) (\<lambda>qty_str.
     rbind (bybit_parse_scaled price_str (sp_price_scale spec)) (\<lambda>price.
     rbind (bybit_parse_scaled qty_str (sp_qty_scale spec)) (\<lambda>qty.
       Inr \<lparr>tp_ts_ns = saturating_mul_i64 ts_ms 1000000, tp_aggressor = aggressor,
            tp_price = price, tp_qty = qty,
            tp_trade_id = unwrap_or (Option.bind (get_string J t ''i'') (\<lambda>s. res_ok (parse_u64 s))) 0\<rparr>)))))))"

definition bybit_parse_value :: "'j json_api \<Rightarrow> 'j \<Rightarrow> symbol_spec \<Rightarrow> exchange_error + trade_print list" where
  "bybit_parse_value J v spec =
     (case get_array J v ''data'' of
        None \<Rightarrow> Inr []
      | Some data \<Rightarrow> try_map (\<lambda>t. bybit_parse_trade J t spec) data)"

section \<open>Connector\<close>

datatype bybit_category = BybitLinear | BybitSpot

definition bybit_category_str :: "bybit_category \<Rightarrow> string" where
  "bybit_category_str c = (case c of BybitLinear \<Rightarrow> ''linear'' | BybitSpot \<Rightarrow> ''spot'')"

definition bybit_linear_ws :: ws_profile where
  "bybit_linear_ws =
     \<lparr>wp_ws_url = ''wss://stream.bybit.com/v5/public/linear'', wp_ping_interval_ms = 20000,
      wp_ping_payload = PingText ([CHR ''{'', CHR 0x22] @ ''op'' @ [CHR 0x22, CHR '':'', CHR 0x22] @ ''ping'' @ [CHR 0x22, CHR ''}'']),
      wp_pong_timeout_ms = 30000, wp_max_subscriptions_per_socket = 200\<rparr>"

definition bybit_spot_ws :: ws_profile where
  "bybit_spot_ws = bybit_linear_ws\<lparr>wp_ws_url := ''wss://stream.bybit.com/v5/public/spot''\<rparr>"

definition bybit_max_args_per_subscribe :: nat where
  "bybit_max_args_per_subscribe = 10"

definition bybit_subscribe_frame :: "'j json_api \<Rightarrow> nat \<Rightarrow> symbol_spec list \<Rightarrow> string" where
  "bybit_subscribe_frame J idx chunk =
     j_text J (j_obj J
       [(''op'', j_str J ''subscribe''),
        (''args'', j_arr J (map (\<lambda>s. j_str J (''publicTrade.'' @ sp_symbol s)) chunk)),
        (''req_id'', j_str J (''sub-'' @ nat_to_string idx))])"

definition bybit_subscribe_payloads_batched :: "'j json_api \<Rightarrow> symbol_spec list \<Rightarrow> string list" where
  "bybit_subscribe_payloads_batched J symbols =
     (if symbols = [] then []
      else map (\<lambda>(idx, chunk). bybit_subscribe_frame J idx chunk)
             (enumerate 0 (chunks bybit_max_args_per_subscribe symbols)))"

definition bybit_subscribe_payload :: "'j json_api \<Rightarrow> symbol_spec list \<Rightarrow> string" where
  "bybit_subscribe_payload J symbols =
     (case bybit_subscribe_payloads_batched J symbols of
        [] \<Rightarrow> [CHR ''{'', CHR 0x22] @ ''op'' @ [CHR 0x22, CHR '':'', CHR 0x22] @ ''subscribe''
              @ [CHR 0x22, CHR '','', CHR 0x22] @ ''args'' @ [CHR 0x22] @ '':[]}''
      | p # _ \<Rightarrow> p)"

section \<open>Instruments\<close>

definition bybit_instrument :: "'j json_api \<Rightarrow> bybit_category \<Rightarrow> 'j \<Rightarrow> symbol_spec option" where
  "bybit_instrument J category s =
     (if unwrap_or (get_string J s ''status'') [] \<noteq> ''Trading'' then None
      else
        Option.bind (get_string J s ''symbol'') (\<lambda>symbol.
        Option.bind (usd_quote (get_string J s ''quoteCoin'')) (\<lambda>q.
          let tick_str = unwrap_or (Option.bind (j_get J s ''priceFilter'') (\<lambda>p. get_string J p ''tickSize'')) [];
              lot = j_get J s ''lotSizeFilter'';
              step_str = (case category of
                  BybitSpot \<Rightarrow> unwrap_or (Option.bind lot (\<lambda>l. get_string J l ''basePrecision'')) []
                | BybitLinear \<Rightarrow> unwrap_or (Option.bind lot (\<lambda>l. get_string J l ''qtyStep'')) []);
              (ex, mt) = (case category of BybitSpot \<Rightarrow> (exchange.Bybit, Spot) | BybitLinear \<Rightarrow> (BybitF, Perp))
          in if tick_str = [] \<or> step_str = [] then None
             else
               map_option (\<lambda>(price_scale, qty_scale, tick_size, step_size).
                 \<lparr>sp_exchange = ex, sp_market_type = mt, sp_quote = q, sp_symbol = symbol,
                  sp_price_scale = price_scale, sp_qty_scale = qty_scale,
                  sp_tick_size = tick_size, sp_step_size = step_size\<rparr>)
                 (tick_and_step bybit_count_decimals_trimmed bybit_parse_scaled tick_str step_str))))"

definition bybit_result_list :: "'j json_api \<Rightarrow> 'j \<Rightarrow> exchange_error + 'j list" where
  "bybit_result_list J v =
     ok_or (Option.bind (Option.bind (j_get J v ''result'') (\<lambda>r. j_get J r ''list'')) (j_array J))
       (Parse ''missing result.list'')"

definition bybit_instruments_info ::
  "'j json_api \<Rightarrow> string \<Rightarrow> bybit_category \<Rightarrow> exchange_error + symbol_spec list" where
  "bybit_instruments_info J json category =
     rbind (map_err Parse (j_parse J json)) (\<lambda>v.
       if get_i64 J v ''retCode'' \<noteq> Some 0 then
         Inl (Parse (''bybit retCode != 0: '' @ unwrap_or (get_string J v ''retMsg'') ''?''))
       else
         rbind (bybit_result_list J v) (\<lambda>items.
           Inr (List.map_filter (bybit_instrument J category) items)))"

definition bybit_turnover_row :: "'j json_api \<Rightarrow> ('j, 'f) f64_api \<Rightarrow> 'j \<Rightarrow> (string \<times> 'f) option" where
  "bybit_turnover_row J F entry =
     Option.bind (get_string J entry ''symbol'') (\<lambda>symbol.
     Option.bind (get_string J entry ''turnover24h'') (\<lambda>turnover_str.
     Option.bind (f_parse F turnover_str) (\<lambda>turnover. Some (symbol, turnover))))"

definition bybit_24h_turnover ::
  "'j json_api \<Rightarrow> ('j, 'f) f64_api \<Rightarrow> string \<Rightarrow> exchange_error + (string \<times> 'f) list" where
  "bybit_24h_turnover J F json =
     rbind (map_err Parse (j_parse J json)) (\<lambda>v.
       if get_i64 J v ''retCode'' \<noteq> Some 0 then Inl (Parse ''bybit tickers retCode != 0'')
       else rbind (bybit_result_list J v) (\<lambda>items. Inr (collect_volumes (bybit_turnover_row J F) items)))"

definition bybit_fetch_symbols ::
  "'j json_api \<Rightarrow> http_client \<Rightarrow> string \<Rightarrow> bybit_category \<Rightarrow> exchange_error + symbol_spec list" where
  "bybit_fetch_symbols J http base_url c =
     rbind (http_fetch http (base_url @ ''/v5/market/instruments-info?category='' @ bybit_category_str c
              @ ''&limit=1000''))
       (\<lambda>body. bybit_instruments_info J body c)"

definition bybit_fetch_24h_quote_volumes ::
  "'j json_api \<Rightarrow> ('j, 'f) f64_api \<Rightarrow> http_client \<Rightarrow> string \<Rightarrow> bybit_category
   \<Rightarrow> exchange_error + (string \<times> 'f) list" where
  "bybit_fetch_24h_quote_volumes J F http base_url c =
     rbind (http_fetch http (base_url @ ''/v5/market/tickers?category='' @ bybit_category_str c))
       (bybit_24h_turnover J F)"

section \<open>Usable instruments and valid trades\<close>

lemma bybit_instrument_usable:
  assumes "bybit_instrument J c s = Some sp"
  shows "spec_usable sp \<and> sp_market_type sp = (case c of BybitSpot \<Rightarrow> Spot | BybitLinear \<Rightarrow> Perp)"
proof -
  obtain t u ps qs tick step where
    k: "tick_and_step bybit_count_decimals_trimmed bybit_parse_scaled t u = Some (ps, qs, tick, step)"
    and sp: "sp_price_scale sp = ps" "sp_qty_scale sp = qs" "sp_tick_size sp = tick" "sp_step_size sp = step"
      "sp_market_type sp = (case c of BybitSpot \<Rightarrow> Spot | BybitLinear \<Rightarrow> Perp)"
    using assms by (cases c) (auto simp: bybit_instrument_def Let_def bind_eq_Some_conv split: if_splits)
  show ?thesis using bybit.tick_and_step_usable [OF k] sp by (simp add: spec_usable_def)
qed

lemma bybit_parse_trade_ok:
  assumes "bybit_parse_trade J t spec = Inr tp"
  shows "in_i64 (tp_ts_ns tp) \<and> 0 \<le> tp_price tp \<and> in_i64 (tp_price tp) \<and> 0 \<le> tp_qty tp \<and> in_i64 (tp_qty tp)"
  using assms unfolding bybit_parse_trade_def by (auto dest!: bybit.parse_bounds)

end
