(* ===== verification/Bitget.thy ===== *)
theory Bitget
  imports Adapter_Common
begin

text \<open>
  The Bitget adapter (\<open>crates/exchange-bitget/src\<close>): decimal functions, trade messages, batched
  subscribe frames, instrument lists whose scales are given as decimal places, and volumes.
\<close>

section \<open>Decimal strings\<close>

definition bitget_count_decimals_trimmed :: "string \<Rightarrow> nat" where
  "bitget_count_decimals_trimmed value =
     (case find_char CHR ''.'' value of
        None \<Rightarrow> 0
      | Some dot \<Rightarrow>
          let trimmed = trim_end_matches CHR ''0'' value in
          if ends_with trimmed ''.'' then 0
          else min (length trimmed - dot - 1) 255)"

definition bitget_parse_scaled :: "string \<Rightarrow> nat \<Rightarrow> exchange_error + i64" where
  "bitget_parse_scaled s0 scale =
     (let s = trim s0 in
      if s = [] then Inl (Parse ''empty number'')
      else if starts_with s ''-'' then Inl (Parse (''negative number not allowed: '' @ s))
      else
        let (int_part, rest) = splitn2 CHR ''.'' s;
            frac_part = (case rest of None \<Rightarrow> [] | Some f \<Rightarrow> f)
        in
        if int_part = [] \<or> \<not> all_digits int_part then Inl (Parse (''invalid integer part: '' @ s))
        else if \<not> all_digits frac_part then Inl (Parse (''invalid fractional part: '' @ s))
        else
          rbind (map_err Parse (parse_i64 int_part)) (\<lambda>int_val.
          rbind (if frac_part = [] \<or> scale = 0 then Inr 0
                 else if length frac_part \<le> scale then
                   map_err Parse (parse_i64
                     (frac_part @ replicate (scale - length frac_part) CHR ''0''))
                 else map_err Parse (parse_i64 (take scale frac_part))) (\<lambda>frac_val.
          rbind (ok_or (checked_pow_i64 10 scale)
                   (Parse (''scale '' @ nat_to_string scale @ '' overflows i64''))) (\<lambda>multiplier.
          ok_or (Option.bind (checked_mul_i64 int_val multiplier)
                   (\<lambda>v. checked_add_i64 v frac_val))
                (Parse (''value '' @ s @ '' overflows i64 at scale '' @ nat_to_string scale))))))"

lemma bitget_parse_scaled_copy: "bitget_parse_scaled = binance_parse_scaled"
  by (intro ext) (simp only: bitget_parse_scaled_def binance_parse_scaled_def)

lemma bitget_count_copy: "bitget_count_decimals_trimmed = binance_count_decimals_trimmed"
  by (intro ext) (simp only: bitget_count_decimals_trimmed_def binance_count_decimals_trimmed_def)

interpretation bitget: scale_pair bitget_parse_scaled bitget_count_decimals_trimmed
  by unfold_locales
    (simp_all add: bitget_parse_scaled_copy bitget_count_copy binance_parse_scaled_spec binance_count_decimals_spec)


section \<open>Trades\<close>

definition bitget_peek_symbol :: "'j json_api \<Rightarrow> 'j \<Rightarrow> string option" where
  "bitget_peek_symbol J v =
     Option.bind (j_get J v ''arg'') (\<lambda>arg.
       if get_string J arg ''channel'' \<noteq> Some ''trade'' then None
       else map_option to_uppercase (get_string J arg ''instId''))"

text \<open>A millisecond timestamp as a string or as a number, which OKX reads alike.\<close>

definition bitget_ts :: "'j json_api \<Rightarrow> 'j \<Rightarrow> i64 option" where
  "bitget_ts J t =
     Option.bind (j_get J t ''ts'') (\<lambda>x.
       case Option.bind (j_string J x) (\<lambda>s. res_ok (parse_i64 s)) of
         Some n \<Rightarrow> Some n | None \<Rightarrow> j_i64 J x)"

definition bitget_parse_trade :: "'j json_api \<Rightarrow> 'j \<Rightarrow> symbol_spec \<Rightarrow> exchange_error + trade_print" where
  "bitget_parse_trade J t spec =
     rbind (ok_or (bitget_ts J t) (Parse ''trade: missing ts'')) (\<lambda>ts_ms.
     rbind (ok_or (get_string J t ''side'') (Parse ''trade: missing side'')) (\<lambda>side_str.
     rbind (if eq_ignore_ascii_case side_str ''buy'' then Inr Bid
            else if eq_ignore_ascii_case side_str ''sell'' then Inr Ask
            else Inl (Parse (''trade: unknown side='' @ side_str))) (\<lambda>aggressor.
     rbind (ok_or (get_string J t ''price'') (Parse ''trade: missing price'')) (\<lambda>price_str.
     rbind (ok_or (get_string J t ''size'') (Parse ''trade: missing size'')) (\<lambda>size_str.
     rbind (bitget_parse_scaled price_str (sp_price_scale spec)) (\<lambda>price.
     rbind (bitget_parse_scaled size_str (sp_qty_scale spec)) (\<lambda>qty.
       Inr \<lparr>tp_ts_ns = saturating_mul_i64 ts_ms 1000000, tp_aggressor = aggressor,
            tp_price = price, tp_qty = qty,
            tp_trade_id = unwrap_or (Option.bind (get_string J t ''tradeId'') (\<lambda>s. res_ok (parse_u64 s))) 0\<rparr>)))))))"

definition bitget_parse_value :: "'j json_api \<Rightarrow> 'j \<Rightarrow> symbol_spec \<Rightarrow> exchange_error + trade_print list" where
  "bitget_parse_value J v spec =
     (case get_array J v ''data'' of
        None \<Rightarrow> Inr []
      | Some data \<Rightarrow> try_map (\<lambda>t. bitget_parse_trade J t spec) data)"

section \<open>Connector\<close>

definition bitget_ws :: ws_profile where
  "bitget_ws =
     \<lparr>wp_ws_url = ''wss://ws.bitget.com/v2/ws/public'', wp_ping_interval_ms = 15000,
      wp_ping_payload = PingText ''ping'', wp_pong_timeout_ms = 30000,
      wp_max_subscriptions_per_socket = 200\<rparr>"

definition bitget_max_args_per_subscribe :: nat where
  "bitget_max_args_per_subscribe = 50"

definition bitget_inst_type :: "bool \<Rightarrow> string" where
  "bitget_inst_type is_perp = (if is_perp then ''USDT-FUTURES'' else ''SPOT'')"

definition bitget_subscribe_frame :: "'j json_api \<Rightarrow> bool \<Rightarrow> symbol_spec list \<Rightarrow> string" where
  "bitget_subscribe_frame J is_perp chunk =
     j_text J (j_obj J
       [(''op'', j_str J ''subscribe''),
        (''args'', j_arr J (map (\<lambda>s. j_obj J
           [(''instType'', j_str J (bitget_inst_type is_perp)), (''channel'', j_str J ''trade''),
            (''instId'', j_str J (to_uppercase (sp_symbol s)))]) chunk))])"

definition bitget_subscribe_payloads_batched :: "'j json_api \<Rightarrow> bool \<Rightarrow> symbol_spec list \<Rightarrow> string list" where
  "bitget_subscribe_payloads_batched J is_perp symbols =
     (if symbols = [] then []
      else map (bitget_subscribe_frame J is_perp) (chunks bitget_max_args_per_subscribe symbols))"

definition bitget_subscribe_payload :: "'j json_api \<Rightarrow> bool \<Rightarrow> symbol_spec list \<Rightarrow> string" where
  "bitget_subscribe_payload J is_perp symbols =
     (case bitget_subscribe_payloads_batched J is_perp symbols of
        [] \<Rightarrow> [CHR ''{'', CHR 0x22] @ ''op'' @ [CHR 0x22, CHR '':'', CHR 0x22] @ ''subscribe''
              @ [CHR 0x22, CHR '','', CHR 0x22] @ ''args'' @ [CHR 0x22] @ '':[]}''
      | p # _ \<Rightarrow> p)"

section \<open>Instruments\<close>

datatype bitget_category = BitgetPerp | BitgetSpot

definition bitget_is_perp :: "bitget_category \<Rightarrow> bool" where
  "bitget_is_perp c = (c = BitgetPerp)"

definition bitget_instruments_url :: "string \<Rightarrow> bitget_category \<Rightarrow> string" where
  "bitget_instruments_url base_url c =
     (case c of
        BitgetPerp \<Rightarrow> base_url @ ''/api/v2/mix/market/contracts?productType=USDT-FUTURES''
      | BitgetSpot \<Rightarrow> base_url @ ''/api/v2/spot/public/symbols'')"

definition bitget_tickers_url :: "string \<Rightarrow> bitget_category \<Rightarrow> string" where
  "bitget_tickers_url base_url c =
     (case c of
        BitgetPerp \<Rightarrow> base_url @ ''/api/v2/mix/market/tickers?productType=USDT-FUTURES''
      | BitgetSpot \<Rightarrow> base_url @ ''/api/v2/spot/market/tickers'')"

definition bitget_quote_of :: "string option \<Rightarrow> quote option" where
  "bitget_quote_of s =
     (if s = Some ''USDT'' then Some Usdt else if s = Some ''USDC'' then Some Usdc else None)"

definition bitget_u8_field :: "'j json_api \<Rightarrow> 'j \<Rightarrow> string \<Rightarrow> nat option" where
  "bitget_u8_field J s k = Option.bind (get_string J s k) (\<lambda>x. res_ok (parse_u8 x))"

text \<open>The scales, tick and step of a perpetual contract and of a spot pair.\<close>

definition bitget_perp_scales :: "'j json_api \<Rightarrow> 'j \<Rightarrow> (nat \<times> nat \<times> i64 \<times> i64) option" where
  "bitget_perp_scales J s =
     (if get_string J s ''symbolStatus'' \<in> {Some ''off'', Some ''maintain''} then None
      else
        Option.bind (bitget_u8_field J s ''pricePlace'') (\<lambda>price_place.
        Option.bind (bitget_u8_field J s ''volumePlace'') (\<lambda>volume_place.
          let tick_size = max (unwrap_or (Option.bind (get_string J s ''priceEndStep'') (\<lambda>x. res_ok (parse_i64 x))) 1) 1;
              step_size = max (unwrap_or (Option.bind (get_string J s ''minTradeNum'')
                                (\<lambda>x. res_ok (bitget_parse_scaled x volume_place))) 1) 1
          in Some (price_place, volume_place, tick_size, step_size))))"

definition bitget_spot_scales :: "'j json_api \<Rightarrow> 'j \<Rightarrow> (nat \<times> nat \<times> i64 \<times> i64) option" where
  "bitget_spot_scales J s =
     (if get_string J s ''status'' = Some ''offline'' then None
      else
        Option.bind (bitget_u8_field J s ''pricePrecision'') (\<lambda>price_prec.
        Option.bind (bitget_u8_field J s ''quantityPrecision'') (\<lambda>qty_prec.
          Some (price_prec, qty_prec, 1, 1))))"

definition bitget_instrument :: "'j json_api \<Rightarrow> bitget_category \<Rightarrow> 'j \<Rightarrow> symbol_spec option" where
  "bitget_instrument J category s =
     (let is_perp = bitget_is_perp category in
      Option.bind (map_option to_uppercase (get_string J s ''symbol'')) (\<lambda>symbol.
      Option.bind (bitget_quote_of (get_string J s ''quoteCoin'')) (\<lambda>q.
      Option.bind (if is_perp then bitget_perp_scales J s else bitget_spot_scales J s)
        (\<lambda>(price_scale, qty_scale, tick_size, step_size).
          let (ex, mt) = (if is_perp then (BitgetF, Perp) else (exchange.Bitget, Spot)) in
          Some \<lparr>sp_exchange = ex, sp_market_type = mt, sp_quote = q, sp_symbol = symbol,
                sp_price_scale = price_scale, sp_qty_scale = qty_scale,
                sp_tick_size = tick_size, sp_step_size = step_size\<rparr>))))"

definition bitget_instruments ::
  "'j json_api \<Rightarrow> string \<Rightarrow> bitget_category \<Rightarrow> exchange_error + symbol_spec list" where
  "bitget_instruments J json category =
     rbind (map_err Parse (j_parse J json)) (\<lambda>v.
       if unwrap_or (get_string J v ''code'') [] \<noteq> ''00000'' then
         Inl (Parse (''bitget code != 00000: '' @ unwrap_or (get_string J v ''msg'') ''?''))
       else
         rbind (ok_or (get_array J v ''data'') (Parse ''missing data'')) (\<lambda>items.
           Inr (List.map_filter (bitget_instrument J category) items)))"

definition bitget_volume_row :: "'j json_api \<Rightarrow> ('j, 'f) f64_api \<Rightarrow> 'j \<Rightarrow> (string \<times> 'f) option" where
  "bitget_volume_row J F entry =
     map_option (\<lambda>symbol.
       let first = List.map_filter (get_string J entry) [''quoteVolume'', ''quoteVol'', ''usdtVolume'', ''usdtVol''];
           vol = unwrap_or (case first of [] \<Rightarrow> None | s # _ \<Rightarrow> f_parse F s) (f_zero F)
       in (to_uppercase symbol, vol)) (get_string J entry ''symbol'')"

definition bitget_24h_volumes ::
  "'j json_api \<Rightarrow> ('j, 'f) f64_api \<Rightarrow> string \<Rightarrow> exchange_error + (string \<times> 'f) list" where
  "bitget_24h_volumes J F json =
     rbind (map_err Parse (j_parse J json)) (\<lambda>v.
       if get_string J v ''code'' \<noteq> Some ''00000'' then Inl (Parse ''bitget tickers code != 00000'')
       else rbind (ok_or (get_array J v ''data'') (Parse ''missing data'')) (\<lambda>items.
         Inr (collect_volumes (bitget_volume_row J F) items)))"

definition bitget_fetch_symbols ::
  "'j json_api \<Rightarrow> http_client \<Rightarrow> string \<Rightarrow> bitget_category \<Rightarrow> exchange_error + symbol_spec list" where
  "bitget_fetch_symbols J http base_url c =
     rbind (http_fetch http (bitget_instruments_url base_url c)) (\<lambda>body. bitget_instruments J body c)"

definition bitget_fetch_24h_quote_volumes ::
  "'j json_api \<Rightarrow> ('j, 'f) f64_api \<Rightarrow> http_client \<Rightarrow> string \<Rightarrow> bitget_category
   \<Rightarrow> exchange_error + (string \<times> 'f) list" where
  "bitget_fetch_24h_quote_volumes J F http base_url c =
     rbind (http_fetch http (bitget_tickers_url base_url c)) (bitget_24h_volumes J F)"

section \<open>Usable instruments and valid trades\<close>

lemma parse_u8_le: "parse_u8 x = Inr n \<Longrightarrow> n \<le> 255"
  using parse_unsigned_le [of 255 x] by (auto simp: parse_u8_def)

lemma bitget_perp_scales_usable:
  assumes "bitget_perp_scales J s = Some (ps, qs, tick, step)"
  shows "0 < tick \<and> 0 < step \<and> in_i64 tick \<and> in_i64 step \<and> ps \<le> 255 \<and> qs \<le> 255"
proof -
  have p: "in_i64 (max (unwrap_or (Option.bind g (\<lambda>x. res_ok (parse_i64 x))) 1) 1)" for g
    by (cases g; cases "parse_i64 (the g)") (auto simp: in_i64_def max_def dest: parse_i64_range)
  have q: "in_i64 (max (unwrap_or (Option.bind g (\<lambda>x. res_ok (bitget_parse_scaled x k))) 1) 1)" for g k
    by (cases g; cases "bitget_parse_scaled (the g) k")
      (auto simp: in_i64_def max_def dest: bitget.parse_bounds)
  show ?thesis using assms p q
    by (auto simp: bitget_perp_scales_def bitget_u8_field_def bind_eq_Some_conv Let_def dest!: parse_u8_le
        split: if_splits)
qed

lemma bitget_instrument_usable:
  assumes "bitget_instrument J c s = Some sp"
  shows "spec_usable sp \<and> sp_market_type sp = (if bitget_is_perp c then Perp else Spot)"
proof -
  obtain ps qs tick step where
    k: "(if bitget_is_perp c then bitget_perp_scales J s else bitget_spot_scales J s) = Some (ps, qs, tick, step)"
    and sp: "sp_price_scale sp = ps" "sp_qty_scale sp = qs" "sp_tick_size sp = tick" "sp_step_size sp = step"
      "sp_market_type sp = (if bitget_is_perp c then Perp else Spot)"
    using assms by (auto simp: bitget_instrument_def Let_def bind_eq_Some_conv case_prod_beta)
  have "0 < tick \<and> 0 < step \<and> in_i64 tick \<and> in_i64 step \<and> ps \<le> 255 \<and> qs \<le> 255"
    using k bitget_perp_scales_usable [of J s ps qs tick step]
    by (cases "bitget_is_perp c")
      (auto simp: bitget_spot_scales_def bitget_u8_field_def bind_eq_Some_conv in_i64_def
        dest!: parse_u8_le split: if_splits)
  then show ?thesis using sp by (simp add: spec_usable_def)
qed

lemma bitget_parse_trade_ok:
  assumes "bitget_parse_trade J t spec = Inr tp"
  shows "in_i64 (tp_ts_ns tp) \<and> 0 \<le> tp_price tp \<and> in_i64 (tp_price tp) \<and> 0 \<le> tp_qty tp \<and> in_i64 (tp_qty tp)"
  using assms unfolding bitget_parse_trade_def by (auto dest!: bitget.parse_bounds)

end
