(* ===== verification/Contract_Math.thy ===== *)
theory Contract_Math
  imports Adapter_Common
begin

text \<open>
  The exact decimal arithmetic by which the OKX, KuCoin and MEXC adapters convert contracts to
  the base asset (\<open>scale.rs\<close> of each crate): the product of two decimal strings, the reduced
  fraction of a contract size, and the table that keeps it per symbol. \<open>None\<close> is a panic.
\<close>

section \<open>128-bit integers\<close>

definition wrap_i128 :: "int \<Rightarrow> int" where
  "wrap_i128 x = (x + 2 ^ 127) mod 2 ^ 128 - 2 ^ 127"

definition div_i128 :: "int \<Rightarrow> int \<Rightarrow> int option" where
  "div_i128 a b = (if b = 0 \<or> (a = - (2 ^ 127) \<and> b = -1) then None else Some (a sdiv b))"

definition rem_i128 :: "int \<Rightarrow> int \<Rightarrow> int option" where
  "rem_i128 a b = (if b = 0 \<or> (a = - (2 ^ 127) \<and> b = -1) then None else Some (a smod b))"

lemma wrap_i128_id: "0 \<le> x \<Longrightarrow> x < 2 ^ 127 \<Longrightarrow> wrap_i128 x = x"
  by (simp add: wrap_i128_def)

section \<open>The product of two decimal strings\<close>

text \<open>The three crates carry the same function.\<close>

definition okx_multiply_decimal_strs :: "string \<Rightarrow> string \<Rightarrow> string option" where
  "okx_multiply_decimal_strs a b =
     (let dec_a = (case find_char CHR ''.'' a of Some d \<Rightarrow> length a - d - 1 | None \<Rightarrow> 0);
          dec_b = (case find_char CHR ''.'' b of Some d \<Rightarrow> length b - d - 1 | None \<Rightarrow> 0);
          total_dec = dec_a + dec_b;
          int_a = (case parse_i128 (replace_char CHR ''.'' [] a) of Inr v \<Rightarrow> v | Inl _ \<Rightarrow> 1);
          int_b = (case parse_i128 (replace_char CHR ''.'' [] b) of Inr v \<Rightarrow> v | Inl _ \<Rightarrow> 1);
          product = wrap_i128 (int_a * int_b)
      in if total_dec = 0 then Some (int_to_string product)
         else
           let divisor = wrap_i128 (10 ^ total_dec) in
           Option.bind (div_i128 product divisor) (\<lambda>int_part.
           Option.bind (rem_i128 product divisor) (\<lambda>rem.
             let frac_part = wrap_i128 \<bar>rem\<bar> in
             if frac_part = 0 then Some (int_to_string int_part)
             else
               let frac_str = trim_end_matches CHR ''0'' (pad_zeros total_dec (int_to_string frac_part))
               in Some (int_to_string int_part @ ''.'' @ frac_str))))"

definition kucoin_multiply_decimal_strs :: "string \<Rightarrow> string \<Rightarrow> string option" where
  "kucoin_multiply_decimal_strs a b =
     (let dec_a = (case find_char CHR ''.'' a of Some d \<Rightarrow> length a - d - 1 | None \<Rightarrow> 0);
          dec_b = (case find_char CHR ''.'' b of Some d \<Rightarrow> length b - d - 1 | None \<Rightarrow> 0);
          total_dec = dec_a + dec_b;
          int_a = (case parse_i128 (replace_char CHR ''.'' [] a) of Inr v \<Rightarrow> v | Inl _ \<Rightarrow> 1);
          int_b = (case parse_i128 (replace_char CHR ''.'' [] b) of Inr v \<Rightarrow> v | Inl _ \<Rightarrow> 1);
          product = wrap_i128 (int_a * int_b)
      in if total_dec = 0 then Some (int_to_string product)
         else
           let divisor = wrap_i128 (10 ^ total_dec) in
           Option.bind (div_i128 product divisor) (\<lambda>int_part.
           Option.bind (rem_i128 product divisor) (\<lambda>rem.
             let frac_part = wrap_i128 \<bar>rem\<bar> in
             if frac_part = 0 then Some (int_to_string int_part)
             else
               let frac_str = trim_end_matches CHR ''0'' (pad_zeros total_dec (int_to_string frac_part))
               in Some (int_to_string int_part @ ''.'' @ frac_str))))"

definition mexc_multiply_decimal_strs :: "string \<Rightarrow> string \<Rightarrow> string option" where
  "mexc_multiply_decimal_strs a b =
     (let dec_a = (case find_char CHR ''.'' a of Some d \<Rightarrow> length a - d - 1 | None \<Rightarrow> 0);
          dec_b = (case find_char CHR ''.'' b of Some d \<Rightarrow> length b - d - 1 | None \<Rightarrow> 0);
          total_dec = dec_a + dec_b;
          int_a = (case parse_i128 (replace_char CHR ''.'' [] a) of Inr v \<Rightarrow> v | Inl _ \<Rightarrow> 1);
          int_b = (case parse_i128 (replace_char CHR ''.'' [] b) of Inr v \<Rightarrow> v | Inl _ \<Rightarrow> 1);
          product = wrap_i128 (int_a * int_b)
      in if total_dec = 0 then Some (int_to_string product)
         else
           let divisor = wrap_i128 (10 ^ total_dec) in
           Option.bind (div_i128 product divisor) (\<lambda>int_part.
           Option.bind (rem_i128 product divisor) (\<lambda>rem.
             let frac_part = wrap_i128 \<bar>rem\<bar> in
             if frac_part = 0 then Some (int_to_string int_part)
             else
               let frac_str = trim_end_matches CHR ''0'' (pad_zeros total_dec (int_to_string frac_part))
               in Some (int_to_string int_part @ ''.'' @ frac_str))))"

lemma multiply_copies:
  "kucoin_multiply_decimal_strs = okx_multiply_decimal_strs"
  "mexc_multiply_decimal_strs = okx_multiply_decimal_strs"
  by (intro ext, simp add: okx_multiply_decimal_strs_def kucoin_multiply_decimal_strs_def)
    (intro ext, simp add: okx_multiply_decimal_strs_def mexc_multiply_decimal_strs_def)

section \<open>Contract sizes as fractions\<close>

text \<open>The loop of the three \<open>gcd\<close>s, on the absolute values.\<close>

function gcd_loop :: "i64 \<Rightarrow> i64 \<Rightarrow> i64 option" where
  "gcd_loop a b =
     (if b = 0 then Some a
      else case rem_i64 a b of None \<Rightarrow> None | Some r \<Rightarrow> gcd_loop b r)"
  by pat_completeness auto
termination
proof (relation "measure (\<lambda>(a, b). nat \<bar>b\<bar>)")
  fix a b r :: int
  assume "b \<noteq> 0" "rem_i64 a b = Some r"
  then have "\<bar>r\<bar> < \<bar>b\<bar>"
    by (auto simp: rem_i64_def signed_modulo_int_def sgn_if abs_mult split: if_splits)
  then show "((b, r), a, b) \<in> measure (\<lambda>(a, b). nat \<bar>b\<bar>)" by simp
qed simp

declare gcd_loop.simps [simp del]

definition okx_gcd :: "i64 \<Rightarrow> i64 \<Rightarrow> i64 option" where
  "okx_gcd a b = gcd_loop (wrap_i64 \<bar>a\<bar>) (wrap_i64 \<bar>b\<bar>)"

definition kucoin_gcd :: "i64 \<Rightarrow> i64 \<Rightarrow> i64 option" where
  "kucoin_gcd a b = map_option (\<lambda>g. max g 1) (gcd_loop (wrap_i64 \<bar>a\<bar>) (wrap_i64 \<bar>b\<bar>))"

definition mexc_gcd :: "i64 \<Rightarrow> i64 \<Rightarrow> i64 option" where
  "mexc_gcd a b = map_option (\<lambda>g. max g 1) (gcd_loop (wrap_i64 \<bar>a\<bar>) (wrap_i64 \<bar>b\<bar>))"

definition okx_ct_val_fraction :: "string \<Rightarrow> (i64 \<times> i64) option" where
  "okx_ct_val_fraction ct_val =
     (let decimals = (case find_char CHR ''.'' ct_val of Some d \<Rightarrow> length ct_val - d - 1 | None \<Rightarrow> 0);
          denom = wrap_i64 (10 ^ decimals);
          num_str = filter (\<lambda>c. c \<noteq> CHR ''.'') ct_val;
          num = (case parse_i64 num_str of Inr v \<Rightarrow> v | Inl _ \<Rightarrow> 1)
      in Option.bind (okx_gcd num denom) (\<lambda>g.
         Option.bind (div_i64 num g) (\<lambda>n. map_option (Pair n) (div_i64 denom g))))"

definition kucoin_decimal_fraction :: "string \<Rightarrow> (i64 \<times> i64) option" where
  "kucoin_decimal_fraction s =
     (let decimals = (case find_char CHR ''.'' s of Some d \<Rightarrow> length s - d - 1 | None \<Rightarrow> 0);
          denom = wrap_i64 (10 ^ decimals);
          num_str = filter (\<lambda>c. c \<noteq> CHR ''.'') s;
          num = (case parse_i64 num_str of Inr v \<Rightarrow> v | Inl _ \<Rightarrow> 1)
      in Option.bind (kucoin_gcd (max num 1) denom) (\<lambda>g.
         Option.bind (div_i64 num g) (\<lambda>n. map_option (Pair n) (div_i64 denom g))))"

definition mexc_decimal_fraction :: "string \<Rightarrow> (i64 \<times> i64) option" where
  "mexc_decimal_fraction s =
     (let decimals = (case find_char CHR ''.'' s of Some d \<Rightarrow> length s - d - 1 | None \<Rightarrow> 0);
          denom = wrap_i64 (10 ^ decimals);
          num_str = filter (\<lambda>c. c \<noteq> CHR ''.'') s;
          num = (case parse_i64 num_str of Inr v \<Rightarrow> v | Inl _ \<Rightarrow> 1)
      in Option.bind (mexc_gcd (max num 1) denom) (\<lambda>g.
         Option.bind (div_i64 num g) (\<lambda>n. map_option (Pair n) (div_i64 denom g))))"

section \<open>Decimal strings\<close>

definition decimal_str :: "string \<Rightarrow> string \<Rightarrow> string" where
  "decimal_str i f = (if f = [] then i else i @ CHR ''.'' # f)"

lemma decimal_str_facts:
  assumes "i \<noteq> []" "all_digits i" "all_digits f"
  shows "(case find_char CHR ''.'' (decimal_str i f) of
            Some d \<Rightarrow> length (decimal_str i f) - d - 1 | None \<Rightarrow> 0) = length f"
    and "replace_char CHR ''.'' [] (decimal_str i f) = i @ f"
    and "filter (\<lambda>c. c \<noteq> CHR ''.'') (decimal_str i f) = i @ f"
proof -
  have nd: "CHR ''.'' \<notin> set i" "CHR ''.'' \<notin> set f" using digits_no_dot assms by auto
  have keep: "concat (map (\<lambda>d. if d = CHR ''.'' then [] else [d]) s) = s" if "CHR ''.'' \<notin> set s" for s
    using that by (induction s) auto
  have filt: "filter (\<lambda>c. c \<noteq> CHR ''.'') s = s" if "CHR ''.'' \<notin> set s" for s
    using that by (induction s) auto
  show "(case find_char CHR ''.'' (decimal_str i f) of
            Some d \<Rightarrow> length (decimal_str i f) - d - 1 | None \<Rightarrow> 0) = length f"
    using nd find_char_None [of "CHR ''.''" i] find_char_app [of "CHR ''.''" i f]
    by (auto simp: decimal_str_def)
  show "replace_char CHR ''.'' [] (decimal_str i f) = i @ f"
    using keep [OF nd(1)] keep [OF nd(2)] by (simp add: decimal_str_def replace_char_def)
  show "filter (\<lambda>c. c \<noteq> CHR ''.'') (decimal_str i f) = i @ f"
    using filt [OF nd(1)] filt [OF nd(2)] by (simp add: decimal_str_def)
qed

lemma parse_i128_digits:
  "all_digits s \<Longrightarrow> s \<noteq> [] \<Longrightarrow> dec_val 0 s < 2 ^ 127 \<Longrightarrow> parse_i128 s = Inr (dec_val 0 s)"
  using parse_signed_digits [of s] by (simp add: parse_i128_def)

lemma div_rem_nonneg:
  assumes "0 \<le> (a::int)" "0 < b"
  shows "div_i128 a b = Some (a div b)" "rem_i128 a b = Some (a mod b)"
    and "div_i64 a b = Some (a div b)" "rem_i64 a b = Some (a mod b)"
  using assms sdiv_nonneg_pos [OF assms] minus_div_mult_eq_mod [of a b]
  by (auto simp: div_i128_def rem_i128_def div_i64_def rem_i64_def smod_int_alt_def abs_if sgn_if
      split: if_splits)

lemma dec_val_zeros_right: "dec_val a (s @ t @ replicate n CHR ''0'') = dec_val a (s @ t) * 10 ^ n"
  by (simp add: dec_val_append)

lemma rescale: "x * b = p \<Longrightarrow> t = a * b \<Longrightarrow> x * t = p * (a::int)"
  by (simp add: mult.commute mult.left_commute)

text \<open>A decimal of at most 38 digits fits an \<open>i128\<close>, and so does a product of that many digits.\<close>

lemma digits_fit:
  assumes "all_digits s" "all_digits s'" "length s + length s' \<le> 38"
  shows "0 \<le> dec_val 0 s" "dec_val 0 s < 2 ^ 127" "0 \<le> dec_val 0 s * dec_val 0 s'" "dec_val 0 s * dec_val 0 s' < 2 ^ 127"
proof -
  have pow: "(10::int) ^ n < 2 ^ 127" if "n \<le> 38" for n
    using power_increasing [OF that, of "10::int"] by simp
  have A: "0 \<le> dec_val 0 s" "dec_val 0 s < 10 ^ length s" and B: "0 \<le> dec_val 0 s'" "dec_val 0 s' < 10 ^ length s'"
    using dec_val_bounds [of s] dec_val_bounds [of s'] assms by auto
  show "0 \<le> dec_val 0 s" "0 \<le> dec_val 0 s * dec_val 0 s'" using A B by simp_all
  show "dec_val 0 s < 2 ^ 127" using A(2) pow [of "length s"] assms(3) by linarith
  have "dec_val 0 s * dec_val 0 s' < 10 ^ length s * 10 ^ length s'" using A B by (intro mult_strict_mono) auto
  also have "\<dots> = 10 ^ (length s + length s')" by (simp add: power_add)
  also have "\<dots> < 2 ^ 127" by (rule pow [OF assms(3)])
  finally show "dec_val 0 s * dec_val 0 s' < 2 ^ 127" .
qed

lemma int_to_string_digits:
  "0 \<le> x \<Longrightarrow> all_digits (int_to_string x) \<and> int_to_string x \<noteq> [] \<and> dec_val 0 (int_to_string x) = x"
  by (simp add: int_to_string_def nat_to_string_digits dec_val_nat_to_string)

text \<open>The product as the code prints it: its whole part and, unless it is 0, its remainder.\<close>

lemma okx_multiply_prints:
  assumes i: "i \<noteq> []" "all_digits i" "all_digits f" and j: "j \<noteq> []" "all_digits j" "all_digits g"
    and len: "length (i @ f) + length (j @ g) \<le> 38"
  defines "P \<equiv> dec_val 0 (i @ f) * dec_val 0 (j @ g)" and "t \<equiv> length f + length g"
  shows "okx_multiply_decimal_strs (decimal_str i f) (decimal_str j g) =
    (if t = 0 then Some (int_to_string P)
     else if P mod 10 ^ t = 0 then Some (int_to_string (P div 10 ^ t))
     else Some (int_to_string (P div 10 ^ t) @ ''.'' @
       trim_end_matches CHR ''0'' (pad_zeros t (int_to_string (P mod 10 ^ t)))))"
proof -
  have P: "0 \<le> P" "P < 2 ^ 127" and AB: "dec_val 0 (i @ f) < 2 ^ 127" "dec_val 0 (j @ g) < 2 ^ 127"
    using digits_fit [of "i @ f" "j @ g"] digits_fit [of "j @ g" "i @ f"] i j len by (simp_all add: P_def)
  have "(10::int) ^ t < 2 ^ 127"
    using power_increasing [of t 38 "10::int"] len by (simp add: t_def)
  then have d: "wrap_i128 (10 ^ t) = 10 ^ t" by (simp add: wrap_i128_id)
  have "0 \<le> P mod 10 ^ t" "P mod 10 ^ t \<le> P" using P(1) by (simp_all add: zmod_le_nonneg_dividend)
  then have m: "wrap_i128 \<bar>P mod 10 ^ t\<bar> = P mod 10 ^ t" using P(2) by (simp add: wrap_i128_id)
  have pa: "parse_i128 (i @ f) = Inr (dec_val 0 (i @ f))" "parse_i128 (j @ g) = Inr (dec_val 0 (j @ g))"
    using parse_i128_digits [of "i @ f"] parse_i128_digits [of "j @ g"] i j AB by auto
  have dr: "div_i128 P (10 ^ t) = Some (P div 10 ^ t)" "rem_i128 P (10 ^ t) = Some (P mod 10 ^ t)"
    using div_rem_nonneg(1,2) [OF P(1), of "10 ^ t"] by auto
  note facts = decimal_str_facts(1,2) [OF i] decimal_str_facts(1,2) [OF j] wrap_i128_id [OF P] wrap_i128_id [of 0] pa
  show ?thesis
    using facts d m dr unfolding P_def t_def
    by (cases "length f + length g = 0"; cases "dec_val 0 (i @ f) * dec_val 0 (j @ g) mod 10 ^ (length f + length g) = 0")
      (auto simp: okx_multiply_decimal_strs_def Let_def)
qed

text \<open>A remainder as decimals: padded to its length, without its trailing zeros, it keeps its value.\<close>

lemma padded_fraction:
  assumes m: "0 < m" "m < 10 ^ t" and ds: "all_digits ds"
  defines "g \<equiv> trim_end_matches CHR ''0'' (pad_zeros t (int_to_string m))"
  shows "g \<noteq> []" "all_digits g" "dec_val 0 (ds @ g) * 10 ^ t = (dec_val 0 ds * 10 ^ t + m) * 10 ^ length g"
proof -
  let ?s = "pad_zeros t (int_to_string m)"
  have nat_m: "int_to_string m = nat_to_string (nat m)"
    unfolding int_to_string_def by (rule if_not_P) (use m(1) in linarith)
  have "0 < t" using m by (cases t) auto
  then have "length (int_to_string m) \<le> t"
    unfolding nat_m by (intro nat_to_string_length) (use m in auto)
  then have s: "length ?s = t" "all_digits ?s" "dec_val 0 ?s = m"
    using int_to_string_digits [of m] m(1) by (simp_all add: pad_zeros_def)
  obtain n where g: "?s = g @ replicate n CHR ''0''" unfolding g_def using trim_end_matches_decomp by blast
  show "all_digits g" using s(2) g by (metis list_all_append)
  show "g \<noteq> []" using g dec_val_zeros [of n "[]"] s(3) m(1) by auto
  have lt: "t = length g + n" using s(1) g by (metis length_append length_replicate)
  have whole: "dec_val 0 (ds @ ?s) = dec_val 0 ds * 10 ^ t + m"
    using s by (simp add: dec_val_append) (subst dec_val_shift, simp)
  have "dec_val 0 (ds @ ?s) = dec_val 0 (ds @ g) * 10 ^ n"
    by (rule trans [OF arg_cong [OF g, of "\<lambda>z. dec_val 0 (ds @ z)"] dec_val_zeros_right])
  then have "dec_val 0 (ds @ g) * 10 ^ n = dec_val 0 ds * 10 ^ t + m" unfolding whole by (rule sym)
  then show "dec_val 0 (ds @ g) * 10 ^ t = (dec_val 0 ds * 10 ^ t + m) * 10 ^ length g"
    by (rule rescale) (rule trans [OF arg_cong [OF lt, of "\<lambda>k. 10 ^ k"] power_add])
qed

text \<open>The product is exact and carries no trailing zero.\<close>

lemma okx_multiply_exact:
  assumes i: "i \<noteq> []" "all_digits i" "all_digits f" and j: "j \<noteq> []" "all_digits j" "all_digits g"
    and len: "length (i @ f) + length (j @ g) \<le> 38"
  obtains ri rf where
    "okx_multiply_decimal_strs (decimal_str i f) (decimal_str j g) = Some (decimal_str ri rf)"
    "ri \<noteq> []" "all_digits ri" "all_digits rf"
    "dec_val 0 (ri @ rf) * 10 ^ (length f + length g)
     = dec_val 0 (i @ f) * dec_val 0 (j @ g) * 10 ^ length rf"
    "rf \<noteq> [] \<longrightarrow> last rf \<noteq> CHR ''0''"
proof -
  let ?P = "dec_val 0 (i @ f) * dec_val 0 (j @ g)" and ?t = "length f + length g"
  let ?q = "?P div 10 ^ ?t" and ?m = "?P mod 10 ^ ?t"
  have P: "0 \<le> ?P" using digits_fit [of "i @ f" "j @ g"] i j len by simp
  note code = okx_multiply_prints [OF i j len] and q = int_to_string_digits [of ?q]
  have pos: "0 \<le> ?q" "0 \<le> ?m" "?m < 10 ^ ?t" using P by (auto simp: pos_imp_zdiv_nonneg_iff)
  show thesis
  proof (cases "?t = 0 \<or> ?m = 0")
    case True
    then have "?q * 10 ^ ?t = ?P" by auto
    moreover have "okx_multiply_decimal_strs (decimal_str i f) (decimal_str j g) = Some (decimal_str (int_to_string ?q) [])"
      using True code by (auto simp: decimal_str_def)
    ultimately show thesis using q pos(1) by (intro that) auto
  next
    case False
    then have "0 < ?m" using pos(2) by linarith
    note frac = padded_fraction [OF this pos(3) conjunct1 [OF q [OF pos(1)]]]
    let ?g = "trim_end_matches CHR ''0'' (pad_zeros ?t (int_to_string ?m))"
    have "dec_val 0 (int_to_string ?q @ ?g) * 10 ^ ?t = ?P * 10 ^ length ?g"
      using frac(3) q pos(1) by (simp only: div_mult_mod_eq)
    moreover have "okx_multiply_decimal_strs (decimal_str i f) (decimal_str j g) = Some (decimal_str (int_to_string ?q) ?g)"
      using code False frac(1) by (simp add: decimal_str_def)
    moreover have "?g \<noteq> [] \<longrightarrow> last ?g \<noteq> CHR ''0''" using trim_end_matches_last by blast
    ultimately show thesis using q frac(2) pos(1) by (intro that) auto
  qed
qed

section \<open>Fractions\<close>

lemma gcd_loop_gcd: "0 \<le> a \<Longrightarrow> 0 \<le> b \<Longrightarrow> gcd_loop a b = Some (gcd a b)"
proof (induction a b rule: gcd_loop.induct)
  case (1 a b)
  show ?case
  proof (cases "b = 0")
    case True
    then show ?thesis using 1 by (subst gcd_loop.simps) simp
  next
    case False
    then show ?thesis using 1 div_rem_nonneg(4) [of a b]
      by (subst gcd_loop.simps) (simp add: gcd_red_int [of a b] gcd.commute)
  qed
qed

text \<open>A fraction denotes the decimal and has a positive denominator; it is in lowest terms.\<close>

definition denotes :: "(i64 \<times> i64) option \<Rightarrow> string \<Rightarrow> string \<Rightarrow> bool" where
  "denotes r i f \<longleftrightarrow> (\<exists>n d. r = Some (n, d) \<and> 0 < d \<and> 0 \<le> n \<and> d \<le> 10 ^ length f \<and> n \<le> dec_val 0 (i @ f) \<and>
     n * 10 ^ length f = dec_val 0 (i @ f) * d)"

lemma reduced_fraction:
  assumes "0 \<le> v" "v < 2 ^ 63" "0 < (e::int)" "e < 2 ^ 63" "0 < g" "g dvd v" "g dvd e"
  shows "Option.bind (div_i64 v g) (\<lambda>n. map_option (Pair n) (div_i64 e g)) = Some (v div g, e div g)"
    and "0 < e div g" "0 \<le> v div g" "e div g \<le> e" "v div g \<le> v" "v div g * e = v * (e div g)"
proof -
  show "Option.bind (div_i64 v g) (\<lambda>n. map_option (Pair n) (div_i64 e g)) = Some (v div g, e div g)"
    using assms div_rem_nonneg(3) [of v g] div_rem_nonneg(3) [of e g] by simp
  show "0 < e div g" using assms by (simp add: pos_imp_zdiv_pos_iff zdvd_imp_le)
  show "0 \<le> v div g" "e div g \<le> e" "v div g \<le> v"
    using assms by (auto simp: pos_imp_zdiv_nonneg_iff int_div_le)
  show "v div g * e = v * (e div g)"
    using assms(6,7) by (metis div_mult_swap dvd_div_mult)
qed

lemma fraction_inputs:
  assumes i: "i \<noteq> []" "all_digits i" "all_digits f" and b: "length f \<le> 18" "dec_val 0 (i @ f) < 2 ^ 63"
  shows "(case parse_i64 (filter (\<lambda>c. c \<noteq> CHR ''.'') (decimal_str i f)) of Inr v \<Rightarrow> v | Inl _ \<Rightarrow> 1)
      = dec_val 0 (i @ f)"
    and "0 \<le> dec_val 0 (i @ f)" and "wrap_i64 (10 ^ length f) = 10 ^ length f" and "(10::int) ^ length f < 2 ^ 63"
proof -
  show p: "(10::int) ^ length f < 2 ^ 63" by (rule pow10_small [OF b(1)])
  then show "wrap_i64 (10 ^ length f) = 10 ^ length f"
    by (intro wrap_i64_id) (simp add: in_i64_def order_trans [OF _ zero_le_power])
  show "0 \<le> dec_val 0 (i @ f)" using dec_val_bounds [of "i @ f"] i by simp
  show "(case parse_i64 (filter (\<lambda>c. c \<noteq> CHR ''.'') (decimal_str i f)) of Inr v \<Rightarrow> v | Inl _ \<Rightarrow> 1)
      = dec_val 0 (i @ f)"
    using decimal_str_facts(3) [OF i] parse_i64_digits [of "i @ f"] i b by simp
qed

lemma okx_ct_val_fraction_denotes:
  assumes "i \<noteq> []" "all_digits i" "all_digits f" "length f \<le> 18" "dec_val 0 (i @ f) < 2 ^ 63"
  shows "denotes (okx_ct_val_fraction (decimal_str i f)) i f"
proof -
  note in_ = fraction_inputs [OF assms]
  let ?v = "dec_val 0 (i @ f)" and ?e = "(10::int) ^ length f"
  have w: "wrap_i64 ?v = ?v" using in_(2) assms(5) by (simp add: in_i64_def)
  have g: "okx_gcd ?v ?e = Some (gcd ?v ?e)" "0 < gcd ?v ?e"
    using in_(2) gcd_loop_gcd [of ?v ?e] w in_(3) by (simp_all add: okx_gcd_def)
  show ?thesis
    using reduced_fraction [OF in_(2) assms(5) _ in_(4) g(2)] decimal_str_facts(1) [OF assms(1-3)] in_(1,3) g(1)
    by (simp add: okx_ct_val_fraction_def denotes_def Let_def)
qed

lemma kucoin_decimal_fraction_denotes:
  assumes "i \<noteq> []" "all_digits i" "all_digits f" "length f \<le> 18" "dec_val 0 (i @ f) < 2 ^ 63"
  shows "denotes (kucoin_decimal_fraction (decimal_str i f)) i f"
proof -
  note in_ = fraction_inputs [OF assms]
  let ?v = "dec_val 0 (i @ f)" and ?e = "(10::int) ^ length f"
  define w where "w = max ?v 1"
  have pos: "0 < w" "w < 2 ^ 63" using assms(5) by (auto simp: w_def)
  then have "wrap_i64 w = w" by (simp add: in_i64_def)
  moreover have gp: "0 < gcd w ?e" using pos by (simp add: gcd_pos_int)
  moreover have "max (gcd w ?e) 1 = gcd w ?e" by (rule max_absorb1) (use gp in linarith)
  ultimately have g: "kucoin_gcd w ?e = Some (gcd w ?e)" "0 < gcd w ?e"
    using pos gcd_loop_gcd [of w ?e] in_(3) by (simp_all add: kucoin_gcd_def)
  have "gcd w ?e dvd ?v"
    by (cases "?v = 0") (use in_(2) in \<open>auto simp: w_def max_def intro: dvd_trans [OF gcd_dvd1]\<close>)
  then show ?thesis
    using reduced_fraction [OF in_(2) assms(5) _ in_(4) g(2)] decimal_str_facts(1) [OF assms(1-3)] in_(1,3) g(1)
    by (simp add: kucoin_decimal_fraction_def denotes_def Let_def flip: w_def)
qed

lemma mexc_decimal_fraction_copy: "mexc_decimal_fraction = kucoin_decimal_fraction"
  by (intro ext) (simp add: mexc_decimal_fraction_def kucoin_decimal_fraction_def mexc_gcd_def kucoin_gcd_def)

end
