(* ===== verification/Okx.thy ===== *)
theory Okx
  imports Contract_Math
begin

text \<open>
  The OKX adapter (\<open>crates/exchange-okx/src\<close>): decimal functions, instrument identifiers, the
  contract table, trades whose swap sizes are contracts, batched subscribe frames, instrument
  lists and volumes.
\<close>

section \<open>Decimal strings\<close>

definition okx_count_decimals_trimmed :: "string \<Rightarrow> nat" where
  "okx_count_decimals_trimmed value =
     (case find_char CHR ''.'' value of
        None \<Rightarrow> 0
      | Some dot \<Rightarrow>
          let trimmed = trim_end_matches CHR ''0'' value in
          if ends_with trimmed ''.'' then 0
          else min (length trimmed - dot - 1) 255)"

definition okx_parse_scaled :: "string \<Rightarrow> nat \<Rightarrow> exchange_error + i64" where
  "okx_parse_scaled s0 scale =
     (let s = trim s0 in
      if s = [] then Inl (Parse ''empty number'')
      else if starts_with s ''-'' then Inl (Parse (''negative number not allowed: '' @ s))
      else
        let (int_part, rest) = splitn2 CHR ''.'' s;
            frac_part = (case rest of None \<Rightarrow> [] | Some f \<Rightarrow> f)
        in
        if int_part = [] \<or> \<not> all_digits int_part then Inl (Parse (''invalid integer part: '' @ s))
        else if \<not> all_digits frac_part then Inl (Parse (''invalid fractional part: '' @ s))
        else
          rbind (map_err Parse (parse_i64 int_part)) (\<lambda>int_val.
          rbind (if frac_part = [] \<or> scale = 0 then Inr 0
                 else if length frac_part \<le> scale then
                   map_err Parse (parse_i64
                     (frac_part @ replicate (scale - length frac_part) CHR ''0''))
                 else map_err Parse (parse_i64 (take scale frac_part))) (\<lambda>frac_val.
          rbind (ok_or (checked_pow_i64 10 scale)
                   (Parse (''scale '' @ nat_to_string scale @ '' overflows i64''))) (\<lambda>multiplier.
          ok_or (Option.bind (checked_mul_i64 int_val multiplier)
                   (\<lambda>v. checked_add_i64 v frac_val))
                (Parse (''value '' @ s @ '' overflows i64 at scale '' @ nat_to_string scale))))))"

lemma okx_parse_scaled_copy: "okx_parse_scaled = binance_parse_scaled"
  by (intro ext) (simp only: okx_parse_scaled_def binance_parse_scaled_def)

lemma okx_count_copy: "okx_count_decimals_trimmed = binance_count_decimals_trimmed"
  by (intro ext) (simp only: okx_count_decimals_trimmed_def binance_count_decimals_trimmed_def)

interpretation okx: scale_pair okx_parse_scaled okx_count_decimals_trimmed
  by unfold_locales
    (simp_all add: okx_parse_scaled_copy okx_count_copy binance_parse_scaled_spec binance_count_decimals_spec)


section \<open>Identifiers\<close>

text \<open>A string slice past the start of the string panics: \<open>None\<close>.\<close>

definition okx_to_inst_id :: "string \<Rightarrow> bool \<Rightarrow> string option" where
  "okx_to_inst_id symbol is_swap =
     (let upper = to_uppercase symbol in
      map_option (\<lambda>(base, q). if is_swap then base @ ''-'' @ q @ ''-SWAP'' else base @ ''-'' @ q)
        (if ends_with upper ''USDT'' then Some (take (length upper - 4) upper, ''USDT'')
         else if ends_with upper ''USDC'' then Some (take (length upper - 4) upper, ''USDC'')
         else if length upper < 3 then None
         else Some (take (length upper - 3) upper, drop (length upper - 3) upper)))"

definition okx_normalize_inst_id :: "string \<Rightarrow> string" where
  "okx_normalize_inst_id inst_id =
     to_uppercase (replace_char CHR ''-'' [] (str_replace ''-SWAP'' [] inst_id))"

section \<open>Contract multipliers\<close>

definition okx_set_ct :: "string \<Rightarrow> i64 \<times> i64 \<Rightarrow> ct_map \<Rightarrow> ct_map" where
  "okx_set_ct symbol nd m = AList.update symbol nd m"

definition okx_get_ct :: "ct_map \<Rightarrow> string \<Rightarrow> i64 \<times> i64" where
  "okx_get_ct m symbol = unwrap_or (map_of m symbol) (1, 1)"

interpretation okx_ct: keyed_store okx_set_ct okx_get_ct "\<lambda>_. (1, 1)"
  by unfold_locales (simp_all add: okx_set_ct_def okx_get_ct_def update_conv')


section \<open>Trades\<close>

definition okx_peek_symbol :: "'j json_api \<Rightarrow> 'j \<Rightarrow> string option" where
  "okx_peek_symbol J v =
     Option.bind (Option.bind (j_get J v ''arg'') (\<lambda>a. get_string J a ''instId'')) (\<lambda>inst.
       if Option.bind (j_get J v ''arg'') (\<lambda>a. get_string J a ''channel'') \<noteq> Some ''trades'' then None
       else Some (okx_normalize_inst_id inst))"

definition okx_ts :: "'j json_api \<Rightarrow> 'j \<Rightarrow> i64 option" where
  "okx_ts J t =
     Option.bind (j_get J t ''ts'') (\<lambda>x.
       case Option.bind (j_string J x) (\<lambda>s. res_ok (parse_i64 s)) of
         Some n \<Rightarrow> Some n | None \<Rightarrow> j_i64 J x)"

text \<open>
  The quantity in the base asset, \<open>parse_scaled(..)? * ct_n / ct_d\<close>: the product wraps, a zero
  denominator panics. The outer option is that panic.
\<close>

definition contracts_to_base :: "i64 \<Rightarrow> i64 \<times> i64 \<Rightarrow> i64 option" where
  "contracts_to_base qty ct = div_i64 (wrap_i64 (qty * fst ct)) (snd ct)"

definition okx_parse_trade ::
  "'j json_api \<Rightarrow> 'j \<Rightarrow> symbol_spec \<Rightarrow> i64 \<times> i64 \<Rightarrow> (exchange_error + trade_print) option" where
  "okx_parse_trade J t spec ct =
     (case
        rbind (ok_or (okx_ts J t) (Parse ''trade: missing ts'')) (\<lambda>ts_ms.
        rbind (ok_or (get_string J t ''side'') (Parse ''trade: missing side'')) (\<lambda>side_str.
        rbind (if side_str = ''buy'' then Inr Bid else if side_str = ''sell'' then Inr Ask
               else Inl (Parse (''trade: unknown side='' @ side_str))) (\<lambda>aggressor.
        rbind (ok_or (get_string J t ''px'') (Parse ''trade: missing px'')) (\<lambda>px.
        rbind (ok_or (get_string J t ''sz'') (Parse ''trade: missing sz'')) (\<lambda>sz.
        rbind (okx_parse_scaled px (sp_price_scale spec)) (\<lambda>price.
        rbind (okx_parse_scaled sz (sp_qty_scale spec)) (\<lambda>contracts.
          Inr (ts_ms, aggressor, price, contracts)))))))) of
        Inl e \<Rightarrow> Some (Inl e)
      | Inr (ts_ms, aggressor, price, contracts) \<Rightarrow>
          map_option (\<lambda>qty.
            Inr \<lparr>tp_ts_ns = saturating_mul_i64 ts_ms 1000000, tp_aggressor = aggressor,
                 tp_price = price, tp_qty = qty,
                 tp_trade_id = unwrap_or (Option.bind (get_string J t ''tradeId'') (\<lambda>s. res_ok (parse_u64 s))) 0\<rparr>)
            (contracts_to_base contracts ct))"

text \<open>A loop over fallible steps that may also panic.\<close>

fun try_map_panic :: "('a \<Rightarrow> ('e + 'b) option) \<Rightarrow> 'a list \<Rightarrow> ('e + 'b list) option" where
  "try_map_panic f [] = Some (Inr [])"
| "try_map_panic f (x # xs) =
     (case f x of
        None \<Rightarrow> None
      | Some (Inl e) \<Rightarrow> Some (Inl e)
      | Some (Inr y) \<Rightarrow> map_option (\<lambda>r. rbind r (\<lambda>ys. Inr (y # ys))) (try_map_panic f xs))"

definition okx_parse_value ::
  "'j json_api \<Rightarrow> ct_map \<Rightarrow> 'j \<Rightarrow> symbol_spec \<Rightarrow> (exchange_error + trade_print list) option" where
  "okx_parse_value J cts v spec =
     (case get_array J v ''data'' of
        None \<Rightarrow> Some (Inr [])
      | Some data \<Rightarrow>
          let ct = (if sp_market_type spec = Perp then okx_get_ct cts (sp_symbol spec) else (1, 1)) in
          try_map_panic (\<lambda>t. okx_parse_trade J t spec ct) data)"

section \<open>Connector\<close>

definition okx_ws :: ws_profile where
  "okx_ws =
     \<lparr>wp_ws_url = ''wss://ws.okx.com:8443/ws/v5/public'', wp_ping_interval_ms = 20000,
      wp_ping_payload = PingText ''ping'', wp_pong_timeout_ms = 30000,
      wp_max_subscriptions_per_socket = 200\<rparr>"

definition okx_max_args_per_subscribe :: nat where
  "okx_max_args_per_subscribe = 100"

definition okx_subscribe_frame :: "'j json_api \<Rightarrow> bool \<Rightarrow> symbol_spec list \<Rightarrow> string option" where
  "okx_subscribe_frame J is_swap chunk =
     map_option (\<lambda>ids.
       j_text J (j_obj J
         [(''op'', j_str J ''subscribe''),
          (''args'', j_arr J (map (\<lambda>i. j_obj J
             [(''channel'', j_str J ''trades''), (''instId'', j_str J i)]) ids))]))
       (those (map (\<lambda>s. okx_to_inst_id (sp_symbol s) is_swap) chunk))"

definition okx_subscribe_payloads_batched :: "'j json_api \<Rightarrow> bool \<Rightarrow> symbol_spec list \<Rightarrow> string list option" where
  "okx_subscribe_payloads_batched J is_swap symbols =
     (if symbols = [] then Some []
      else those (map (okx_subscribe_frame J is_swap) (chunks okx_max_args_per_subscribe symbols)))"

definition okx_subscribe_payload :: "'j json_api \<Rightarrow> bool \<Rightarrow> symbol_spec list \<Rightarrow> string option" where
  "okx_subscribe_payload J is_swap symbols =
     map_option (\<lambda>ps. case ps of
        [] \<Rightarrow> [CHR ''{'', CHR 0x22] @ ''op'' @ [CHR 0x22, CHR '':'', CHR 0x22] @ ''subscribe''
              @ [CHR 0x22, CHR '','', CHR 0x22] @ ''args'' @ [CHR 0x22] @ '':[]}''
      | p # _ \<Rightarrow> p) (okx_subscribe_payloads_batched J is_swap symbols)"

section \<open>Instruments\<close>

datatype okx_category = OkxSwap | OkxSpot

definition okx_inst_type :: "okx_category \<Rightarrow> string" where
  "okx_inst_type c = (case c of OkxSwap \<Rightarrow> ''SWAP'' | OkxSpot \<Rightarrow> ''SPOT'')"

definition okx_is_swap :: "okx_category \<Rightarrow> bool" where
  "okx_is_swap c = (c = OkxSwap)"

definition okx_quote_of :: "string \<Rightarrow> quote option" where
  "okx_quote_of inst_id =
     (case split_on CHR ''-'' inst_id of
        _ # q # _ \<Rightarrow> (if q = ''USDT'' then Some Usdt else if q = ''USDC'' then Some Usdc else None)
      | _ \<Rightarrow> None)"

text \<open>
  One entry of the list: skipped (\<open>Some None\<close>), or a specification and, for a swap, the
  multiplier it registers; the outer \<open>None\<close> is a panic of the decimal arithmetic.
\<close>

definition okx_instrument ::
  "'j json_api \<Rightarrow> okx_category \<Rightarrow> 'j \<Rightarrow> (symbol_spec \<times> (i64 \<times> i64) option) option option" where
  "okx_instrument J category s =
     (let is_swap = okx_is_swap category in
      if get_string J s ''state'' \<noteq> Some ''live'' then Some None
      else
        (case get_string J s ''instId'' of
           None \<Rightarrow> Some None
         | Some inst_id \<Rightarrow>
             if is_swap \<and> get_string J s ''ctType'' = Some ''inverse'' then Some None
             else
               (case okx_quote_of inst_id of
                  None \<Rightarrow> Some None
                | Some q \<Rightarrow>
                    let symbol = okx_normalize_inst_id inst_id;
                        tick_str = unwrap_or (get_string J s ''tickSz'') [];
                        lot_str = unwrap_or (get_string J s ''lotSz'') []
                    in if tick_str = [] \<or> lot_str = [] then Some None
                       else
                         let ct_val_str = unwrap_or (get_string J s ''ctVal'') ''1'' in
                         Option.bind (if is_swap then okx_multiply_decimal_strs lot_str ct_val_str else Some lot_str)
                           (\<lambda>effective_lot.
                             case tick_and_step okx_count_decimals_trimmed okx_parse_scaled tick_str effective_lot of
                               None \<Rightarrow> Some None
                             | Some (price_scale, qty_scale, tick_size, step_size) \<Rightarrow>
                                 let (ex, mt) = (if is_swap then (OkxF, Perp) else (exchange.Okx, Spot));
                                     sp = \<lparr>sp_exchange = ex, sp_market_type = mt, sp_quote = q,
                                       sp_symbol = symbol, sp_price_scale = price_scale,
                                       sp_qty_scale = qty_scale, sp_tick_size = tick_size,
                                       sp_step_size = step_size\<rparr>
                                 in if is_swap
                                    then map_option (\<lambda>ct. Some (sp, Some ct)) (okx_ct_val_fraction ct_val_str)
                                    else Some (Some (sp, None))))))"

text \<open>The loop over the list, with the contract table as state.\<close>

fun okx_instrument_loop ::
  "'j json_api \<Rightarrow> okx_category \<Rightarrow> 'j list \<Rightarrow> ct_map \<Rightarrow> (ct_map \<times> symbol_spec list) option" where
  "okx_instrument_loop J c [] m = Some (m, [])"
| "okx_instrument_loop J c (s # ss) m =
     (case okx_instrument J c s of
        None \<Rightarrow> None
      | Some None \<Rightarrow> okx_instrument_loop J c ss m
      | Some (Some (sp, ct)) \<Rightarrow>
          map_option (\<lambda>(m', sps). (m', sp # sps))
            (okx_instrument_loop J c ss (case ct of None \<Rightarrow> m | Some nd \<Rightarrow> okx_set_ct (sp_symbol sp) nd m)))"

definition okx_instruments ::
  "'j json_api \<Rightarrow> string \<Rightarrow> okx_category \<Rightarrow> ct_map \<Rightarrow> (exchange_error + (ct_map \<times> symbol_spec list)) option" where
  "okx_instruments J json category m =
     (case
        rbind (map_err Parse (j_parse J json)) (\<lambda>v.
          if get_string J v ''code'' \<noteq> Some ''0'' then
            Inl (Parse (''okx code != 0: '' @ unwrap_or (get_string J v ''msg'') ''?''))
          else ok_or (get_array J v ''data'') (Parse ''missing data'')) of
        Inl e \<Rightarrow> Some (Inl e)
      | Inr items \<Rightarrow> map_option Inr (okx_instrument_loop J category items m))"

definition okx_volume_row ::
  "'j json_api \<Rightarrow> ('j, 'f) f64_api \<Rightarrow> okx_category \<Rightarrow> 'j \<Rightarrow> (string \<times> 'f) option" where
  "okx_volume_row J F category entry =
     Option.bind (get_string J entry ''instId'') (\<lambda>inst_id.
       if okx_quote_of inst_id = None then None
       else
         let vol_ccy = unwrap_or (Option.bind (get_string J entry ''volCcy24h'') (f_parse F)) (f_zero F);
             notional = (if okx_is_swap category
               then f_mul F vol_ccy (unwrap_or (Option.bind (get_string J entry ''last'') (f_parse F)) (f_zero F))
               else vol_ccy)
         in Some (okx_normalize_inst_id inst_id, notional))"

definition okx_24h_volumes ::
  "'j json_api \<Rightarrow> ('j, 'f) f64_api \<Rightarrow> string \<Rightarrow> okx_category \<Rightarrow> exchange_error + (string \<times> 'f) list" where
  "okx_24h_volumes J F json category =
     rbind (map_err Parse (j_parse J json)) (\<lambda>v.
       if get_string J v ''code'' \<noteq> Some ''0'' then Inl (Parse ''okx tickers code != 0'')
       else rbind (ok_or (get_array J v ''data'') (Parse ''missing data'')) (\<lambda>items.
         Inr (collect_volumes (okx_volume_row J F category) items)))"

definition okx_fetch_symbols ::
  "'j json_api \<Rightarrow> http_client \<Rightarrow> string \<Rightarrow> okx_category \<Rightarrow> ct_map
   \<Rightarrow> (exchange_error + (ct_map \<times> symbol_spec list)) option" where
  "okx_fetch_symbols J http base_url c m =
     (case http_fetch http (base_url @ ''/api/v5/public/instruments?instType='' @ okx_inst_type c) of
        Inl e \<Rightarrow> Some (Inl e)
      | Inr body \<Rightarrow> okx_instruments J body c m)"

definition okx_fetch_24h_quote_volumes ::
  "'j json_api \<Rightarrow> ('j, 'f) f64_api \<Rightarrow> http_client \<Rightarrow> string \<Rightarrow> okx_category
   \<Rightarrow> exchange_error + (string \<times> 'f) list" where
  "okx_fetch_24h_quote_volumes J F http base_url c =
     rbind (http_fetch http (base_url @ ''/api/v5/market/tickers?instType='' @ okx_inst_type c))
       (\<lambda>body. okx_24h_volumes J F body c)"

end
