(* ===== verification/Kucoin.thy ===== *)
theory Kucoin
  imports Okx
begin

text \<open>
  The KuCoin adapter (\<open>crates/exchange-kucoin/src\<close>): decimal functions, venue symbols, the
  contract table, trades, the connection token, and the instrument lists. The arithmetic on
  contracts is that of \<open>Contract_Math\<close>; \<open>contracts_to_base\<close> and the loop that may panic are
  those of \<open>Okx\<close>.
\<close>

section \<open>Decimal strings\<close>

definition kucoin_count_decimals_trimmed :: "string \<Rightarrow> nat" where
  "kucoin_count_decimals_trimmed value =
     (case find_char CHR ''.'' value of
        None \<Rightarrow> 0
      | Some dot \<Rightarrow>
          let trimmed = trim_end_matches CHR ''0'' value in
          if ends_with trimmed ''.'' then 0
          else min (length trimmed - dot - 1) 255)"

definition kucoin_parse_scaled :: "string \<Rightarrow> nat \<Rightarrow> exchange_error + i64" where
  "kucoin_parse_scaled s0 scale =
     (let s = trim s0 in
      if s = [] then Inl (Parse ''empty number'')
      else if starts_with s ''-'' then Inl (Parse (''negative number not allowed: '' @ s))
      else
        let (int_part, rest) = splitn2 CHR ''.'' s;
            frac_part = (case rest of None \<Rightarrow> [] | Some f \<Rightarrow> f)
        in
        if int_part = [] \<or> \<not> all_digits int_part then Inl (Parse (''invalid integer part: '' @ s))
        else if \<not> all_digits frac_part then Inl (Parse (''invalid fractional part: '' @ s))
        else
          rbind (map_err Parse (parse_i64 int_part)) (\<lambda>int_val.
          rbind (if frac_part = [] \<or> scale = 0 then Inr 0
                 else if length frac_part \<le> scale then
                   map_err Parse (parse_i64
                     (frac_part @ replicate (scale - length frac_part) CHR ''0''))
                 else map_err Parse (parse_i64 (take scale frac_part))) (\<lambda>frac_val.
          rbind (ok_or (checked_pow_i64 10 scale)
                   (Parse (''scale '' @ nat_to_string scale @ '' overflows i64''))) (\<lambda>multiplier.
          ok_or (Option.bind (checked_mul_i64 int_val multiplier)
                   (\<lambda>v. checked_add_i64 v frac_val))
                (Parse (''value '' @ s @ '' overflows i64 at scale '' @ nat_to_string scale))))))"

lemma kucoin_parse_scaled_copy: "kucoin_parse_scaled = binance_parse_scaled"
  by (intro ext) (simp only: kucoin_parse_scaled_def binance_parse_scaled_def)

lemma kucoin_count_copy: "kucoin_count_decimals_trimmed = binance_count_decimals_trimmed"
  by (intro ext) (simp only: kucoin_count_decimals_trimmed_def binance_count_decimals_trimmed_def)

interpretation kucoin: scale_pair kucoin_parse_scaled kucoin_count_decimals_trimmed
  by unfold_locales
    (simp_all add: kucoin_parse_scaled_copy kucoin_count_copy binance_parse_scaled_spec binance_count_decimals_spec)


section \<open>Venue symbols\<close>

definition kucoin_norm_base :: "string \<Rightarrow> string" where
  "kucoin_norm_base base = (if eq_ignore_ascii_case base ''XBT'' then ''BTC'' else to_uppercase base)"

definition to_kucoin_symbol :: "string \<Rightarrow> bool \<Rightarrow> string option" where
  "to_kucoin_symbol symbol futures =
     (let upper = to_uppercase symbol in
      map_option (\<lambda>(base, q).
        if futures then (let base_f = (if base = ''BTC'' then ''XBT'' else base) in base_f @ q @ ''M'')
        else base @ ''-'' @ q)
        (if ends_with upper ''USDT'' then Some (take (length upper - 4) upper, ''USDT'')
         else if ends_with upper ''USDC'' then Some (take (length upper - 4) upper, ''USDC'')
         else if length upper < 3 then None
         else Some (take (length upper - 3) upper, drop (length upper - 3) upper)))"

section \<open>Contract multipliers\<close>

definition kucoin_set_ct :: "string \<Rightarrow> i64 \<times> i64 \<Rightarrow> ct_map \<Rightarrow> ct_map" where
  "kucoin_set_ct symbol nd m = AList.update symbol nd m"

definition kucoin_get_ct :: "ct_map \<Rightarrow> string \<Rightarrow> i64 \<times> i64" where
  "kucoin_get_ct m symbol = unwrap_or (map_of m symbol) (1, 1)"

interpretation kucoin_ct: keyed_store kucoin_set_ct kucoin_get_ct "\<lambda>_. (1, 1)"
  by unfold_locales (simp_all add: kucoin_set_ct_def kucoin_get_ct_def update_conv')

section \<open>Trades\<close>

definition kucoin_peek_symbol :: "'j json_api \<Rightarrow> 'j \<Rightarrow> string option" where
  "kucoin_peek_symbol J v =
     (if get_string J v ''type'' \<noteq> Some ''message'' then None
      else
        Option.bind (get_string J v ''topic'') (\<lambda>topic.
          if \<not> (str_contains topic ''/execution'' \<or> str_contains topic ''/market/match'') then None
          else Some (last (split_on CHR '':'' topic))))"

definition kucoin_num_str :: "'j json_api \<Rightarrow> 'j option \<Rightarrow> string" where
  "kucoin_num_str J v =
     (case v of None \<Rightarrow> []
      | Some x \<Rightarrow> (case j_string J x of Some s \<Rightarrow> s | None \<Rightarrow> unwrap_or (j_number J x) []))"

definition kucoin_num_i64 :: "'j json_api \<Rightarrow> 'j option \<Rightarrow> i64" where
  "kucoin_num_i64 J v =
     (case v of None \<Rightarrow> 0
      | Some x \<Rightarrow>
          (case j_string J x of
             Some s \<Rightarrow> (case parse_i64 s of Inr n \<Rightarrow> n | Inl _ \<Rightarrow> 0)
           | None \<Rightarrow> if j_number J x \<noteq> None then unwrap_or (j_i64 J x) 0 else 0))"

definition kucoin_ts_ns :: "'j json_api \<Rightarrow> 'j \<Rightarrow> i64" where
  "kucoin_ts_ns J data =
     (let t = kucoin_num_i64 J (j_get J data ''ts'') in
      if t \<noteq> 0 then t else kucoin_num_i64 J (j_get J data ''time''))"

definition kucoin_parse_value ::
  "'j json_api \<Rightarrow> ct_map \<Rightarrow> 'j \<Rightarrow> symbol_spec \<Rightarrow> (exchange_error + trade_print list) option" where
  "kucoin_parse_value J cts v spec =
     (case j_get J v ''data'' of
        None \<Rightarrow> Some (Inr [])
      | Some data \<Rightarrow>
          if \<not> j_is_object J data then Some (Inr [])
          else
            let ct = (if sp_market_type spec = Perp then kucoin_get_ct cts (sp_symbol spec) else (1, 1)) in
            (case
               rbind (ok_or (get_string J data ''side'') (Parse ''trade: missing side'')) (\<lambda>side_str.
               rbind (if eq_ignore_ascii_case side_str ''buy'' then Inr Bid
                      else if eq_ignore_ascii_case side_str ''sell'' then Inr Ask
                      else Inl (Parse (''trade: unknown side='' @ side_str))) (\<lambda>aggressor.
                 let px = kucoin_num_str J (j_get J data ''price'');
                     sz = kucoin_num_str J (j_get J data ''size'')
                 in if px = [] \<or> sz = [] then Inl (Parse ''trade: missing price/size'')
                    else
                      rbind (kucoin_parse_scaled px (sp_price_scale spec)) (\<lambda>price.
                      rbind (kucoin_parse_scaled sz (sp_qty_scale spec)) (\<lambda>contracts.
                        Inr (aggressor, price, contracts))))) of
               Inl e \<Rightarrow> Some (Inl e)
             | Inr (aggressor, price, contracts) \<Rightarrow>
                 Option.bind (contracts_to_base contracts ct) (\<lambda>qty.
                   if kucoin_ts_ns J data = 0 then Some (Inl (Parse ''kucoin trade: missing ts/time''))
                   else Some (Inr [\<lparr>tp_ts_ns = kucoin_ts_ns J data, tp_aggressor = aggressor,
                          tp_price = price, tp_qty = qty, tp_trade_id = 0\<rparr>]))))"

section \<open>Connector\<close>

record kucoin_bullet =
  kb_endpoint :: string
  kb_token :: string
  kb_ping_interval_ms :: nat

definition kucoin_base :: "bool \<Rightarrow> string" where
  "kucoin_base futures =
     (if futures then ''https://api-futures.kucoin.com'' else ''https://api.kucoin.com'')"

definition kucoin_exec_topic_prefix :: "bool \<Rightarrow> string" where
  "kucoin_exec_topic_prefix futures =
     (if futures then ''/contractMarket/execution:'' else ''/market/match:'')"

definition kucoin_venue_symbol :: "bool \<Rightarrow> string \<Rightarrow> string option" where
  "kucoin_venue_symbol futures canonical = to_kucoin_symbol canonical futures"

text \<open>\<open>POST /api/v1/bullet-public\<close>; the client of \<open>http_fetch\<close> with another error prefix.\<close>

definition kucoin_fetch_bullet :: "'j json_api \<Rightarrow> http_client \<Rightarrow> bool \<Rightarrow> exchange_error + kucoin_bullet" where
  "kucoin_fetch_bullet J http futures =
     rbind (map_err Network (http (kucoin_base futures @ ''/api/v1/bullet-public''))) (\<lambda>(success, status, text).
     rbind (map_err Network text) (\<lambda>body.
       if \<not> success then Inl (Network (''bullet HTTP '' @ status @ '': '' @ body))
       else
         rbind (map_err Parse (j_parse J body)) (\<lambda>json.
           if get_string J json ''code'' \<noteq> Some ''200000'' then Inl (Parse (''bullet code != 200000: '' @ body))
           else
             rbind (ok_or (j_get J json ''data'') (Parse ''bullet: no data'')) (\<lambda>data.
             rbind (ok_or (get_string J data ''token'') (Parse ''bullet: no token'')) (\<lambda>token.
             rbind (ok_or (Option.bind (get_array J data ''instanceServers'')
                             (\<lambda>a. case a of [] \<Rightarrow> None | x # _ \<Rightarrow> Some x))
                      (Parse ''bullet: no instanceServers'')) (\<lambda>server.
             rbind (ok_or (get_string J server ''endpoint'') (Parse ''bullet: no endpoint'')) (\<lambda>endpoint.
               Inr \<lparr>kb_endpoint = endpoint, kb_token = token,
                    kb_ping_interval_ms = unwrap_or (get_u64 J server ''pingInterval'') 18000\<rparr>)))))))"

definition kucoin_ws :: "bool \<Rightarrow> ws_profile" where
  "kucoin_ws futures =
     \<lparr>wp_ws_url = kucoin_base futures, wp_ping_interval_ms = 15000,
      wp_ping_payload = PingText ([CHR ''{'', CHR 0x22] @ ''type'' @ [CHR 0x22, CHR '':'', CHR 0x22] @ ''ping'' @ [CHR 0x22, CHR ''}'']),
      wp_pong_timeout_ms = 40000, wp_max_subscriptions_per_socket = 300\<rparr>"

section \<open>Instruments\<close>

datatype kucoin_category = KucoinPerp | KucoinSpot

definition kucoin_is_perp :: "kucoin_category \<Rightarrow> bool" where
  "kucoin_is_perp c = (c = KucoinPerp)"

definition kucoin_url :: "kucoin_category \<Rightarrow> string" where
  "kucoin_url c =
     (case c of
        KucoinPerp \<Rightarrow> ''https://api-futures.kucoin.com'' @ ''/api/v1/contracts/active''
      | KucoinSpot \<Rightarrow> ''https://api.kucoin.com'' @ ''/api/v2/symbols'')"

definition kucoin_quote_of :: "string option \<Rightarrow> quote option" where
  "kucoin_quote_of s =
     (if s = Some ''USDT'' then Some Usdt else if s = Some ''USDC'' then Some Usdc else None)"

definition kucoin_num_or_str :: "'j json_api \<Rightarrow> 'j \<Rightarrow> string \<Rightarrow> string option" where
  "kucoin_num_or_str J v key =
     Option.bind (j_get J v key) (\<lambda>f. case j_string J f of Some s \<Rightarrow> Some s | None \<Rightarrow> j_number J f)"

text \<open>\<open>parse_scaled(..).unwrap_or(1).max(1)\<close>.\<close>

definition kucoin_parse_or_1 :: "string \<Rightarrow> nat \<Rightarrow> i64" where
  "kucoin_parse_or_1 s k = max 1 (case kucoin_parse_scaled s k of Inl _ \<Rightarrow> 1 | Inr v \<Rightarrow> v)"

definition kucoin_perp_instrument ::
  "'j json_api \<Rightarrow> 'j \<Rightarrow> (symbol_spec \<times> (i64 \<times> i64) option) option option" where
  "kucoin_perp_instrument J s =
     (if (case get_string J s ''status'' of None \<Rightarrow> False | Some st \<Rightarrow> st \<noteq> ''Open'') then Some None
      else
        (case kucoin_quote_of (get_string J s ''quoteCurrency'') of
           None \<Rightarrow> Some None
         | Some q \<Rightarrow>
             let base = unwrap_or (get_string J s ''baseCurrency'') [] in
             if base = [] then Some None
             else
               let quote_str = unwrap_or (get_string J s ''quoteCurrency'') [];
                   canonical = kucoin_norm_base base @ to_uppercase quote_str;
                   tick_str = unwrap_or (kucoin_num_or_str J s ''tickSize'') ''0.1'';
                   lot_str = unwrap_or (kucoin_num_or_str J s ''lotSize'') ''1'';
                   mult_str = unwrap_or (kucoin_num_or_str J s ''multiplier'') ''1'';
                   price_scale = kucoin_count_decimals_trimmed tick_str
               in (case kucoin_parse_scaled tick_str price_scale of
                     Inl _ \<Rightarrow> Some None
                   | Inr tick_size \<Rightarrow>
                       if tick_size \<le> 0 then Some None
                       else
                         Option.bind (kucoin_multiply_decimal_strs lot_str mult_str) (\<lambda>effective_lot.
                         Option.bind (kucoin_decimal_fraction mult_str) (\<lambda>nd.
                           let qty_scale = kucoin_count_decimals_trimmed effective_lot;
                               step_size = kucoin_parse_or_1 effective_lot qty_scale
                           in Some (Some (\<lparr>sp_exchange = KucoinF, sp_market_type = Perp, sp_quote = q, sp_symbol = canonical,
                 sp_price_scale = price_scale, sp_qty_scale = qty_scale, sp_tick_size = tick_size, sp_step_size = step_size\<rparr>, Some nd)))))))"

definition kucoin_spot_instrument ::
  "'j json_api \<Rightarrow> 'j \<Rightarrow> (symbol_spec \<times> (i64 \<times> i64) option) option option" where
  "kucoin_spot_instrument J s =
     (if get_bool J s ''enableTrading'' = Some False then Some None
      else
        (case kucoin_quote_of (get_string J s ''quoteCurrency'') of
           None \<Rightarrow> Some None
         | Some q \<Rightarrow>
             (case get_string J s ''symbol'' of
                None \<Rightarrow> Some None
              | Some sy \<Rightarrow>
                  let canonical = to_uppercase (replace_char CHR ''-'' [] sy);
                      tick_str = unwrap_or (kucoin_num_or_str J s ''priceIncrement'') ''0.0001'';
                      step_str = unwrap_or (kucoin_num_or_str J s ''baseIncrement'') ''0.0001'';
                      price_scale = kucoin_count_decimals_trimmed tick_str;
                      qty_scale = kucoin_count_decimals_trimmed step_str;
                      tick_size = kucoin_parse_or_1 tick_str price_scale;
                      step_size = kucoin_parse_or_1 step_str qty_scale
                  in Some (Some (\<lparr>sp_exchange = exchange.Kucoin, sp_market_type = Spot, sp_quote = q, sp_symbol = canonical,
                 sp_price_scale = price_scale, sp_qty_scale = qty_scale, sp_tick_size = tick_size, sp_step_size = step_size\<rparr>, None)))))"

fun kucoin_instrument_loop ::
  "'j json_api \<Rightarrow> kucoin_category \<Rightarrow> 'j list \<Rightarrow> ct_map \<Rightarrow> (ct_map \<times> symbol_spec list) option" where
  "kucoin_instrument_loop J c [] m = Some (m, [])"
| "kucoin_instrument_loop J c (s # ss) m =
     (case (if kucoin_is_perp c then kucoin_perp_instrument J s else kucoin_spot_instrument J s) of
        None \<Rightarrow> None
      | Some None \<Rightarrow> kucoin_instrument_loop J c ss m
      | Some (Some (sp, ct)) \<Rightarrow>
          map_option (\<lambda>(m', sps). (m', sp # sps))
            (kucoin_instrument_loop J c ss
               (case ct of None \<Rightarrow> m | Some nd \<Rightarrow> kucoin_set_ct (sp_symbol sp) nd m)))"

definition kucoin_instruments ::
  "'j json_api \<Rightarrow> string \<Rightarrow> kucoin_category \<Rightarrow> ct_map \<Rightarrow> (exchange_error + (ct_map \<times> symbol_spec list)) option" where
  "kucoin_instruments J json category m =
     (case
        rbind (map_err Parse (j_parse J json)) (\<lambda>v.
          if get_string J v ''code'' \<noteq> Some ''200000'' then
            Inl (Parse (''kucoin code != 200000: '' @ unwrap_or (get_string J v ''msg'') ''?''))
          else ok_or (get_array J v ''data'') (Parse ''missing data'')) of
        Inl e \<Rightarrow> Some (Inl e)
      | Inr items \<Rightarrow> map_option Inr (kucoin_instrument_loop J category items m))"

definition kucoin_fetch_symbols ::
  "'j json_api \<Rightarrow> http_client \<Rightarrow> kucoin_category \<Rightarrow> ct_map \<Rightarrow> (exchange_error + (ct_map \<times> symbol_spec list)) option" where
  "kucoin_fetch_symbols J http c m =
     (case http_fetch http (kucoin_url c) of
        Inl e \<Rightarrow> Some (Inl e) | Inr body \<Rightarrow> kucoin_instruments J body c m)"

definition kucoin_fetch_24h_quote_volumes :: "exchange_error + (string \<times> 'f) list" where
  "kucoin_fetch_24h_quote_volumes = Inr []"

end
