(* ===== verification/Mexc_Pb.thy ===== *)
theory Mexc_Pb
  imports Exchange_Core
begin

text \<open>
  The protobuf decoder of the MEXC spot stream (\<open>crates/exchange-mexc/src/pb.rs\<close>): a cursor over
  a buffer, variable-length integers at 64 bits, tags, length-delimited fields, and the two
  messages. Every read is an option; the loops end because each step consumes a byte.
\<close>

unbundle bit_operations_syntax

section \<open>Text\<close>

text \<open>\<open>str::from_utf8\<close>: the well-formed byte sequences; a string keeps its bytes as characters.\<close>

definition cont_byte :: "nat \<Rightarrow> bool" where
  "cont_byte b = (0x80 \<le> b \<and> b \<le> 0xBF)"

fun utf8_valid :: "nat list \<Rightarrow> bool" where
  "utf8_valid [] = True"
| "utf8_valid (b # bs) =
     (if b < 0x80 then utf8_valid bs
      else case bs of
        [] \<Rightarrow> False
      | c # cs \<Rightarrow>
          if 0xC2 \<le> b \<and> b \<le> 0xDF then cont_byte c \<and> utf8_valid cs
          else case cs of
            [] \<Rightarrow> False
          | d # ds \<Rightarrow>
              if 0xE0 \<le> b \<and> b \<le> 0xEF then
                cont_byte c \<and> cont_byte d \<and> (b = 0xE0 \<longrightarrow> 0xA0 \<le> c) \<and> (b = 0xED \<longrightarrow> c \<le> 0x9F) \<and> utf8_valid ds
              else case ds of
                [] \<Rightarrow> False
              | e # es \<Rightarrow>
                  0xF0 \<le> b \<and> b \<le> 0xF4 \<and> cont_byte c \<and> cont_byte d \<and> cont_byte e
                  \<and> (b = 0xF0 \<longrightarrow> 0x90 \<le> c) \<and> (b = 0xF4 \<longrightarrow> c \<le> 0x8F) \<and> utf8_valid es)"

definition from_utf8 :: "byte list \<Rightarrow> string option" where
  "from_utf8 bs =
     (if utf8_valid (map unat bs) then Some (map (\<lambda>b. char_of (unat b)) bs) else None)"

section \<open>The cursor\<close>

record pb =
  pb_buf :: "byte list"
  pb_pos :: nat

definition pb_new :: "byte list \<Rightarrow> pb" where
  "pb_new buf = \<lparr>pb_buf = buf, pb_pos = 0\<rparr>"

definition at_end :: "pb \<Rightarrow> bool" where
  "at_end p \<longleftrightarrow> length (pb_buf p) \<le> pb_pos p"

text \<open>The loop of \<open>read_varint\<close>; the shift passes 64 after at most ten bytes.\<close>

function varint_loop :: "pb \<Rightarrow> u64w \<Rightarrow> nat \<Rightarrow> (pb \<times> u64w) option" where
  "varint_loop p result shift =
     (if at_end p then None
      else
        let b = pb_buf p ! pb_pos p;
            p' = p\<lparr>pb_pos := pb_pos p + 1\<rparr>;
            result' = result OR push_bit shift (ucast (b AND 0x7F))
        in if b AND 0x80 = 0 then Some (p', result')
           else if shift + 7 \<ge> 64 then None
           else varint_loop p' result' (shift + 7))"
  by pat_completeness auto
termination by (relation "measure (\<lambda>(p, r, s). 64 - s)") auto

declare varint_loop.simps [simp del]

definition read_varint :: "pb \<Rightarrow> (pb \<times> u64w) option" where
  "read_varint p = varint_loop p 0 0"

definition read_tag :: "pb \<Rightarrow> (pb \<times> nat \<times> nat) option" where
  "read_tag p =
     Option.bind (read_varint p) (\<lambda>(p', key).
       let field = unat (ucast (drop_bit 3 key) :: u32w); wire = unat (key AND 7) in
       if field = 0 then None else Some (p', field, wire))"

text \<open>\<open>pos.checked_add(len)\<close> on a 64-bit \<open>usize\<close>.\<close>

definition checked_add_usize :: "nat \<Rightarrow> nat \<Rightarrow> nat option" where
  "checked_add_usize a b = (if a + b < 2 ^ 64 then Some (a + b) else None)"

definition read_bytes :: "pb \<Rightarrow> (pb \<times> byte list) option" where
  "read_bytes p =
     Option.bind (read_varint p) (\<lambda>(p', len).
     Option.bind (checked_add_usize (pb_pos p') (unat len)) (\<lambda>stop.
       if stop \<le> length (pb_buf p')
       then Some (p'\<lparr>pb_pos := stop\<rparr>, take (unat len) (drop (pb_pos p') (pb_buf p')))
       else None))"

definition read_str :: "pb \<Rightarrow> (pb \<times> string) option" where
  "read_str p = Option.bind (read_bytes p) (\<lambda>(p', bs). map_option (Pair p') (from_utf8 bs))"

definition skip_fixed :: "nat \<Rightarrow> pb \<Rightarrow> pb option" where
  "skip_fixed n p =
     Option.bind (checked_add_usize (pb_pos p) n) (\<lambda>pos.
       if length (pb_buf p) < pos then None else Some (p\<lparr>pb_pos := pos\<rparr>))"

definition pb_skip :: "pb \<Rightarrow> nat \<Rightarrow> pb option" where
  "pb_skip p wire =
     (if wire = 0 then map_option fst (read_varint p)
      else if wire = 1 then skip_fixed 8 p
      else if wire = 2 then map_option fst (read_bytes p)
      else if wire = 5 then skip_fixed 4 p
      else None)"

text \<open>Every read moves the cursor forward and keeps the buffer.\<close>

definition advances :: "pb \<Rightarrow> pb \<Rightarrow> bool" where
  "advances p q \<longleftrightarrow> pb_buf q = pb_buf p \<and> pb_pos p < pb_pos q \<and> pb_pos q \<le> length (pb_buf p)"

lemma varint_loop_advances: "varint_loop p r s = Some (q, v) \<Longrightarrow> advances p q"
proof (induction p r s rule: varint_loop.induct)
  case (1 p r s)
  show ?case
    using 1(2) [unfolded varint_loop.simps [of p r s]] 1(1) [OF _ refl refl refl]
    by (fastforce simp: Let_def at_end_def advances_def split: if_splits)
qed

lemma read_varint_advances: "read_varint p = Some (q, v) \<Longrightarrow> advances p q"
  by (simp add: read_varint_def varint_loop_advances)

lemma read_tag_advances: "read_tag p = Some (q, f, w) \<Longrightarrow> advances p q"
  by (auto simp: read_tag_def Let_def bind_eq_Some_conv split: if_splits dest: read_varint_advances)

lemma read_bytes_advances: "read_bytes p = Some (q, bs) \<Longrightarrow> advances p q"
  by (auto simp: read_bytes_def bind_eq_Some_conv advances_def checked_add_usize_def
      split: if_splits dest!: read_varint_advances)

lemma read_str_advances: "read_str p = Some (q, s) \<Longrightarrow> advances p q"
  by (auto simp: read_str_def bind_eq_Some_conv dest: read_bytes_advances)

lemma pb_skip_advances: "pb_skip p w = Some q \<Longrightarrow> pb_buf q = pb_buf p \<and> pb_pos p \<le> pb_pos q"
  by (auto simp: pb_skip_def skip_fixed_def bind_eq_Some_conv checked_add_usize_def advances_def
      split: if_splits dest!: read_varint_advances read_bytes_advances)

section \<open>Messages\<close>

record wrapper =
  wr_channel :: string
  wr_body :: "byte list"

text \<open>One turn of the loop of \<open>decode_wrapper\<close>: the field it reads or skips.\<close>

definition wrapper_field :: "pb \<Rightarrow> wrapper \<Rightarrow> (pb \<times> wrapper) option" where
  "wrapper_field p w =
     Option.bind (read_tag p) (\<lambda>(p1, field, wire).
       if field = 1 \<and> wire = 2 then
         map_option (\<lambda>(q, s). (q, w\<lparr>wr_channel := s\<rparr>)) (read_str p1)
       else if 301 \<le> field \<and> field \<le> 399 \<and> wire = 2 then
         map_option (\<lambda>(q, bs). (q, w\<lparr>wr_body := bs\<rparr>)) (read_bytes p1)
       else map_option (\<lambda>q. (q, w)) (pb_skip p1 wire))"

lemma wrapper_field_advances:
  "wrapper_field p w = Some (q, w') \<Longrightarrow> pb_buf q = pb_buf p \<and> pb_pos p < pb_pos q"
  by (auto simp: wrapper_field_def bind_eq_Some_conv advances_def split: if_splits
      dest!: read_tag_advances read_str_advances read_bytes_advances pb_skip_advances)

function wrapper_loop :: "pb \<Rightarrow> wrapper \<Rightarrow> wrapper option" where
  "wrapper_loop p w =
     (if at_end p then Some w
      else case wrapper_field p w of None \<Rightarrow> None | Some (q, w') \<Rightarrow> wrapper_loop q w')"
  by pat_completeness auto
termination
  by (relation "measure (\<lambda>(p, w). length (pb_buf p) - pb_pos p)")
    (auto simp: at_end_def dest!: wrapper_field_advances)

declare wrapper_loop.simps [simp del]

definition decode_wrapper :: "byte list \<Rightarrow> wrapper option" where
  "decode_wrapper buf =
     Option.bind (wrapper_loop (pb_new buf) \<lparr>wr_channel = [], wr_body = []\<rparr>) (\<lambda>w.
       if wr_channel w = [] then None else Some w)"

record deal =
  dl_price :: string
  dl_quantity :: string
  dl_trade_type :: int
  dl_time :: i64

definition deal_default :: deal where
  "deal_default = \<lparr>dl_price = [], dl_quantity = [], dl_trade_type = 0, dl_time = 0\<rparr>"

text \<open>\<open>as i32\<close> and \<open>as i64\<close> of an unsigned 64-bit value.\<close>

definition deal_field :: "pb \<Rightarrow> deal \<Rightarrow> (pb \<times> deal) option" where
  "deal_field p d =
     Option.bind (read_tag p) (\<lambda>(p1, field, wire).
       if field = 1 \<and> wire = 2 then map_option (\<lambda>(q, s). (q, d\<lparr>dl_price := s\<rparr>)) (read_str p1)
       else if field = 2 \<and> wire = 2 then map_option (\<lambda>(q, s). (q, d\<lparr>dl_quantity := s\<rparr>)) (read_str p1)
       else if field = 3 \<and> wire = 0 then
         map_option (\<lambda>(q, v). (q, d\<lparr>dl_trade_type := sint (ucast v :: u32w)\<rparr>)) (read_varint p1)
       else if field = 4 \<and> wire = 0 then
         map_option (\<lambda>(q, v). (q, d\<lparr>dl_time := sint v\<rparr>)) (read_varint p1)
       else map_option (\<lambda>q. (q, d)) (pb_skip p1 wire))"

lemma deal_field_advances:
  "deal_field p d = Some (q, d') \<Longrightarrow> pb_buf q = pb_buf p \<and> pb_pos p < pb_pos q"
  by (auto simp: deal_field_def bind_eq_Some_conv advances_def split: if_splits
      dest!: read_tag_advances read_str_advances read_varint_advances pb_skip_advances)

function deal_loop :: "pb \<Rightarrow> deal \<Rightarrow> deal option" where
  "deal_loop p d =
     (if at_end p then Some d
      else case deal_field p d of None \<Rightarrow> None | Some (q, d') \<Rightarrow> deal_loop q d')"
  by pat_completeness auto
termination
  by (relation "measure (\<lambda>(p, d). length (pb_buf p) - pb_pos p)")
    (auto simp: at_end_def dest!: deal_field_advances)

declare deal_loop.simps [simp del]

definition decode_deal :: "byte list \<Rightarrow> deal option" where
  "decode_deal body =
     Option.bind (deal_loop (pb_new body) deal_default) (\<lambda>d.
       if dl_price d = [] then None else Some d)"

definition deals_field :: "pb \<Rightarrow> deal list \<Rightarrow> (pb \<times> deal list) option" where
  "deals_field p ds =
     Option.bind (read_tag p) (\<lambda>(p1, field, wire).
       if field = 1 \<and> wire = 2 then
         map_option (\<lambda>(q, bs). (q, (case decode_deal bs of None \<Rightarrow> ds | Some d \<Rightarrow> ds @ [d])))
           (read_bytes p1)
       else map_option (\<lambda>q. (q, ds)) (pb_skip p1 wire))"

lemma deals_field_advances:
  "deals_field p ds = Some (q, ds') \<Longrightarrow> pb_buf q = pb_buf p \<and> pb_pos p < pb_pos q"
  by (auto simp: deals_field_def bind_eq_Some_conv advances_def split: if_splits
      dest!: read_tag_advances read_bytes_advances pb_skip_advances)

function deals_loop :: "pb \<Rightarrow> deal list \<Rightarrow> deal list option" where
  "deals_loop p ds =
     (if at_end p then Some ds
      else case deals_field p ds of None \<Rightarrow> None | Some (q, ds') \<Rightarrow> deals_loop q ds')"
  by pat_completeness auto
termination
  by (relation "measure (\<lambda>(p, ds). length (pb_buf p) - pb_pos p)")
    (auto simp: at_end_def dest!: deals_field_advances)

declare deals_loop.simps [simp del]

definition decode_deals :: "byte list \<Rightarrow> deal list option" where
  "decode_deals body = deals_loop (pb_new body) []"

end
