(* ===== verification/Mexc.thy ===== *)
theory Mexc
  imports Okx Mexc_Pb
begin

text \<open>
  The MEXC adapter (\<open>crates/exchange-mexc/src\<close>) around its protobuf decoder: decimal functions,
  contract symbols and multipliers, the two trade parsers, and the instrument lists.
\<close>

section \<open>Decimal strings\<close>

definition mexc_count_decimals_trimmed :: "string \<Rightarrow> nat" where
  "mexc_count_decimals_trimmed value =
     (case find_char CHR ''.'' value of
        None \<Rightarrow> 0
      | Some dot \<Rightarrow>
          let trimmed = trim_end_matches CHR ''0'' value in
          if ends_with trimmed ''.'' then 0
          else min (length trimmed - dot - 1) 255)"

definition mexc_parse_scaled :: "string \<Rightarrow> nat \<Rightarrow> exchange_error + i64" where
  "mexc_parse_scaled s0 scale =
     (let s = trim s0 in
      if s = [] then Inl (Parse ''empty number'')
      else if starts_with s ''-'' then Inl (Parse (''negative number not allowed: '' @ s))
      else
        let (int_part, rest) = splitn2 CHR ''.'' s;
            frac_part = (case rest of None \<Rightarrow> [] | Some f \<Rightarrow> f)
        in
        if int_part = [] \<or> \<not> all_digits int_part then Inl (Parse (''invalid integer part: '' @ s))
        else if \<not> all_digits frac_part then Inl (Parse (''invalid fractional part: '' @ s))
        else
          rbind (map_err Parse (parse_i64 int_part)) (\<lambda>int_val.
          rbind (if frac_part = [] \<or> scale = 0 then Inr 0
                 else if length frac_part \<le> scale then
                   map_err Parse (parse_i64
                     (frac_part @ replicate (scale - length frac_part) CHR ''0''))
                 else map_err Parse (parse_i64 (take scale frac_part))) (\<lambda>frac_val.
          rbind (ok_or (checked_pow_i64 10 scale)
                   (Parse (''scale '' @ nat_to_string scale @ '' overflows i64''))) (\<lambda>multiplier.
          ok_or (Option.bind (checked_mul_i64 int_val multiplier)
                   (\<lambda>v. checked_add_i64 v frac_val))
                (Parse (''value '' @ s @ '' overflows i64 at scale '' @ nat_to_string scale))))))"

lemma mexc_parse_scaled_copy: "mexc_parse_scaled = binance_parse_scaled"
  by (intro ext) (simp only: mexc_parse_scaled_def binance_parse_scaled_def)

lemma mexc_count_copy: "mexc_count_decimals_trimmed = binance_count_decimals_trimmed"
  by (intro ext) (simp only: mexc_count_decimals_trimmed_def binance_count_decimals_trimmed_def)

interpretation mexc: scale_pair mexc_parse_scaled mexc_count_decimals_trimmed
  by unfold_locales
    (simp_all add: mexc_parse_scaled_copy mexc_count_copy binance_parse_scaled_spec binance_count_decimals_spec)


definition mexc_fmt_decimal :: "('j, 'f) f64_api \<Rightarrow> 'f \<Rightarrow> string \<Rightarrow> string" where
  "mexc_fmt_decimal F v dflt = (if f_finite F v \<and> f_positive F v then f_display F v else dflt)"

definition to_mexc_contract_symbol :: "string \<Rightarrow> string option" where
  "to_mexc_contract_symbol symbol =
     (let upper = to_uppercase symbol in
      if CHR ''_'' \<in> set upper then Some upper
      else if length upper < 4 then None
      else
        let base = take (length upper - 4) upper;
            q = (if ends_with upper ''USDT'' then ''USDT'' else if ends_with upper ''USDC'' then ''USDC'' else ''USDT'')
        in Some (base @ ''_'' @ q))"

section \<open>Contract multipliers\<close>

definition mexc_set_ct :: "string \<Rightarrow> i64 \<times> i64 \<Rightarrow> ct_map \<Rightarrow> ct_map" where
  "mexc_set_ct symbol nd m = AList.update symbol nd m"

definition mexc_get_ct :: "ct_map \<Rightarrow> string \<Rightarrow> i64 \<times> i64" where
  "mexc_get_ct m symbol = unwrap_or (map_of m symbol) (1, 1)"

interpretation mexc_ct: keyed_store mexc_set_ct mexc_get_ct "\<lambda>_. (1, 1)"
  by unfold_locales (simp_all add: mexc_set_ct_def mexc_get_ct_def update_conv')

section \<open>Trades\<close>

definition mexc_aggressor :: "int \<Rightarrow> aggressor_side option" where
  "mexc_aggressor trade_type = (if trade_type = 1 then Some Bid else if trade_type = 2 then Some Ask else None)"

definition mexc_spot_peek_symbol :: "byte list \<Rightarrow> string option" where
  "mexc_spot_peek_symbol raw =
     Option.bind (decode_wrapper raw) (\<lambda>w.
       if \<not> str_contains (wr_channel w) ''deals'' then None
       else Some (to_uppercase (last (split_on CHR 0x40 (wr_channel w)))))"

definition mexc_spot_deal :: "symbol_spec \<Rightarrow> deal \<Rightarrow> exchange_error + trade_print option" where
  "mexc_spot_deal spec d =
     (case mexc_aggressor (dl_trade_type d) of
        None \<Rightarrow> Inr None
      | Some agg \<Rightarrow>
          rbind (mexc_parse_scaled (dl_price d) (sp_price_scale spec)) (\<lambda>price.
          rbind (mexc_parse_scaled (dl_quantity d) (sp_qty_scale spec)) (\<lambda>qty.
            Inr (Some \<lparr>tp_ts_ns = saturating_mul_i64 (dl_time d) 1000000, tp_aggressor = agg,
                       tp_price = price, tp_qty = qty, tp_trade_id = 0\<rparr>))))"

definition mexc_spot_parse_value :: "byte list \<Rightarrow> symbol_spec \<Rightarrow> exchange_error + trade_print list" where
  "mexc_spot_parse_value raw spec =
     (case decode_wrapper raw of
        None \<Rightarrow> Inr []
      | Some w \<Rightarrow>
          if \<not> str_contains (wr_channel w) ''deals'' then Inr []
          else
            rbind (ok_or (decode_deals (wr_body w)) (Parse ''mexc spot: bad deals body'')) (\<lambda>deals.
              try_collect (mexc_spot_deal spec) deals))"

definition mexc_futures_peek_symbol :: "'j json_api \<Rightarrow> 'j \<Rightarrow> string option" where
  "mexc_futures_peek_symbol J v =
     (if get_string J v ''channel'' \<noteq> Some ''push.deal'' then None else get_string J v ''symbol'')"

definition mexc_num_str :: "'j json_api \<Rightarrow> 'j option \<Rightarrow> string" where
  "mexc_num_str J v =
     (case v of None \<Rightarrow> []
      | Some x \<Rightarrow> (case j_string J x of Some s \<Rightarrow> s | None \<Rightarrow> unwrap_or (j_number J x) []))"

text \<open>\<open>as i32\<close> of an \<open>i64\<close>.\<close>

definition i64_as_i32 :: "i64 \<Rightarrow> int" where
  "i64_as_i32 x = (x + 2 ^ 31) mod 2 ^ 32 - 2 ^ 31"

definition mexc_futures_deal ::
  "'j json_api \<Rightarrow> symbol_spec \<Rightarrow> i64 \<times> i64 \<Rightarrow> 'j \<Rightarrow> (exchange_error + trade_print option) option" where
  "mexc_futures_deal J spec ct item =
     (case mexc_aggressor (i64_as_i32 (unwrap_or (get_i64 J item ''T'') 0)) of
        None \<Rightarrow> Some (Inr None)
      | Some agg \<Rightarrow>
          let px = mexc_num_str J (j_get J item ''p''); vol = mexc_num_str J (j_get J item ''v'') in
          if px = [] \<or> vol = [] then Some (Inr None)
          else
            (case rbind (mexc_parse_scaled px (sp_price_scale spec)) (\<lambda>price.
                  rbind (mexc_parse_scaled vol (sp_qty_scale spec)) (\<lambda>contracts. Inr (price, contracts))) of
               Inl e \<Rightarrow> Some (Inl e)
             | Inr (price, contracts) \<Rightarrow>
                 map_option (\<lambda>qty.
                   let ts_ms = unwrap_or (get_i64 J item ''t'') 0 in
                   Inr (Some \<lparr>tp_ts_ns = saturating_mul_i64 ts_ms 1000000, tp_aggressor = agg,
                              tp_price = price, tp_qty = qty, tp_trade_id = 0\<rparr>))
                   (contracts_to_base contracts ct)))"

definition mexc_futures_parse_value ::
  "'j json_api \<Rightarrow> ct_map \<Rightarrow> 'j \<Rightarrow> symbol_spec \<Rightarrow> (exchange_error + trade_print list) option" where
  "mexc_futures_parse_value J cts v spec =
     (case j_get J v ''data'' of
        None \<Rightarrow> Some (Inr [])
      | Some data \<Rightarrow>
          let ct = mexc_get_ct cts (sp_symbol spec);
              items = (case j_array J data of Some arr \<Rightarrow> arr | None \<Rightarrow> [data])
          in map_option (\<lambda>r. rbind r (\<lambda>out. Inr (List.map_filter id out)))
               (try_map_panic (mexc_futures_deal J spec ct) items))"

section \<open>Connector\<close>

definition mexc_venue_symbol :: "bool \<Rightarrow> string \<Rightarrow> string option" where
  "mexc_venue_symbol futures canonical =
     (if futures then to_mexc_contract_symbol canonical else Some (to_uppercase canonical))"

definition mexc_ws :: "bool \<Rightarrow> ws_profile" where
  "mexc_ws futures =
     \<lparr>wp_ws_url = (if futures then ''wss://contract.mexc.com/edge'' else ''wss://wbs-api.mexc.com/ws''),
      wp_ping_interval_ms = 15000, wp_ping_payload = ServerInitiated, wp_pong_timeout_ms = 60000,
      wp_max_subscriptions_per_socket = 100\<rparr>"

section \<open>Instruments\<close>

datatype mexc_category = MexcPerp | MexcSpot

definition mexc_is_perp :: "mexc_category \<Rightarrow> bool" where
  "mexc_is_perp c = (c = MexcPerp)"

definition mexc_url :: "mexc_category \<Rightarrow> string" where
  "mexc_url c =
     (case c of
        MexcPerp \<Rightarrow> ''https://contract.mexc.com'' @ ''/api/v1/contract/detail''
      | MexcSpot \<Rightarrow> ''https://api.mexc.com'' @ ''/api/v3/exchangeInfo'')"

definition mexc_quote_of :: "string option \<Rightarrow> quote option" where
  "mexc_quote_of s =
     (if s = Some ''USDT'' then Some Usdt else if s = Some ''USDC'' then Some Usdc else None)"

definition mexc_parse_or_1 :: "string \<Rightarrow> nat \<Rightarrow> i64" where
  "mexc_parse_or_1 s k = max 1 (case mexc_parse_scaled s k of Inl _ \<Rightarrow> 1 | Inr v \<Rightarrow> v)"

definition mexc_spot_instrument :: "'j json_api \<Rightarrow> 'j \<Rightarrow> symbol_spec option" where
  "mexc_spot_instrument J s =
     (if (case get_string J s ''status'' of None \<Rightarrow> False | Some st \<Rightarrow> st \<noteq> ''1'') then None
      else
        Option.bind (mexc_quote_of (get_string J s ''quoteAsset'')) (\<lambda>q.
        Option.bind (map_option to_uppercase (get_string J s ''symbol'')) (\<lambda>symbol.
        Option.bind (map_option (\<lambda>n. min n 255) (get_u64 J s ''quotePrecision'')) (\<lambda>price_scale.
          let step_str = (case get_string J s ''baseSizePrecision'' of
                  None \<Rightarrow> ''1'' | Some x \<Rightarrow> if x = [] then ''1'' else x);
              qty_scale = mexc_count_decimals_trimmed step_str;
              step_size = mexc_parse_or_1 step_str qty_scale
          in Some \<lparr>sp_exchange = exchange.Mexc, sp_market_type = Spot, sp_quote = q, sp_symbol = symbol,
                 sp_price_scale = price_scale, sp_qty_scale = qty_scale, sp_tick_size = 1, sp_step_size = step_size\<rparr>))))"

definition mexc_futures_instrument ::
  "'j json_api \<Rightarrow> ('j, 'f) f64_api \<Rightarrow> 'j \<Rightarrow> (symbol_spec \<times> (i64 \<times> i64)) option option" where
  "mexc_futures_instrument J F s =
     (if unwrap_or (get_i64 J s ''state'') (-1) \<noteq> 0 then Some None
      else
        (case get_string J s ''symbol'' of
           None \<Rightarrow> Some None
         | Some sy \<Rightarrow>
             let venue = to_uppercase sy;
                 f64_field = (\<lambda>k. unwrap_or (Option.bind (j_get J s k) (f_json F)) (f_zero F))
             in (case (if ends_with venue ''_USDT'' then Some Usdt
                       else if ends_with venue ''_USDC'' then Some Usdc else None) of
                   None \<Rightarrow> Some None
                 | Some q \<Rightarrow>
                     let canonical = replace_char CHR ''_'' [] venue;
                         price_unit_str = mexc_fmt_decimal F (f64_field ''priceUnit'') ''0.01'';
                         vol_unit_str = mexc_fmt_decimal F (f64_field ''volUnit'') ''1'';
                         contract_size_str = mexc_fmt_decimal F (f64_field ''contractSize'') ''1'';
                         price_scale = mexc_count_decimals_trimmed price_unit_str;
                         tick_size = mexc_parse_or_1 price_unit_str price_scale
                     in Option.bind (mexc_multiply_decimal_strs vol_unit_str contract_size_str) (\<lambda>effective_lot.
                        Option.bind (mexc_decimal_fraction contract_size_str) (\<lambda>nd.
                          let qty_scale = mexc_count_decimals_trimmed effective_lot;
                              step_size = mexc_parse_or_1 effective_lot qty_scale
                          in Some (Some (\<lparr>sp_exchange = MexcF, sp_market_type = Perp, sp_quote = q, sp_symbol = canonical,
                 sp_price_scale = price_scale, sp_qty_scale = qty_scale, sp_tick_size = tick_size, sp_step_size = step_size\<rparr>, nd)))))))"

fun mexc_futures_loop ::
  "'j json_api \<Rightarrow> ('j, 'f) f64_api \<Rightarrow> 'j list \<Rightarrow> ct_map \<Rightarrow> (ct_map \<times> symbol_spec list) option" where
  "mexc_futures_loop J F [] m = Some (m, [])"
| "mexc_futures_loop J F (s # ss) m =
     (case mexc_futures_instrument J F s of
        None \<Rightarrow> None
      | Some None \<Rightarrow> mexc_futures_loop J F ss m
      | Some (Some (sp, nd)) \<Rightarrow>
          map_option (\<lambda>(m', sps). (m', sp # sps))
            (mexc_futures_loop J F ss (mexc_set_ct (sp_symbol sp) nd m)))"

definition mexc_parse_spot :: "'j json_api \<Rightarrow> string \<Rightarrow> exchange_error + symbol_spec list" where
  "mexc_parse_spot J json =
     rbind (map_err Parse (j_parse J json)) (\<lambda>v.
     rbind (ok_or (get_array J v ''symbols'') (Parse ''missing symbols'')) (\<lambda>items.
       Inr (List.map_filter (mexc_spot_instrument J) items)))"

definition mexc_parse_futures ::
  "'j json_api \<Rightarrow> ('j, 'f) f64_api \<Rightarrow> string \<Rightarrow> ct_map \<Rightarrow> (exchange_error + (ct_map \<times> symbol_spec list)) option" where
  "mexc_parse_futures J F json m =
     (case rbind (map_err Parse (j_parse J json)) (\<lambda>v.
             ok_or (get_array J v ''data'') (Parse ''missing data'')) of
        Inl e \<Rightarrow> Some (Inl e)
      | Inr items \<Rightarrow> map_option Inr (mexc_futures_loop J F items m))"

definition mexc_fetch_symbols ::
  "'j json_api \<Rightarrow> ('j, 'f) f64_api \<Rightarrow> http_client \<Rightarrow> mexc_category \<Rightarrow> ct_map
   \<Rightarrow> (exchange_error + (ct_map \<times> symbol_spec list)) option" where
  "mexc_fetch_symbols J F http c m =
     (case http_fetch http (mexc_url c) of
        Inl e \<Rightarrow> Some (Inl e)
      | Inr body \<Rightarrow>
          if mexc_is_perp c then mexc_parse_futures J F body m
          else Some (rbind (mexc_parse_spot J body) (\<lambda>sps. Inr (m, sps))))"

definition mexc_fetch_24h_quote_volumes :: "exchange_error + (string \<times> 'f) list" where
  "mexc_fetch_24h_quote_volumes = Inr []"

end
