(* ===== verification/Bingx.thy ===== *)
theory Bingx
  imports Adapter_Common
begin

text \<open>
  The BingX adapter (\<open>crates/exchange-bingx/src\<close>): decimal functions, venue symbols, trades whose
  maker flag has the opposite meaning on the two markets, and the instrument lists.
\<close>

section \<open>Decimal strings\<close>

definition bingx_count_decimals_trimmed :: "string \<Rightarrow> nat" where
  "bingx_count_decimals_trimmed value =
     (case find_char CHR ''.'' value of
        None \<Rightarrow> 0
      | Some dot \<Rightarrow>
          let trimmed = trim_end_matches CHR ''0'' value in
          if ends_with trimmed ''.'' then 0
          else min (length trimmed - dot - 1) 255)"

definition bingx_parse_scaled :: "string \<Rightarrow> nat \<Rightarrow> exchange_error + i64" where
  "bingx_parse_scaled s0 scale =
     (let s = trim s0 in
      if s = [] then Inl (Parse ''empty number'')
      else if starts_with s ''-'' then Inl (Parse (''negative number not allowed: '' @ s))
      else
        let (int_part, rest) = splitn2 CHR ''.'' s;
            frac_part = (case rest of None \<Rightarrow> [] | Some f \<Rightarrow> f)
        in
        if int_part = [] \<or> \<not> all_digits int_part then Inl (Parse (''invalid integer part: '' @ s))
        else if \<not> all_digits frac_part then Inl (Parse (''invalid fractional part: '' @ s))
        else
          rbind (map_err Parse (parse_i64 int_part)) (\<lambda>int_val.
          rbind (if frac_part = [] \<or> scale = 0 then Inr 0
                 else if length frac_part \<le> scale then
                   map_err Parse (parse_i64
                     (frac_part @ replicate (scale - length frac_part) CHR ''0''))
                 else map_err Parse (parse_i64 (take scale frac_part))) (\<lambda>frac_val.
          rbind (ok_or (checked_pow_i64 10 scale)
                   (Parse (''scale '' @ nat_to_string scale @ '' overflows i64''))) (\<lambda>multiplier.
          ok_or (Option.bind (checked_mul_i64 int_val multiplier)
                   (\<lambda>v. checked_add_i64 v frac_val))
                (Parse (''value '' @ s @ '' overflows i64 at scale '' @ nat_to_string scale))))))"

lemma bingx_parse_scaled_copy: "bingx_parse_scaled = binance_parse_scaled"
  by (intro ext) (simp only: bingx_parse_scaled_def binance_parse_scaled_def)

lemma bingx_count_copy: "bingx_count_decimals_trimmed = binance_count_decimals_trimmed"
  by (intro ext) (simp only: bingx_count_decimals_trimmed_def binance_count_decimals_trimmed_def)

interpretation bingx: scale_pair bingx_parse_scaled bingx_count_decimals_trimmed
  by unfold_locales
    (simp_all add: bingx_parse_scaled_copy bingx_count_copy binance_parse_scaled_spec binance_count_decimals_spec)


definition bingx_fmt_decimal :: "('j, 'f) f64_api \<Rightarrow> 'f \<Rightarrow> string" where
  "bingx_fmt_decimal F x =
     (if \<not> f_finite F x \<or> \<not> f_positive F x then ''0''
      else
        let s = trim_end_matches CHR ''.'' (trim_end_matches CHR ''0'' (f_fixed12 F x)) in
        if s = [] then ''0'' else s)"

definition to_bingx_symbol :: "string \<Rightarrow> string" where
  "to_bingx_symbol symbol =
     (let upper = to_uppercase symbol in
      if ends_with upper ''USDT'' then take (length upper - 4) upper @ ''-'' @ ''USDT''
      else if ends_with upper ''USDC'' then take (length upper - 4) upper @ ''-'' @ ''USDC''
      else if length upper > 3 then take (length upper - 3) upper @ ''-'' @ drop (length upper - 3) upper
      else upper)"

section \<open>Trades\<close>

definition bingx_peek_symbol :: "'j json_api \<Rightarrow> 'j \<Rightarrow> string option" where
  "bingx_peek_symbol J v =
     Option.bind (get_string J v ''dataType'') (\<lambda>dt.
       if \<not> str_contains dt ''@trade'' then None
       else Some (to_uppercase (replace_char CHR ''-'' [] (hd (split_on CHR ''@'' dt)))))"

text \<open>One deal; a missing price or quantity is skipped.\<close>

definition bingx_deal :: "'j json_api \<Rightarrow> symbol_spec \<Rightarrow> 'j \<Rightarrow> exchange_error + trade_print option" where
  "bingx_deal J spec it =
     (case (get_string J it ''p'', get_string J it ''q'') of
        (Some px, Some qy) \<Rightarrow>
          let is_perp = (sp_market_type spec = Perp);
              m = unwrap_or (get_bool J it ''m'') False;
              is_sell = (if is_perp then m else \<not> m);
              aggressor = (if is_sell then Ask else Bid)
          in rbind (bingx_parse_scaled px (sp_price_scale spec)) (\<lambda>price.
             rbind (bingx_parse_scaled qy (sp_qty_scale spec)) (\<lambda>qty.
               let ts_ms = unwrap_or (get_i64 J it ''T'') 0;
                   trade_id = unwrap_or (Option.bind (get_string J it ''t'') (\<lambda>s. res_ok (parse_u64 s))) 0
               in Inr (Some \<lparr>tp_ts_ns = saturating_mul_i64 ts_ms 1000000, tp_aggressor = aggressor,
                             tp_price = price, tp_qty = qty, tp_trade_id = trade_id\<rparr>)))
      | _ \<Rightarrow> Inr None)"

definition bingx_parse_value :: "'j json_api \<Rightarrow> 'j \<Rightarrow> symbol_spec \<Rightarrow> exchange_error + trade_print list" where
  "bingx_parse_value J v spec =
     (case j_get J v ''data'' of
        None \<Rightarrow> Inr []
      | Some data \<Rightarrow>
          let items = (case j_array J data of Some arr \<Rightarrow> arr | None \<Rightarrow> [data]) in
          rbind (try_collect (bingx_deal J spec) items) (\<lambda>out.
            if out = [] \<and> items \<noteq> [] then Inl (Parse ''bingx: no usable deals'') else Inr out))"

section \<open>Connector\<close>

definition bingx_venue_symbol :: "string \<Rightarrow> string" where
  "bingx_venue_symbol canonical = to_bingx_symbol canonical"

definition bingx_ws :: "bool \<Rightarrow> ws_profile" where
  "bingx_ws futures =
     \<lparr>wp_ws_url = (if futures then ''wss://open-api-swap.bingx.com/swap-market''
                   else ''wss://open-api-ws.bingx.com/market''),
      wp_ping_interval_ms = 0, wp_ping_payload = ServerInitiated, wp_pong_timeout_ms = 60000,
      wp_max_subscriptions_per_socket = 150\<rparr>"

section \<open>Instruments\<close>

datatype bingx_category = BingxSwap | BingxSpot

definition bingx_is_swap :: "bingx_category \<Rightarrow> bool" where
  "bingx_is_swap c = (c = BingxSwap)"

definition bingx_url :: "bingx_category \<Rightarrow> string" where
  "bingx_url c =
     (case c of
        BingxSwap \<Rightarrow> ''https://open-api.bingx.com'' @ ''/openApi/swap/v2/quote/contracts''
      | BingxSpot \<Rightarrow> ''https://open-api.bingx.com'' @ ''/openApi/spot/v1/common/symbols'')"

definition bingx_quote_of :: "string \<Rightarrow> quote option" where
  "bingx_quote_of venue =
     (if ends_with venue ''-USDT'' then Some Usdt else if ends_with venue ''-USDC'' then Some Usdc else None)"

definition bingx_num_str :: "'j json_api \<Rightarrow> ('j, 'f) f64_api \<Rightarrow> 'j option \<Rightarrow> string option" where
  "bingx_num_str J F v =
     (case v of None \<Rightarrow> None
      | Some x \<Rightarrow>
          (case j_string J x of
             Some s \<Rightarrow> Some s
           | None \<Rightarrow> if j_number J x = None then None
                     else Some (bingx_fmt_decimal F (unwrap_or (f_json F x) (f_zero F)))))"

definition bingx_ok_data :: "'j json_api \<Rightarrow> string \<Rightarrow> exchange_error + 'j" where
  "bingx_ok_data J json =
     rbind (map_err Parse (j_parse J json)) (\<lambda>v.
       if unwrap_or (get_i64 J v ''code'') (-1) \<noteq> 0 then
         Inl (Parse (''BingX API error: '' @ unwrap_or (get_string J v ''msg'') ''unknown''))
       else Inr v)"

definition bingx_parse_or_1 :: "string \<Rightarrow> nat \<Rightarrow> i64" where
  "bingx_parse_or_1 s k = max 1 (case bingx_parse_scaled s k of Inl _ \<Rightarrow> 1 | Inr v \<Rightarrow> v)"

definition bingx_swap_instrument :: "'j json_api \<Rightarrow> ('j, 'f) f64_api \<Rightarrow> 'j \<Rightarrow> symbol_spec option" where
  "bingx_swap_instrument J F it =
     (if unwrap_or (get_i64 J it ''status'') 0 \<noteq> 1 then None
      else
        Option.bind (map_option to_uppercase (get_string J it ''symbol'')) (\<lambda>venue.
        Option.bind (bingx_quote_of venue) (\<lambda>q.
          let price_scale = min (unwrap_or (get_u64 J it ''pricePrecision'') 2) 18;
              qty_scale = min (unwrap_or (get_u64 J it ''quantityPrecision'') 0) 18;
              step_size = (case bingx_num_str J F (j_get J it ''size'') of
                  None \<Rightarrow> 1 | Some s \<Rightarrow> bingx_parse_or_1 s qty_scale)
          in Some \<lparr>sp_exchange = BingxF, sp_market_type = Perp, sp_quote = q, sp_symbol = replace_char CHR ''-'' [] venue,
                 sp_price_scale = price_scale, sp_qty_scale = qty_scale, sp_tick_size = 1, sp_step_size = step_size\<rparr>)))"

definition bingx_spot_instrument :: "'j json_api \<Rightarrow> ('j, 'f) f64_api \<Rightarrow> 'j \<Rightarrow> symbol_spec option" where
  "bingx_spot_instrument J F it =
     (if unwrap_or (get_i64 J it ''status'') 0 \<noteq> 1 then None
      else
        Option.bind (map_option to_uppercase (get_string J it ''symbol'')) (\<lambda>venue.
        Option.bind (bingx_quote_of venue) (\<lambda>q.
          let tick_str = unwrap_or (bingx_num_str J F (j_get J it ''tickSize'')) ''0.01'';
              step_str = unwrap_or (bingx_num_str J F (j_get J it ''stepSize'')) ''0.000001'';
              price_scale = bingx_count_decimals_trimmed tick_str;
              tick_size = bingx_parse_or_1 tick_str price_scale;
              qty_scale = bingx_count_decimals_trimmed step_str;
              step_size = bingx_parse_or_1 step_str qty_scale
          in Some \<lparr>sp_exchange = exchange.Bingx, sp_market_type = Spot, sp_quote = q, sp_symbol = replace_char CHR ''-'' [] venue,
                 sp_price_scale = price_scale, sp_qty_scale = qty_scale, sp_tick_size = tick_size, sp_step_size = step_size\<rparr>)))"

definition bingx_swap_instruments ::
  "'j json_api \<Rightarrow> ('j, 'f) f64_api \<Rightarrow> string \<Rightarrow> exchange_error + symbol_spec list" where
  "bingx_swap_instruments J F json =
     rbind (bingx_ok_data J json) (\<lambda>v.
     rbind (ok_or (get_array J v ''data'') (Parse ''missing data array'')) (\<lambda>items.
       Inr (List.map_filter (bingx_swap_instrument J F) items)))"

definition bingx_spot_instruments ::
  "'j json_api \<Rightarrow> ('j, 'f) f64_api \<Rightarrow> string \<Rightarrow> exchange_error + symbol_spec list" where
  "bingx_spot_instruments J F json =
     rbind (bingx_ok_data J json) (\<lambda>v.
     rbind (ok_or (Option.bind (j_get J v ''data'') (\<lambda>d. get_array J d ''symbols'')) (Parse ''missing data.symbols array''))
       (\<lambda>items. Inr (List.map_filter (bingx_spot_instrument J F) items)))"

definition bingx_fetch_symbols ::
  "'j json_api \<Rightarrow> ('j, 'f) f64_api \<Rightarrow> http_client \<Rightarrow> bingx_category \<Rightarrow> exchange_error + symbol_spec list" where
  "bingx_fetch_symbols J F http c =
     rbind (http_fetch http (bingx_url c)) (\<lambda>body.
       if bingx_is_swap c then bingx_swap_instruments J F body else bingx_spot_instruments J F body)"

definition bingx_fetch_24h_quote_volumes :: "exchange_error + (string \<times> 'f) list" where
  "bingx_fetch_24h_quote_volumes = Inr []"

section \<open>Usable instruments and valid trades\<close>

lemma bingx_parse_or_1_range: "0 < bingx_parse_or_1 s k \<and> in_i64 (bingx_parse_or_1 s k)"
  unfolding bingx_parse_or_1_def by (rule bingx.parse_or_1_usable)

lemma bingx_instrument_usable:
  "bingx_swap_instrument J F it = Some sp \<Longrightarrow> spec_usable sp \<and> sp_market_type sp = Perp"
  "bingx_spot_instrument J F it = Some sp \<Longrightarrow> spec_usable sp \<and> sp_market_type sp = Spot"
  using bingx_parse_or_1_range bingx.count_le
  by (auto simp: bingx_swap_instrument_def bingx_spot_instrument_def Let_def bind_eq_Some_conv
      spec_usable_def in_i64_def min_le_iff_disj split: if_splits option.splits)

lemma bingx_deal_ok:
  assumes "bingx_deal J spec it = Inr (Some t)"
  shows "in_i64 (tp_ts_ns t) \<and> 0 \<le> tp_price t \<and> in_i64 (tp_price t) \<and> 0 \<le> tp_qty t \<and> in_i64 (tp_qty t)"
  using assms unfolding bingx_deal_def Let_def by (auto split: option.splits dest!: bingx.parse_bounds)

end
