(* ===== verification/Hyperliquid.thy ===== *)
theory Hyperliquid
  imports Adapter_Common
begin

text \<open>
  The Hyperliquid adapter (\<open>crates/exchange-hyperliquid/src\<close>): the decimal parser, the table of
  native coins, trades, and the instrument list, whose scales follow from \<open>szDecimals\<close>.
\<close>

section \<open>Decimal strings\<close>

definition hyperliquid_parse_scaled :: "string \<Rightarrow> nat \<Rightarrow> exchange_error + i64" where
  "hyperliquid_parse_scaled s0 scale =
     (let s = trim s0 in
      if s = [] then Inl (Parse ''empty number'')
      else if starts_with s ''-'' then Inl (Parse (''negative number not allowed: '' @ s))
      else
        let (int_part, rest) = splitn2 CHR ''.'' s;
            frac_part = (case rest of None \<Rightarrow> [] | Some f \<Rightarrow> f)
        in
        if int_part = [] \<or> \<not> all_digits int_part then Inl (Parse (''invalid integer part: '' @ s))
        else if \<not> all_digits frac_part then Inl (Parse (''invalid fractional part: '' @ s))
        else
          rbind (map_err Parse (parse_i64 int_part)) (\<lambda>int_val.
          rbind (if frac_part = [] \<or> scale = 0 then Inr 0
                 else if length frac_part \<le> scale then
                   map_err Parse (parse_i64
                     (frac_part @ replicate (scale - length frac_part) CHR ''0''))
                 else map_err Parse (parse_i64 (take scale frac_part))) (\<lambda>frac_val.
          rbind (ok_or (checked_pow_i64 10 scale)
                   (Parse (''scale '' @ nat_to_string scale @ '' overflows i64''))) (\<lambda>multiplier.
          ok_or (Option.bind (checked_mul_i64 int_val multiplier)
                   (\<lambda>v. checked_add_i64 v frac_val))
                (Parse (''value '' @ s @ '' overflows i64 at scale '' @ nat_to_string scale))))))"

lemma hyperliquid_parse_scaled_copy: "hyperliquid_parse_scaled = binance_parse_scaled"
  by (intro ext) (simp only: hyperliquid_parse_scaled_def binance_parse_scaled_def)

interpretation hyperliquid: scaled_parser hyperliquid_parse_scaled
  by unfold_locales (simp add: hyperliquid_parse_scaled_copy binance_parse_scaled_spec)


section \<open>Native coins\<close>

definition max_decimals_perp :: nat where
  "max_decimals_perp = 6"

type_synonym native_map = "(string \<times> string) list"

definition hyperliquid_set_native :: "string \<Rightarrow> string \<Rightarrow> native_map \<Rightarrow> native_map" where
  "hyperliquid_set_native canonical native m = AList.update canonical native m"

definition strip_usdc :: "string \<Rightarrow> string" where
  "strip_usdc canonical = (let up = to_uppercase canonical in unwrap_or (strip_suffix ''USDC'' up) up)"

definition hyperliquid_get_native :: "native_map \<Rightarrow> string \<Rightarrow> string" where
  "hyperliquid_get_native m canonical =
     (case map_of m canonical of Some n \<Rightarrow> n | None \<Rightarrow> strip_usdc canonical)"

interpretation native: keyed_store hyperliquid_set_native hyperliquid_get_native strip_usdc
  by unfold_locales (simp_all add: hyperliquid_set_native_def hyperliquid_get_native_def update_conv')

section \<open>Trades\<close>

definition hyperliquid_peek_symbol :: "'j json_api \<Rightarrow> 'j \<Rightarrow> string option" where
  "hyperliquid_peek_symbol J v =
     (if get_string J v ''channel'' \<noteq> Some ''trades'' then None
      else
        Option.bind (get_array J v ''data'') (\<lambda>a.
          case a of [] \<Rightarrow> None | t # _ \<Rightarrow> get_string J t ''coin''))"

definition hyperliquid_deal :: "'j json_api \<Rightarrow> symbol_spec \<Rightarrow> 'j \<Rightarrow> exchange_error + trade_print option" where
  "hyperliquid_deal J spec t =
     (let side = unwrap_or (get_string J t ''side'') [];
          aggressor = (if side = ''B'' then Some Bid else if side = ''A'' \<or> side = ''S'' then Some Ask else None)
      in case (aggressor, get_string J t ''px'', get_string J t ''sz'') of
           (Some agg, Some px, Some sz) \<Rightarrow>
             rbind (hyperliquid_parse_scaled px (sp_price_scale spec)) (\<lambda>price.
             rbind (hyperliquid_parse_scaled sz (sp_qty_scale spec)) (\<lambda>qty.
               let time_ms = unwrap_or (get_i64 J t ''time'') 0; trade_id = unwrap_or (get_u64 J t ''tid'') 0
               in Inr (Some \<lparr>tp_ts_ns = saturating_mul_i64 time_ms 1000000, tp_aggressor = agg,
                             tp_price = price, tp_qty = qty, tp_trade_id = trade_id\<rparr>)))
         | _ \<Rightarrow> Inr None)"

definition hyperliquid_parse_value :: "'j json_api \<Rightarrow> 'j \<Rightarrow> symbol_spec \<Rightarrow> exchange_error + trade_print list" where
  "hyperliquid_parse_value J v spec =
     (case get_array J v ''data'' of
        None \<Rightarrow> Inr []
      | Some data \<Rightarrow>
          rbind (try_collect (hyperliquid_deal J spec) data) (\<lambda>out.
            if out = [] \<and> data \<noteq> [] then Inl (Parse ''hyperliquid: no usable deals'') else Inr out))"

section \<open>Connector\<close>

definition hyperliquid_native_coin :: "native_map \<Rightarrow> string \<Rightarrow> string" where
  "hyperliquid_native_coin m canonical = hyperliquid_get_native m canonical"

definition hyperliquid_ws :: ws_profile where
  "hyperliquid_ws =
     \<lparr>wp_ws_url = ''wss://api.hyperliquid.xyz/ws'', wp_ping_interval_ms = 14000,
      wp_ping_payload = PingText ([CHR ''{'', CHR 0x22] @ ''method'' @ [CHR 0x22, CHR '':'', CHR 0x22] @ ''ping'' @ [CHR 0x22, CHR ''}'']),
      wp_pong_timeout_ms = 30000, wp_max_subscriptions_per_socket = 1000\<rparr>"

section \<open>Instruments\<close>

text \<open>One entry: the native coin it registers and its specification; \<open>as u8\<close> keeps eight bits.\<close>

definition hyperliquid_instrument :: "'j json_api \<Rightarrow> 'j \<Rightarrow> (string \<times> symbol_spec) option" where
  "hyperliquid_instrument J item =
     (if get_bool J item ''isDelisted'' = Some True then None
      else
        map_option (\<lambda>name.
          let sz_decimals = unwrap_or (get_u64 J item ''szDecimals'') 0 mod 256;
              canonical = to_uppercase name @ ''USDC''
          in (name, \<lparr>sp_exchange = HyperliquidF, sp_market_type = Perp, sp_quote = Usdc, sp_symbol = canonical,
                 sp_price_scale = max_decimals_perp - sz_decimals, sp_qty_scale = sz_decimals, sp_tick_size = 1, sp_step_size = 1\<rparr>))
          (get_string J item ''name''))"

fun hyperliquid_loop :: "'j json_api \<Rightarrow> 'j list \<Rightarrow> native_map \<Rightarrow> native_map \<times> symbol_spec list" where
  "hyperliquid_loop J [] m = (m, [])"
| "hyperliquid_loop J (item # items) m =
     (case hyperliquid_instrument J item of
        None \<Rightarrow> hyperliquid_loop J items m
      | Some (name, sp) \<Rightarrow>
          (let (m', sps) = hyperliquid_loop J items (hyperliquid_set_native (sp_symbol sp) name m)
           in (m', sp # sps)))"

definition hyperliquid_meta ::
  "'j json_api \<Rightarrow> string \<Rightarrow> native_map \<Rightarrow> exchange_error + (native_map \<times> symbol_spec list)" where
  "hyperliquid_meta J json m =
     rbind (map_err Parse (j_parse J json)) (\<lambda>v.
     rbind (ok_or (get_array J v ''universe'') (Parse ''missing universe'')) (\<lambda>universe.
       Inr (hyperliquid_loop J universe m)))"

definition hyperliquid_fetch_symbols ::
  "'j json_api \<Rightarrow> http_client \<Rightarrow> native_map \<Rightarrow> exchange_error + (native_map \<times> symbol_spec list)" where
  "hyperliquid_fetch_symbols J http m =
     rbind (http_fetch http ''https://api.hyperliquid.xyz/info'') (\<lambda>body. hyperliquid_meta J body m)"

definition hyperliquid_fetch_24h_quote_volumes :: "exchange_error + (string \<times> 'f) list" where
  "hyperliquid_fetch_24h_quote_volumes = Inr []"

section \<open>Usable instruments, valid trades, native names\<close>

lemma hyperliquid_instrument_usable:
  "hyperliquid_instrument J item = Some (name, sp) \<Longrightarrow>
     spec_usable sp \<and> sp_price_scale sp \<le> 6 \<and> sp_symbol sp = to_uppercase name @ ''USDC''"
  by (auto simp: hyperliquid_instrument_def Let_def spec_usable_def in_i64_def max_decimals_perp_def
      intro: less_imp_le order_trans [of _ 6] split: if_splits)

lemma hyperliquid_deal_ok:
  assumes "hyperliquid_deal J spec it = Inr (Some t)"
  shows "in_i64 (tp_ts_ns t) \<and> 0 \<le> tp_price t \<and> in_i64 (tp_price t) \<and> 0 \<le> tp_qty t \<and> in_i64 (tp_qty t)"
  using assms unfolding hyperliquid_deal_def Let_def
  by (auto split: option.splits prod.splits if_splits dest!: hyperliquid.parse_bounds)

text \<open>The loop is the registration of all entries, in order, and the list of their specifications.\<close>

lemma hyperliquid_loop_fold:
  "hyperliquid_loop J items m =
     (fold (\<lambda>(k, v). hyperliquid_set_native k v)
        (map (\<lambda>(name, sp). (sp_symbol sp, name)) (List.map_filter (hyperliquid_instrument J) items)) m,
      map snd (List.map_filter (hyperliquid_instrument J) items))"
  by (induction items arbitrary: m)
    (auto simp: List.map_filter_simps case_prod_beta split: option.split)

end
