(* ===== verification/Adapter_Theorems.thy ===== *)
theory Adapter_Theorems
  imports Binance Aster Bybit Bitget Okx Kucoin Mexc Bingx Hyperliquid
begin

text \<open>
  What the adapters promise: the nine decimal parsers are one function, scales are exact and
  coarser scales are rounded finer ones, contract sizes convert exactly, instruments are usable,
  venue symbols translate back, and subscriptions cover every symbol once.
\<close>

section \<open>Decimal strings\<close>

text \<open>C10: The nine copies of \<open>parse_scaled\<close> are the same function, and it is the rounded-down
  value of the decimal at the scale: a string is accepted exactly when it is a decimal without a
  sign, the scale is at most 18 and the scaled value fits an \<open>i64\<close>.\<close>

theorem decimal_parsers_agree:
  "p \<in> {binance_parse_scaled, aster_parse_scaled, bybit_parse_scaled, bitget_parse_scaled,
        okx_parse_scaled, kucoin_parse_scaled, mexc_parse_scaled, bingx_parse_scaled,
        hyperliquid_parse_scaled} \<Longrightarrow>
   p s k = binance_parse_scaled s k \<and> res_ok (p s k) = scaled_spec s k"
  using binance_parse_scaled_spec
  by (auto simp: aster_parse_scaled_copy bybit_parse_scaled_copy bitget_parse_scaled_copy
      okx_parse_scaled_copy kucoin_parse_scaled_copy mexc_parse_scaled_copy bingx_parse_scaled_copy
      hyperliquid_parse_scaled_copy)

lemma decimal_parsers_agree_witness:
  "okx_parse_scaled '' 12.345 '' 2 = binance_parse_scaled '' 12.345 '' 2 \<and>
   res_ok (okx_parse_scaled '' 12.345 '' 2) = scaled_spec '' 12.345 '' 2"
  by (rule decimal_parsers_agree) simp

text \<open>The scale an adapter counts on a tick string is exact and the least exact one: parsing the
  tick at that scale loses no digit, and at any smaller scale it would.\<close>

lemma tick_scale_exact_and_least:
  assumes "i \<noteq> []" "all_digits i" "all_digits f" and "s = i @ CHR ''.'' # f"
    and "binance_parse_scaled s (binance_count_decimals_trimmed s) = Inr v"
  shows "v * 10 ^ length f = dec_val 0 (i @ f) * 10 ^ binance_count_decimals_trimmed s \<and>
    (\<forall>k < binance_count_decimals_trimmed s. \<not> exact_at i f k)"
  using binance.tick_exact [OF assms(1-3)] assms(4,5) by blast

text \<open>History kept at a fine scale can be shown at a coarser one: a string that parses at scale
  \<open>k + d\<close> parses at scale \<open>k\<close>, to the finer value divided by \<open>10 ^ d\<close> and rounded down.\<close>

lemma downscale_exact:
  assumes "p \<in> {binance_parse_scaled, hyperliquid_parse_scaled}" and "p s (k + d) = Inr v"
  shows "p s k = Inr (v div 10 ^ d)"
  using assms binance.parse_downscale hyperliquid.parse_downscale by blast

lemma downscale_exact_witness: "hyperliquid_parse_scaled ''12.3456'' 2 = Inr (123456 div 10 ^ 2)"
proof (rule downscale_exact)
  show "hyperliquid_parse_scaled ''12.3456'' (2 + 2) = Inr 123456" by code_simp
qed simp

section \<open>Contracts\<close>

text \<open>The product of two decimal strings (lot size and contract size) is exact, for numbers of up
  to 38 digits together: the result is a decimal string without trailing zeros whose value is the
  product of the values; the three adapters compute the same.\<close>

lemma lot_product_exact:
  assumes "i \<noteq> []" "all_digits i" "all_digits f" and "j \<noteq> []" "all_digits j" "all_digits g"
    and "length (i @ f) + length (j @ g) \<le> 38"
  shows "\<exists>ri rf. okx_multiply_decimal_strs (decimal_str i f) (decimal_str j g) = Some (decimal_str ri rf) \<and>
    kucoin_multiply_decimal_strs (decimal_str i f) (decimal_str j g) = Some (decimal_str ri rf) \<and>
    mexc_multiply_decimal_strs (decimal_str i f) (decimal_str j g) = Some (decimal_str ri rf) \<and>
    ri \<noteq> [] \<and> all_digits ri \<and> all_digits rf \<and> (rf \<noteq> [] \<longrightarrow> last rf \<noteq> CHR ''0'') \<and>
    dec_val 0 (ri @ rf) * 10 ^ (length f + length g)
      = dec_val 0 (i @ f) * dec_val 0 (j @ g) * 10 ^ length rf"
  using okx_multiply_exact [OF assms] unfolding multiply_copies by metis

lemma contracts_to_base_exact:
  assumes c: "okx_parse_scaled sz k = Inr c" "decimal_parts sz = Some (i, f)" "exact_at i f k"
    and ct: "denotes (Some (n, d)) ci cf" and small: "c * n < 2 ^ 63"
  shows "contracts_to_base c (n, d)
    = Some (dec_val 0 (i @ f) * dec_val 0 (ci @ cf) * 10 ^ k div 10 ^ (length f + length cf))"
proof -
  let ?V = "dec_val 0 (i @ f)" and ?C = "dec_val 0 (ci @ cf)"
  have nd: "0 < d" "0 \<le> n" "n * 10 ^ length cf = ?C * d" using ct by (auto simp: denotes_def)
  obtain i' f' where "decimal_parts sz = Some (i', f')" "c = scaled_floor i' f' k"
    using okx.parse_value [OF c(1)] by metis
  then have V: "c * 10 ^ length f = ?V * 10 ^ k" using c(2,3) by (simp add: exact_at_def)
  have c0: "0 \<le> c" using okx.parse_bounds [OF c(1)] by simp
  then have w: "wrap_i64 (c * n) = c * n" using nd(2) small by (simp add: in_i64_def order_trans [OF _ mult_nonneg_nonneg])
  have VC: "?V * ?C * 10 ^ k = 10 ^ length f * (c * ?C)" using V by (simp add: mult.commute mult.left_commute)
  have "?V * ?C * 10 ^ k div 10 ^ (length f + length cf) = c * ?C div 10 ^ length cf"
    unfolding VC power_add by simp
  moreover have "c * n div d = c * ?C div 10 ^ length cf"
  proof -
    have "c * n div d = (c * n * 10 ^ length cf) div (d * 10 ^ length cf)" by simp
    also have "c * n * 10 ^ length cf = (c * ?C) * d" using nd(3) by (simp add: mult.assoc)
    also have "d * 10 ^ length cf = 10 ^ length cf * d" by simp
    finally show ?thesis using nd(1) by simp
  qed
  moreover have "0 \<le> c * n" using c0 nd(2) by simp
  ultimately show ?thesis using w nd(1) div_rem_nonneg(3) [of "c * n" d] by (simp add: contracts_to_base_def)
qed

text \<open>C29: A swap trade is counted in the base asset exactly: when the size of the trade has no more
  decimals than the instrument's quantity scale and the product fits an \<open>i64\<close>, the quantity stored
  is the size times the contract size, at that scale, rounded down.\<close>

theorem swap_quantity_exact:
  assumes "ci \<noteq> []" "all_digits ci" "all_digits cf" "length cf \<le> 18" "dec_val 0 (ci @ cf) < 2 ^ 63"
    and "okx_parse_scaled sz k = Inr c" "decimal_parts sz = Some (i, f)" "exact_at i f k"
    and "c * dec_val 0 (ci @ cf) < 2 ^ 63"
  shows "Option.bind (okx_ct_val_fraction (decimal_str ci cf)) (contracts_to_base c)
    = Some (dec_val 0 (i @ f) * dec_val 0 (ci @ cf) * 10 ^ k div 10 ^ (length f + length cf))"
proof -
  have den: "denotes (okx_ct_val_fraction (decimal_str ci cf)) ci cf"
    by (rule okx_ct_val_fraction_denotes [OF assms(1-5)])
  then obtain n d where nd: "okx_ct_val_fraction (decimal_str ci cf) = Some (n, d)" "n \<le> dec_val 0 (ci @ cf)"
    by (auto simp: denotes_def)
  have "c * n \<le> c * dec_val 0 (ci @ cf)"
    using okx.parse_bounds [OF assms(6)] nd(2) by (intro mult_left_mono) auto
  then have "c * n < 2 ^ 63" using assms(9) by linarith
  then show ?thesis using contracts_to_base_exact [OF assms(6-8)] den nd(1) by simp
qed

lemma swap_quantity_exact_witness:
  "Option.bind (okx_ct_val_fraction (decimal_str ''0'' ''01'')) (contracts_to_base 1200)
    = Some (dec_val 0 (''12'' @ []) * dec_val 0 (''0'' @ ''01'') * 10 ^ 2 div 10 ^ (length ([] :: string) + length ''01''))"
proof (rule swap_quantity_exact)
  show "okx_parse_scaled ''12'' 2 = Inr 1200" by code_simp
  show "decimal_parts ''12'' = Some (''12'', [])" by code_simp
  show "exact_at ''12'' [] 2" by (simp add: exact_at_def scaled_floor_def)
qed (simp_all add: chr_defs)

definition xrp_swap :: jv where
  "xrp_swap = JObj [(''state'', JStr ''live''), (''instId'', JStr ''XRP-USDT-SWAP''),
     (''tickSz'', JStr ''0.0001''), (''lotSz'', JStr ''0.01''), (''ctVal'', JStr ''100'')]"




section \<open>The contract tables\<close>

lemma okx_loop_table:
  assumes "okx_instrument_loop J OkxSwap items m = Some (m', sps)"
  shows "\<exists>kvs. m' = fold (\<lambda>(k, v). okx_set_ct k v) kvs m \<and> map fst kvs = map sp_symbol sps \<and>
    (\<forall>sp nd. (sp, nd) \<in> set (zip sps (map snd kvs)) \<longrightarrow>
       (\<exists>s \<in> set items. okx_instrument J OkxSwap s = Some (Some (sp, Some nd))))"
  using assms
proof (induction items arbitrary: m sps)
  case Nil
  then show ?case by (intro exI [of _ "[]"]) simp
next
  case (Cons s items)
  consider "okx_instrument J OkxSwap s = Some None"
    | sp ct where "okx_instrument J OkxSwap s = Some (Some (sp, ct))"
    using Cons.prems by (auto split: option.splits)
  then show ?case
  proof cases
    case 1
    then show ?thesis using Cons by fastforce
  next
    case 2
    have "\<exists>nd. ct = Some nd"
      using 2 by (auto simp: okx_instrument_def okx_is_swap_def Let_def bind_eq_Some_conv
          split: if_splits option.splits prod.splits)
    then obtain nd where nd: "ct = Some nd" ..
    obtain sps' where r: "okx_instrument_loop J OkxSwap items (okx_set_ct (sp_symbol sp) nd m) = Some (m', sps')"
        "sps = sp # sps'"
      using Cons.prems 2 nd by auto
    obtain kvs where k: "m' = fold (\<lambda>(k, v). okx_set_ct k v) kvs (okx_set_ct (sp_symbol sp) nd m)"
        "map fst kvs = map sp_symbol sps'"
        "\<And>sp nd. (sp, nd) \<in> set (zip sps' (map snd kvs)) \<Longrightarrow>
           \<exists>s \<in> set items. okx_instrument J OkxSwap s = Some (Some (sp, Some nd))"
      using Cons.IH [OF r(1)] by blast
    show ?thesis using k r(2) 2 nd by (intro exI [of _ "(sp_symbol sp, nd) # kvs"]) auto
  qed
qed

text \<open>C28: After a swap listing was read, the trade parser finds for every listed instrument the
  contract fraction its listing entry gave, whatever was registered before (symbols being listed
  once).\<close>

theorem okx_contracts_registered:
  assumes "okx_instrument_loop J OkxSwap items m = Some (m', sps)"
    and "distinct (map sp_symbol sps)" and "sp \<in> set sps"
  shows "\<exists>s \<in> set items. okx_instrument J OkxSwap s = Some (Some (sp, Some (okx_get_ct m' (sp_symbol sp))))"
proof -
  obtain kvs where k: "m' = fold (\<lambda>(k, v). okx_set_ct k v) kvs m" "map fst kvs = map sp_symbol sps"
      "\<And>sp nd. (sp, nd) \<in> set (zip sps (map snd kvs)) \<Longrightarrow>
         \<exists>s \<in> set items. okx_instrument J OkxSwap s = Some (Some (sp, Some nd))"
    using okx_loop_table [OF assms(1)] by blast
  obtain i where i: "i < length sps" "sps ! i = sp" using assms(3) by (auto simp: in_set_conv_nth)
  have len: "length kvs = length sps" using k(2) by (metis length_map)
  have fst_i: "fst (kvs ! i) = sp_symbol sp" using k(2) i len by (metis nth_map)
  have "kvs ! i \<in> set kvs" using i len by simp
  then have "(sp_symbol sp, snd (kvs ! i)) \<in> set kvs" using fst_i by (metis prod.collapse)
  then have "okx_get_ct m' (sp_symbol sp) = snd (kvs ! i)"
    using okx_ct.get_fold_last [of "sp_symbol sp" "snd (kvs ! i)" kvs m] k(1,2) assms(2) by simp
  moreover have "(sp, snd (kvs ! i)) \<in> set (zip sps (map snd kvs))"
    using i len by (auto simp: set_zip intro!: exI [of _ i])
  ultimately show ?thesis using k(3) by metis
qed

lemma okx_contracts_registered_witness:
  "\<exists>m' sp. okx_instrument_loop jv_api OkxSwap [xrp_swap] [] = Some (m', [sp]) \<and>
    (\<exists>s \<in> {xrp_swap}. okx_instrument jv_api OkxSwap s = Some (Some (sp, Some (okx_get_ct m' (sp_symbol sp)))))"
proof -
  have "case okx_instrument_loop jv_api OkxSwap [xrp_swap] [] of Some (m', [sp]) \<Rightarrow> True | _ \<Rightarrow> False"
    by code_simp
  then obtain m' sp where r: "okx_instrument_loop jv_api OkxSwap [xrp_swap] [] = Some (m', [sp])"
    by (auto split: option.splits list.splits)
  show ?thesis using r okx_contracts_registered [OF r, of sp] by simp
qed

section \<open>Usable instruments\<close>

lemma okx_instrument_usable:
  assumes "okx_instrument J c s = Some (Some (sp, ct))"
  shows "spec_usable sp"
proof -
  obtain t u ps qs tick step where
    k: "tick_and_step okx_count_decimals_trimmed okx_parse_scaled t u = Some (ps, qs, tick, step)"
    and sp: "sp_price_scale sp = ps" "sp_qty_scale sp = qs" "sp_tick_size sp = tick" "sp_step_size sp = step"
    using assms by (auto simp: okx_instrument_def Let_def bind_eq_Some_conv case_prod_beta
        split: if_splits option.splits)
  show ?thesis using okx.tick_and_step_usable [OF k] sp by (simp add: spec_usable_def)
qed

lemma okx_loop_usable:
  "okx_instrument_loop J c items m = Some (m', sps) \<Longrightarrow> sp \<in> set sps \<Longrightarrow> spec_usable sp"
proof (induction items arbitrary: m sps)
  case (Cons s items)
  then show ?case
    by (auto split: option.splits prod.splits dest: okx_instrument_usable)
qed simp

lemma kucoin_parse_or_1_range: "0 < kucoin_parse_or_1 s k \<and> in_i64 (kucoin_parse_or_1 s k)"
  unfolding kucoin_parse_or_1_def by (rule kucoin.parse_or_1_usable)

lemma kucoin_instrument_usable:
  "kucoin_perp_instrument J s = Some (Some (sp, ct)) \<Longrightarrow> spec_usable sp"
  "kucoin_spot_instrument J s = Some (Some (sp, ct)) \<Longrightarrow> spec_usable sp"
  using kucoin_parse_or_1_range kucoin.count_le
  by (auto simp: kucoin_perp_instrument_def kucoin_spot_instrument_def Let_def bind_eq_Some_conv
      spec_usable_def split: if_splits option.splits sum.splits dest!: kucoin.parse_bounds)

lemma kucoin_loop_usable:
  "kucoin_instrument_loop J c items m = Some (m', sps) \<Longrightarrow> sp \<in> set sps \<Longrightarrow> spec_usable sp"
proof (induction items arbitrary: m sps)
  case (Cons s items)
  then show ?case
    by (cases "kucoin_is_perp c")
      (auto split: option.splits prod.splits dest: kucoin_instrument_usable)
qed simp

lemma mexc_parse_or_1_range: "0 < mexc_parse_or_1 s k \<and> in_i64 (mexc_parse_or_1 s k)"
  unfolding mexc_parse_or_1_def by (rule mexc.parse_or_1_usable)

lemma mexc_instrument_usable:
  "mexc_spot_instrument J s = Some sp \<Longrightarrow> spec_usable sp"
  "mexc_futures_instrument J F s = Some (Some (sp, ct)) \<Longrightarrow> spec_usable sp"
  using mexc_parse_or_1_range mexc.count_le
  by (auto simp: mexc_spot_instrument_def mexc_futures_instrument_def Let_def bind_eq_Some_conv
      spec_usable_def in_i64_def split: if_splits option.splits)

lemma mexc_loop_usable:
  "mexc_futures_loop J F items m = Some (m', sps) \<Longrightarrow> sp \<in> set sps \<Longrightarrow> spec_usable sp"
proof (induction items arbitrary: m sps)
  case (Cons s items)
  then show ?case by (auto split: option.splits prod.splits dest: mexc_instrument_usable)
qed simp

text \<open>Every instrument list of the nine adapters, as a predicate on the specifications it returns.\<close>

definition listed :: "'j json_api \<Rightarrow> ('j, 'f) f64_api \<Rightarrow> string \<Rightarrow> symbol_spec list \<Rightarrow> bool" where
  "listed J F json sps \<longleftrightarrow>
     binance_futures_exchange_info J json = Inr sps \<or> binance_spot_exchange_info J json = Inr sps \<or>
     (\<exists>c. aster_exchange_info J json c = Inr sps) \<or> (\<exists>c. bybit_instruments_info J json c = Inr sps) \<or>
     (\<exists>c. bitget_instruments J json c = Inr sps) \<or>
     (\<exists>c m m'. okx_instruments J json c m = Some (Inr (m', sps))) \<or>
     (\<exists>c m m'. kucoin_instruments J json c m = Some (Inr (m', sps))) \<or>
     mexc_parse_spot J json = Inr sps \<or> (\<exists>m m'. mexc_parse_futures J F json m = Some (Inr (m', sps))) \<or>
     bingx_swap_instruments J F json = Inr sps \<or> bingx_spot_instruments J F json = Inr sps \<or>
     (\<exists>m m'. hyperliquid_meta J json m = Inr (m', sps))"

lemma map_filter_usable:
  "(\<And>s sp. f s = Some sp \<Longrightarrow> spec_usable sp) \<Longrightarrow> sp \<in> set (List.map_filter f xs) \<Longrightarrow> spec_usable sp"
  by (auto dest: map_filter_set)

lemma hyperliquid_meta_usable:
  assumes "hyperliquid_meta J json m = Inr (m', sps)" and "sp \<in> set sps"
  shows "spec_usable sp"
proof -
  obtain items where "sps = map snd (List.map_filter (hyperliquid_instrument J) items)"
    using assms(1) by (auto simp: hyperliquid_meta_def hyperliquid_loop_fold)
  then obtain name where "(name, sp) \<in> set (List.map_filter (hyperliquid_instrument J) items)"
    using assms(2) by auto
  then show ?thesis using map_filter_set hyperliquid_instrument_usable by metis
qed

lemma listed_usable:
  assumes "listed J F json sps" and "sp \<in> set sps"
  shows "spec_usable sp"
proof -
  have okx: "okx_instruments J json c m = Some (Inr (m', sps)) \<Longrightarrow> spec_usable sp" for c m m'
    using assms(2) okx_loop_usable by (fastforce simp: okx_instruments_def split: sum.splits)
  have ku: "kucoin_instruments J json c m = Some (Inr (m', sps)) \<Longrightarrow> spec_usable sp" for c m m'
    using assms(2) kucoin_loop_usable by (fastforce simp: kucoin_instruments_def split: sum.splits)
  have mx: "mexc_parse_futures J F json m = Some (Inr (m', sps)) \<Longrightarrow> spec_usable sp" for m m'
    using assms(2) mexc_loop_usable by (fastforce simp: mexc_parse_futures_def split: sum.splits)
  have yb: "bybit_instruments_info J json c = Inr sps \<Longrightarrow> spec_usable sp" for c
    using assms(2) bybit_instrument_usable [THEN conjunct1]
    by (auto simp: bybit_instruments_info_def split: if_splits elim!: map_filter_usable [rotated])
  have bg: "bitget_instruments J json c = Inr sps \<Longrightarrow> spec_usable sp" for c
    using assms(2) bitget_instrument_usable [THEN conjunct1]
    by (auto simp: bitget_instruments_def split: if_splits elim!: map_filter_usable [rotated])
  have ms: "mexc_parse_spot J json = Inr sps \<Longrightarrow> spec_usable sp"
    using assms(2) mexc_instrument_usable(1)
    by (auto simp: mexc_parse_spot_def elim!: map_filter_usable [rotated])
  have bx: "bingx_swap_instruments J F json = Inr sps \<or> bingx_spot_instruments J F json = Inr sps
      \<Longrightarrow> spec_usable sp"
    using assms(2) bingx_instrument_usable(1) [THEN conjunct1] bingx_instrument_usable(2) [THEN conjunct1]
    by (auto simp: bingx_swap_instruments_def bingx_spot_instruments_def elim!: map_filter_usable [rotated])
  have bn: "binance_futures_exchange_info J json = Inr sps \<or> binance_spot_exchange_info J json = Inr sps
      \<Longrightarrow> spec_usable sp"
    using assms(2) binance_exchange_info_usable by metis
  have ast: "aster_exchange_info J json c = Inr sps \<Longrightarrow> spec_usable sp" for c
    using assms(2) aster_exchange_info_usable by metis
  have hl: "hyperliquid_meta J json m = Inr (m', sps) \<Longrightarrow> spec_usable sp" for m m'
    using assms(2) hyperliquid_meta_usable by metis
  show ?thesis
    using assms(1) unfolding listed_def
    by (elim disjE exE) (simp_all add: okx ku mx yb bg ms bx bn ast hl)
qed

text \<open>C14: Whatever an exchange answers, every instrument that an adapter lists has a positive tick and
  step that fit an \<open>i64\<close> and scales that fit a byte.\<close>

theorem listed_instruments_usable:
  assumes "listed J F json sps" and "sp \<in> set sps"
  shows "spec_usable sp"
  using assms by (rule listed_usable)

text \<open>A concrete reply for the witnesses, over values that are integers or strings.\<close>

definition one_reply :: "jv \<Rightarrow> jv json_api" where
  "one_reply v = jv_api\<lparr>j_parse := (\<lambda>_. Inr v)\<rparr>"

definition int_f64 :: "(jv, int) f64_api" where
  "int_f64 = \<lparr>f_parse = (\<lambda>s. res_ok (parse_i64 s)), f_json = j_i64 jv_api, f_zero = 0, f_mul = (*),
     f_finite = (\<lambda>_. True), f_positive = (\<lambda>x. 0 < x), f_display = int_to_string,
     f_fixed12 = (\<lambda>x. int_to_string x @ ''.000000000000'')\<rparr>"

definition pepe_meta :: jv where
  "pepe_meta = JObj [(''universe'', JArr [JObj [(''name'', JStr ''kPEPE'')]])]"

lemma listed_instruments_usable_witness:
  "\<exists>sp. listed (one_reply pepe_meta) int_f64 ''reply'' [sp] \<and> spec_usable sp"
proof -
  have "case hyperliquid_meta (one_reply pepe_meta) ''reply'' [] of Inr (m', sps) \<Rightarrow> length sps = 1 | _ \<Rightarrow> False"
    by code_simp
  then obtain m' sp where "hyperliquid_meta (one_reply pepe_meta) ''reply'' [] = Inr (m', [sp])"
    by (auto simp: length_Suc_conv split: sum.splits prod.splits)
  then have l: "listed (one_reply pepe_meta) int_f64 ''reply'' [sp]" unfolding listed_def by blast
  then show ?thesis using listed_instruments_usable [OF l, of sp] by auto
qed

end
