(* ===== verification/Wal.thy ===== *)
theory Wal
  imports Prelude
begin

text \<open>
  The write-ahead log of \<open>crates/wal\<close>: the frame layout, the appending writer and the forward
  reader. A file is its list of bytes; the writer opens it in append mode, so every write goes to
  its end. \<open>crc32fast::hash\<close> is the parameter \<open>crc\<close>.

  \<open>tokio::fs::File\<close> does not wait for a write: \<open>poll_write\<close> copies at most two MiB into a buffer, hands it
  to a background thread and returns \<open>Ok\<close>; the next operation on the file first waits for that write
  and returns its error, if it failed, instead of doing its own work. \<open>ww_inflight\<close> is the buffer of the
  write under way, \<open>ww_ops\<close> counts the writes that ended, and \<open>io\<close> says how each of them ends: well, or
  with an error after some prefix. The error \<open>File\<close> keeps for later when \<open>sync_data\<close> meets a failed write
  does not arise, as the crate flushes right before it. \<open>ww_synced\<close> is the length the operating system has confirmed
  to be on stable storage.
\<close>

section \<open>Frames\<close>

datatype wal_error =
  Io string
| FrameTooLarge nat nat
| CrcMismatch nat nat nat
| Truncated nat nat nat

definition frame_header_len :: nat where "frame_header_len = 8"

definition max_frame_len :: nat where "max_frame_len = 64 * 1024 * 1024"

text \<open>\<open>to_le_bytes\<close> and \<open>from_le_bytes\<close> of a \<open>u32\<close>.\<close>

definition to_le_bytes :: "nat \<Rightarrow> byte list" where
  "to_le_bytes n = [word_of_nat n, word_of_nat (n div 256), word_of_nat (n div 65536),
     word_of_nat (n div 16777216)]"

fun from_le_bytes :: "byte list \<Rightarrow> nat" where
  "from_le_bytes [] = 0"
| "from_le_bytes (b # bs) = unat b + 256 * from_le_bytes bs"

section \<open>The writer\<close>

record wal_writer =
  ww_file :: "byte list"
  ww_inflight :: "byte list option"
  ww_ops :: nat
  ww_path :: string
  ww_bytes_written :: nat
  ww_synced :: nat

text \<open>How the background writes end: \<open>None\<close> is success.\<close>

type_synonym disk = "nat \<Rightarrow> (nat \<times> string) option"

text \<open>Waiting for the write under way: what \<open>flush\<close> does, and every \<open>poll_write\<close> first.\<close>

definition settle :: "disk \<Rightarrow> wal_writer \<Rightarrow> wal_writer \<times> (string + unit)" where
  "settle io w =
     (case ww_inflight w of
        None \<Rightarrow> (w, Inr ())
      | Some buf \<Rightarrow>
          let w1 = w\<lparr>ww_inflight := None, ww_ops := ww_ops w + 1\<rparr> in
          case io (ww_ops w) of
            None \<Rightarrow> (w1\<lparr>ww_file := ww_file w @ buf\<rparr>, Inr ())
          | Some (k, e) \<Rightarrow> (w1\<lparr>ww_file := ww_file w @ take k buf\<rparr>, Inl e))"

definition max_buf_size :: nat where "max_buf_size = 2 * 1024 * 1024"

function write_all :: "disk \<Rightarrow> byte list \<Rightarrow> wal_writer \<Rightarrow> wal_writer \<times> (string + unit)" where
  "write_all io src w =
     (if src = [] then (w, Inr ())
      else case settle io w of
        (w1, Inl e) \<Rightarrow> (w1, Inl e)
      | (w1, Inr _) \<Rightarrow>
          write_all io (drop max_buf_size src) (w1\<lparr>ww_inflight := Some (take max_buf_size src)\<rparr>))"
  by pat_completeness auto
termination
  by (relation "measure (\<lambda>(io, src, w). length src)") (auto simp: max_buf_size_def)

declare write_all.simps [simp del]

text \<open>\<open>open\<close> of an existing file, or of a new one (the empty list); nothing of it is known to be
  on stable storage yet.\<close>

definition wal_open :: "string \<Rightarrow> byte list \<Rightarrow> wal_writer" where
  "wal_open path file =
     \<lparr>ww_file = file, ww_inflight = None, ww_ops = 0, ww_path = path,
      ww_bytes_written = length file, ww_synced = 0\<rparr>"

definition wal_append ::
  "(byte list \<Rightarrow> u32w) \<Rightarrow> disk \<Rightarrow> wal_writer \<Rightarrow> byte list \<Rightarrow> wal_writer \<times> (wal_error + unit)" where
  "wal_append crc io w payload =
     (if length payload > u32_max \<or> length payload > max_frame_len
      then (w, Inl (FrameTooLarge (length payload) max_frame_len))
      else
        let header = to_le_bytes (length payload) @ to_le_bytes (unat (crc payload));
            (w1, res1) = write_all io header w
        in case res1 of
             Inl e \<Rightarrow> (w1, Inl (Io e))
           | Inr _ \<Rightarrow>
               let (w2, res2) = write_all io payload w1 in
               case res2 of
                 Inl e \<Rightarrow> (w2, Inl (Io e))
               | Inr _ \<Rightarrow>
                   (w2\<lparr>ww_bytes_written := wrap_u64 (ww_bytes_written w2 + frame_header_len + length payload)\<rparr>,
                    Inr ()))"

text \<open>\<open>flush_sync\<close>: the flush waits for the write under way; \<open>sync_data\<close> fails with the given error,
  if any.\<close>

definition flush_sync :: "disk \<Rightarrow> string option \<Rightarrow> wal_writer \<Rightarrow> wal_writer \<times> (wal_error + unit)" where
  "flush_sync io sync_fault w =
     (case settle io w of
        (w1, Inl e) \<Rightarrow> (w1, Inl (Io e))
      | (w1, Inr _) \<Rightarrow>
          (case sync_fault of
             Some e \<Rightarrow> (w1, Inl (Io e))
           | None \<Rightarrow> (w1\<lparr>ww_synced := length (ww_file w1)\<rparr>, Inr ())))"

section \<open>Crashes\<close>

text \<open>A crash of the process stops the write under way after some of its bytes.\<close>

definition inflight :: "wal_writer \<Rightarrow> byte list" where
  "inflight w = (case ww_inflight w of None \<Rightarrow> [] | Some buf \<Rightarrow> buf)"

definition crash :: "nat \<Rightarrow> wal_writer \<Rightarrow> byte list" where
  "crash j w = ww_file w @ take j (inflight w)"

text \<open>A power loss leaves any file that starts with what was synced: of the rest some parts may be
  there, others missing or filled with zeros or anything else.\<close>

definition after_power_loss :: "wal_writer \<Rightarrow> byte list \<Rightarrow> bool" where
  "after_power_loss w file \<longleftrightarrow> prefix (take (ww_synced w) (ww_file w)) file"

section \<open>The reader\<close>

record wal_reader =
  wr_data :: "byte list"
  wr_pos :: nat
  wr_offset :: nat

definition reader_open :: "byte list \<Rightarrow> wal_reader" where
  "reader_open file = \<lparr>wr_data = file, wr_pos = 0, wr_offset = 0\<rparr>"

definition reader_reset :: "wal_reader \<Rightarrow> wal_reader" where
  "reader_reset r = r\<lparr>wr_pos := 0, wr_offset := 0\<rparr>"

text \<open>\<open>read_exact\<close>: at the end of the file what is left is consumed and \<open>UnexpectedEof\<close> is \<open>None\<close>.\<close>

definition read_exact :: "nat \<Rightarrow> wal_reader \<Rightarrow> byte list option \<times> wal_reader" where
  "read_exact n r =
     (if wr_pos r + n \<le> length (wr_data r)
      then (Some (take n (drop (wr_pos r) (wr_data r))), r\<lparr>wr_pos := wr_pos r + n\<rparr>)
      else (None, r\<lparr>wr_pos := max (wr_pos r) (length (wr_data r))\<rparr>))"

definition next_frame ::
  "(byte list \<Rightarrow> u32w) \<Rightarrow> string option \<Rightarrow> string option \<Rightarrow> wal_reader
   \<Rightarrow> wal_reader \<times> (wal_error + byte list option)" where
  "next_frame crc fault1 fault2 r =
     (case fault1 of Some e \<Rightarrow> (r, Inl (Io e)) | None \<Rightarrow>
      case read_exact frame_header_len r of
        (None, r1) \<Rightarrow> (r1, Inr None)
      | (Some header, r1) \<Rightarrow>
          let len = from_le_bytes (take 4 header);
              expected_crc = from_le_bytes (drop 4 header)
          in if len > max_frame_len then (r1, Inl (FrameTooLarge len max_frame_len))
             else
               case fault2 of Some e \<Rightarrow> (r1, Inl (Io e)) | None \<Rightarrow>
               case read_exact len r1 of
                 (None, r2) \<Rightarrow>
                   (r2, Inl (Truncated (wr_offset r2) len
                      (wrapping_sub_u64 (wrapping_sub_u64 (wr_pos r2) (wr_offset r2)) frame_header_len)))
               | (Some payload, r2) \<Rightarrow>
                   let got_crc = unat (crc payload) in
                   if got_crc \<noteq> expected_crc then (r2, Inl (CrcMismatch (wr_offset r2) got_crc expected_crc))
                   else (r2\<lparr>wr_offset := wrap_u64 (wr_offset r2 + frame_header_len + len)\<rparr>,
                         Inr (Some payload)))"

section \<open>Bytes of a frame\<close>

definition wal_frame :: "(byte list \<Rightarrow> u32w) \<Rightarrow> byte list \<Rightarrow> byte list" where
  "wal_frame crc p = to_le_bytes (length p) @ to_le_bytes (unat (crc p)) @ p"

lemma length_to_le_bytes [simp]: "length (to_le_bytes n) = 4"
  by (simp add: to_le_bytes_def)

lemma to_from_le_bytes [simp]: "n < 2 ^ 32 \<Longrightarrow> from_le_bytes (to_le_bytes n) = n"
proof -
  assume n: "n < 2 ^ 32"
  have split: "m mod 256 + 256 * (m div 256) = m" for m :: nat by simp
  have d: "n div 65536 = n div 256 div 256" "n div 16777216 = n div 256 div 256 div 256"
    by (simp_all add: div_mult2_eq [symmetric])
  have "n div 256 div 256 div 256 < 256" using n by (simp add: less_mult_imp_div_less)
  then show ?thesis
    using split [of n] split [of "n div 256"] split [of "n div 256 div 256"]
    by (simp add: to_le_bytes_def unat_of_nat d take_bit_nat_def)
qed

lemma from_le_bytes_bound: "from_le_bytes bs < 256 ^ length bs"
proof (induction bs)
  case (Cons b bs)
  have "unat b < 256" using unsigned_less [of b] by simp
  then show ?case using Cons.IH by simp
qed simp

lemma from_le_bytes_inj: "length xs = length ys \<Longrightarrow> from_le_bytes xs = from_le_bytes ys \<Longrightarrow> xs = ys"
proof (induction xs ys rule: list_induct2)
  case (Cons x xs y ys)
  have b: "unat x < 256" "unat y < 256" using unsigned_less [of x] unsigned_less [of y] by simp_all
  have e: "unat x + 256 * from_le_bytes xs = unat y + 256 * from_le_bytes ys"
    using Cons.prems by simp
  have "unat x = unat y" using b arg_cong [OF e, of "\<lambda>z. z mod 256"] by simp
  then show ?case using Cons.IH e by (simp add: word_unat_eq_iff)
qed simp

lemma from_to_le_bytes:
  assumes "length bs = 4"
  shows "to_le_bytes (from_le_bytes bs) = bs"
  using from_le_bytes_bound [of bs] assms
  by (intro from_le_bytes_inj) simp_all

lemma unat_u32_less [simp]: "unat (w::u32w) < 4294967296"
  using unsigned_less [of w] by simp

lemma wal_frame_length [simp]: "length (wal_frame crc p) = 8 + length p"
  by (simp add: wal_frame_def)

section \<open>Reading a whole file\<close>

lemma next_frame_progress:
  assumes "next_frame crc None None r = (r', Inr (Some p))"
  shows "wr_data r' = wr_data r \<and> wr_pos r < wr_pos r' \<and> wr_pos r' \<le> length (wr_data r)"
  using assms
  by (auto simp: next_frame_def read_exact_def frame_header_len_def Let_def split: if_splits)

text \<open>What a recovery does: \<open>next_frame\<close> until it returns no frame.\<close>

function drain ::
  "(byte list \<Rightarrow> u32w) \<Rightarrow> wal_reader \<Rightarrow> wal_reader \<times> byte list list \<times> wal_error option" where
  "drain crc r =
     (case next_frame crc None None r of
        (r', Inr (Some p)) \<Rightarrow> (let (r'', ps, e) = drain crc r' in (r'', p # ps, e))
      | (r', Inr None) \<Rightarrow> (r', [], None)
      | (r', Inl e) \<Rightarrow> (r', [], Some e))"
  by pat_completeness auto
termination
proof (relation "measure (\<lambda>(crc, r). length (wr_data r) - wr_pos r)", goal_cases)
  case 1
  then show ?case by simp
next
  case prems: 2
  show ?case
    using prems by (auto dest!: next_frame_progress [OF sym])
qed

declare drain.simps [simp del]


definition wal_frames :: "(byte list \<Rightarrow> u32w) \<Rightarrow> byte list list \<Rightarrow> byte list" where
  "wal_frames crc ps = concat (map (wal_frame crc) ps)"

definition frames_fit :: "byte list list \<Rightarrow> bool" where
  "frames_fit ps \<longleftrightarrow> list_all (\<lambda>p. length p \<le> max_frame_len) ps"

definition at_offset :: "byte list \<Rightarrow> nat \<Rightarrow> wal_reader" where
  "at_offset file n = \<lparr>wr_data = file, wr_pos = n, wr_offset = n\<rparr>"

lemma reader_open_at: "reader_open file = at_offset file 0"
  by (simp add: reader_open_def at_offset_def)

lemma wal_frames_simps [simp]:
  "wal_frames crc [] = []" "wal_frames crc (p # ps) = wal_frame crc p @ wal_frames crc ps"
  "wal_frames crc (ps @ qs) = wal_frames crc ps @ wal_frames crc qs"
  by (simp_all add: wal_frames_def)

lemma frames_fit_simps [simp]:
  "frames_fit []" "frames_fit (p # ps) \<longleftrightarrow> length p \<le> max_frame_len \<and> frames_fit ps"
  "frames_fit (ps @ qs) \<longleftrightarrow> frames_fit ps \<and> frames_fit qs"
  by (auto simp: frames_fit_def)

text \<open>A complete frame is read back; what is read is a complete frame.\<close>

lemma next_frame_complete:
  assumes "length p \<le> max_frame_len" "length pre + 8 + length p < 2 ^ 64"
  shows "next_frame crc None None (at_offset (pre @ wal_frame crc p @ rest) (length pre)) =
    (at_offset (pre @ wal_frame crc p @ rest) (length pre + 8 + length p), Inr (Some p))"
proof -
  have "length p < 2 ^ 32" using assms(1) by (simp add: max_frame_len_def)
  then show ?thesis using assms
    by (simp add: next_frame_def read_exact_def at_offset_def frame_header_len_def Let_def
        wal_frame_def wrap_u64_def)
qed

lemma next_frame_sound:
  assumes "next_frame crc None None (at_offset file n) = (r, Inr (Some p))"
    and "n \<le> length file" "length file < 2 ^ 64"
  shows "drop n file = wal_frame crc p @ drop (n + 8 + length p) file"
    and "r = at_offset file (n + 8 + length p)"
    and "length p \<le> max_frame_len" "n + 8 + length p \<le> length file"
proof -
  define h where "h = take 8 (drop n file)"
  define len where "len = from_le_bytes (take 4 h)"
  have f: "n + 8 \<le> length file" "len \<le> max_frame_len" "n + 8 + len \<le> length file"
    "p = take len (drop (n + 8) file)" "unat (crc p) = from_le_bytes (drop 4 h)"
    "r = \<lparr>wr_data = file, wr_pos = n + 8 + len, wr_offset = wrap_u64 (n + 8 + len)\<rparr>"
    using assms(1)
    by (auto simp: next_frame_def read_exact_def at_offset_def frame_header_len_def Let_def h_def
        len_def split: if_splits)
  have len: "length p = len" using f(3,4) by simp
  show "length p \<le> max_frame_len" "n + 8 + length p \<le> length file" using f len by simp_all
  show "r = at_offset file (n + 8 + length p)"
    using f(3,6) assms(3) by (simp add: at_offset_def wrap_u64_def len)
  have "length (take 4 h) = 4" "length (drop 4 h) = 4" using f(1) by (simp_all add: h_def)
  then have "h = to_le_bytes (length p) @ to_le_bytes (unat (crc p))"
    by (simp add: f(5) len len_def from_to_le_bytes)
  moreover have "drop n file = h @ drop (n + 8) file"
    using append_take_drop_id [of 8 "drop n file"] by (simp add: h_def add.commute)
  moreover have "drop (n + 8) file = p @ drop (n + 8 + length p) file"
    using append_take_drop_id [of len "drop (n + 8) file", folded f(4)] by (simp add: len add.commute)
  ultimately show "drop n file = wal_frame crc p @ drop (n + 8 + length p) file"
    by (simp add: wal_frame_def)
qed

lemma drain_frames:
  assumes "frames_fit ps" "length pre + length (wal_frames crc ps) < 2 ^ 64"
  shows "drain crc (at_offset (pre @ wal_frames crc ps @ rest) (length pre)) =
    (let (r, qs, e) = drain crc (at_offset (pre @ wal_frames crc ps @ rest)
       (length pre + length (wal_frames crc ps))) in (r, ps @ qs, e))"
  using assms
proof (induction ps arbitrary: pre)
  case (Cons p ps)
  show ?case
    using Cons.IH [of "pre @ wal_frame crc p"] Cons.prems
      next_frame_complete [of p pre crc "wal_frames crc ps @ rest"]
    by (subst drain.simps) (simp add: add.assoc split: prod.splits)
qed simp

lemma drain_sound:
  assumes "drain crc (at_offset file n) = (r, ps, e)"
    and "n \<le> length file" "length file < 2 ^ 64"
  shows "frames_fit ps \<and> wr_offset r = n + length (wal_frames crc ps) \<and>
    drop n file = wal_frames crc ps @ drop (wr_offset r) file"
  using assms
proof (induction "length file - n" arbitrary: n r ps e rule: less_induct)
  case less
  obtain r1 res where nf: "next_frame crc None None (at_offset file n) = (r1, res)" by fastforce
  show ?case
  proof (cases "\<exists>p. res = Inr (Some p)")
    case True
    then obtain p where p: "res = Inr (Some p)" by auto
    note nx = next_frame_sound [OF nf [unfolded p] less.prems(2,3)]
    obtain ps' where d: "drain crc (at_offset file (n + 8 + length p)) = (r, ps', e)" "ps = p # ps'"
      using less.prems(1) by (subst (asm) drain.simps) (auto simp: nf p nx(2) split: prod.splits)
    show ?thesis
      using less.hyps [OF _ d(1)] nx(1,3,4) less.prems(3) d(2) by simp
  next
    case False
    then have "ps = []" "r = r1"
      using less.prems(1) by (subst (asm) drain.simps, auto simp: nf split: sum.splits option.splits)+
    moreover have "wr_offset r1 = n"
      using nf False
      by (auto simp: next_frame_def read_exact_def at_offset_def Let_def split: if_splits)
    ultimately show ?thesis by simp
  qed
qed

end
