(* ===== verification/Wal_Theorems.thy ===== *)
theory Wal_Theorems
  imports Wal "HOL-Library.Sublist"
begin

text \<open>
  What the log guarantees: a recovered file followed by new frames reads back completely, a crash
  loses at most the last acknowledged frame, what was synced survives a power loss, and a new frame
  behind a torn one is unreachable unless the tail was cut off first.
\<close>

section \<open>Appending\<close>

text \<open>A disk that never fails.\<close>

definition good_disk :: disk where
  "good_disk = (\<lambda>_. None)"

text \<open>What a writer has accepted: the file and the write under way.\<close>

definition accepted_bytes :: "wal_writer \<Rightarrow> byte list" where
  "accepted_bytes w = ww_file w @ inflight w"

lemma settle_cases:
  assumes "settle io w = (w', r)"
  shows "ww_inflight w' = None \<and> ww_path w' = ww_path w \<and> ww_bytes_written w' = ww_bytes_written w \<and>
    ww_synced w' = ww_synced w \<and> prefix (ww_file w) (ww_file w') \<and> prefix (ww_file w') (accepted_bytes w) \<and>
    (r = Inr () \<longrightarrow> ww_file w' = accepted_bytes w)"
  using assms
  by (auto simp: settle_def accepted_bytes_def inflight_def Let_def take_is_prefix split: option.splits)

lemma settle_good: "\<exists>w'. settle good_disk w = (w', Inr ())"
  by (simp add: settle_def good_disk_def Let_def split: option.split)

text \<open>
  A \<open>write_all\<close> that returns \<open>Ok\<close> has had every earlier write end well, and its own last piece under
  way; one that fails has written part of what was accepted and of its own bytes, and nothing is
  under way.
\<close>

definition wrote :: "byte list \<Rightarrow> wal_writer \<Rightarrow> wal_writer \<Rightarrow> string + unit \<Rightarrow> bool" where
  "wrote src w w' r \<longleftrightarrow>
     ww_path w' = ww_path w \<and> ww_bytes_written w' = ww_bytes_written w \<and> ww_synced w' = ww_synced w \<and>
     prefix (ww_file w) (ww_file w') \<and>
     (case r of
        Inr _ \<Rightarrow> accepted_bytes w' = accepted_bytes w @ src \<and> (src \<noteq> [] \<longrightarrow> prefix (accepted_bytes w) (ww_file w'))
      | Inl _ \<Rightarrow> inflight w' = [] \<and> prefix (ww_file w') (accepted_bytes w @ src))"

lemma write_all_wrote: "write_all io src w = (w', r) \<Longrightarrow> wrote src w w' r"
proof (induction io src w arbitrary: w' r rule: write_all.induct)
  case (1 io src w)
  show ?case
  proof (cases "src = []")
    case True
    then show ?thesis using "1.prems" by (auto simp: write_all.simps [of io "[]"] wrote_def)
  next
    case False
    obtain w1 r1 where s: "settle io w = (w1, r1)" by fastforce
    note c = settle_cases [OF s]
    show ?thesis
    proof (cases r1)
      case (Inl e)
      then have "w' = w1" "r = Inl e" using "1.prems" False s by (simp_all add: write_all.simps [of io src])
      then show ?thesis using c by (auto simp: wrote_def inflight_def intro: prefix_order.trans)
    next
      case (Inr u)
      let ?w2 = "w1\<lparr>ww_inflight := Some (take max_buf_size src)\<rparr>"
      have "write_all io (drop max_buf_size src) ?w2 = (w', r)"
        using "1.prems" False s Inr by (simp add: write_all.simps [of io src])
      then have IH: "wrote (drop max_buf_size src) ?w2 w' r" using "1.IH" [OF False s [symmetric] Inr] by blast
      have f: "ww_file w1 = accepted_bytes w" using c Inr by (cases u) simp
      have acc: "accepted_bytes ?w2 = accepted_bytes w @ take max_buf_size src"
        by (simp add: accepted_bytes_def [of ?w2] inflight_def f)
      have "prefix (ww_file w) (ww_file w1)" using c by blast
      moreover have "(accepted_bytes w @ take max_buf_size src) @ drop max_buf_size src = accepted_bytes w @ src"
        by simp
      moreover have "prefix (accepted_bytes w) x" if "prefix (accepted_bytes w @ take max_buf_size src) x" for x
        using that by (auto simp: prefix_def)
      ultimately show ?thesis
        using IH c unfolding wrote_def acc
        by (auto simp: f simp del: append_assoc split: sum.splits intro: prefix_order.trans)
    qed
  qed
qed

lemma write_all_good: "\<exists>w'. write_all good_disk src w = (w', Inr ())"
proof (induction good_disk src w rule: write_all.induct)
  case (1 src w)
  obtain w1 where "settle good_disk w = (w1, Inr ())" using settle_good by blast
  then show ?case
    using 1 by (cases "src = []") (simp_all add: write_all.simps [of good_disk "[]"] write_all.simps [of good_disk src])
qed

text \<open>The same of an append: the bytes are those of its frame.\<close>

lemma append_cases:
  assumes "wal_append crc io w p = (w', r)"
  shows "(r = Inr () \<and> length p \<le> max_frame_len \<and> accepted_bytes w' = accepted_bytes w @ wal_frame crc p \<and>
      prefix (accepted_bytes w) (ww_file w') \<and> ww_path w' = ww_path w \<and> ww_synced w' = ww_synced w \<and>
      ww_bytes_written w' = wrap_u64 (ww_bytes_written w + 8 + length p))
    \<or> (\<exists>e. r = Inl (Io e) \<and> length p \<le> max_frame_len \<and> inflight w' = [] \<and> prefix (ww_file w) (ww_file w') \<and>
      prefix (ww_file w') (accepted_bytes w @ wal_frame crc p) \<and> ww_synced w' = ww_synced w)
    \<or> (r = Inl (FrameTooLarge (length p) max_frame_len) \<and> w' = w \<and> max_frame_len < length p)"
proof (cases "length p \<le> max_frame_len")
  case False
  then show ?thesis using assms by (auto simp: wal_append_def)
next
  case True
  let ?h = "to_le_bytes (length p) @ to_le_bytes (unat (crc p))"
  have small: "\<not> u32_max < length p" "\<not> max_frame_len < length p"
    using True by (simp_all add: u32_max_def max_frame_len_def)
  obtain w1 r1 where h: "write_all io ?h w = (w1, r1)" by fastforce
  note wh = write_all_wrote [OF h, unfolded wrote_def]
  show ?thesis
  proof (cases r1)
    case (Inl e)
    then have "w' = w1" "r = Inl (Io e)" using assms h small by (simp_all add: wal_append_def)
    moreover have "prefix (accepted_bytes w @ ?h) (accepted_bytes w @ wal_frame crc p)" by (simp add: wal_frame_def)
    ultimately show ?thesis using wh Inl True by (auto intro: prefix_order.trans)
  next
    case (Inr u)
    obtain w2 r2 where b: "write_all io p w1 = (w2, r2)" by fastforce
    note wb = write_all_wrote [OF b, unfolded wrote_def]
    have ne: "?h \<noteq> []" by (simp add: to_le_bytes_def)
    have frame: "accepted_bytes w1 @ p = accepted_bytes w @ wal_frame crc p"
      using wh Inr by (simp add: wal_frame_def)
    have first: "prefix (accepted_bytes w) (ww_file w1)" using wh Inr ne by simp
    show ?thesis
    proof (cases r2)
      case (Inl e)
      then have "w' = w2" "r = Inl (Io e)" using assms h b \<open>r1 = Inr u\<close> small by (simp_all add: wal_append_def)
      then show ?thesis using wh wb Inl True frame by (auto intro: prefix_order.trans)
    next
      case (Inr v)
      then have "w' = w2\<lparr>ww_bytes_written := wrap_u64 (ww_bytes_written w2 + frame_header_len + length p)\<rparr>" "r = Inr ()"
        using assms h b \<open>r1 = Inr u\<close> small by (simp_all add: wal_append_def)
      moreover from this have "accepted_bytes w' = accepted_bytes w2" "ww_file w' = ww_file w2"
          "ww_path w' = ww_path w2" "ww_synced w' = ww_synced w2"
        by (simp_all add: accepted_bytes_def inflight_def)
      ultimately show ?thesis
        using wh wb Inr \<open>r1 = Inr u\<close> True frame prefix_order.trans [OF first] by (simp add: frame_header_len_def)
    qed
  qed
qed

section \<open>Runs of appends\<close>

text \<open>Appends up to the first that fails: the payloads acknowledged, and the error.\<close>

fun append_run ::
  "(byte list \<Rightarrow> u32w) \<Rightarrow> disk \<Rightarrow> wal_writer \<Rightarrow> byte list list \<Rightarrow> wal_writer \<times> byte list list \<times> wal_error option" where
  "append_run crc io w [] = (w, [], None)"
| "append_run crc io w (p # ps) =
     (case wal_append crc io w p of
        (w1, Inl e) \<Rightarrow> (w1, [], Some e)
      | (w1, Inr _) \<Rightarrow> (let (w2, acked, e) = append_run crc io w1 ps in (w2, p # acked, e)))"

text \<open>The payload whose append met an error of the disk, if any.\<close>

fun refused_payload :: "byte list list \<Rightarrow> byte list list \<Rightarrow> wal_error option \<Rightarrow> byte list list" where
  "refused_payload ps acked (Some (Io e)) = take 1 (drop (length acked) ps)"
| "refused_payload ps acked _ = []"

lemma append_run_bytes:
  assumes "append_run crc io w ps = (w', acked, err)"
  shows "frames_fit (acked @ refused_payload ps acked err) \<and> prefix (acked @ refused_payload ps acked err) ps \<and>
    (err = None \<longrightarrow> acked = ps \<and> accepted_bytes w' = accepted_bytes w @ wal_frames crc acked) \<and>
    prefix (ww_file w) (ww_file w') \<and>
    prefix (accepted_bytes w') (accepted_bytes w @ wal_frames crc (acked @ refused_payload ps acked err)) \<and>
    (acked \<noteq> [] \<longrightarrow> prefix (accepted_bytes w @ wal_frames crc (butlast acked)) (ww_file w')) \<and>
    ww_synced w' = ww_synced w"
  using assms
proof (induction ps arbitrary: w acked)
  case Nil
  then show ?case by simp
next
  case (Cons p ps)
  obtain w1 r where a: "wal_append crc io w p = (w1, r)" by fastforce
  show ?case
  proof (cases r)
    case (Inl e)
    then have r: "w' = w1" "acked = []" "err = Some e" using Cons.prems a by simp_all
    show ?thesis
      using append_cases [OF a] Inl unfolding r
      by (auto simp: accepted_bytes_def [of w1] accepted_bytes_def [of w] frames_fit_def intro: prefixI)
  next
    case (Inr u)
    then obtain acked' where run: "append_run crc io w1 ps = (w', acked', err)" and acked: "acked = p # acked'"
      using Cons.prems a by (auto split: prod.splits)
    note IH = Cons.IH [OF run]
    have ok: "length p \<le> max_frame_len" "accepted_bytes w1 = accepted_bytes w @ wal_frame crc p"
        "prefix (accepted_bytes w) (ww_file w1)" "ww_synced w1 = ww_synced w"
      using append_cases [OF a] Inr by auto
    have ref: "refused_payload (p # ps) acked err = refused_payload ps acked' err"
      unfolding acked by (cases err; cases "the err") simp_all
    have "prefix (ww_file w) (ww_file w1)" using ok(3) by (auto simp: accepted_bytes_def elim: prefix_order.trans [rotated])
    moreover have "prefix (accepted_bytes w @ wal_frames crc (butlast acked)) (ww_file w')"
      using IH ok(2,3) unfolding acked by (cases "acked' = []") (auto intro: prefix_order.trans)
    ultimately show ?thesis
      using IH ok unfolding acked ref [unfolded acked] by (auto intro: prefix_order.trans)
  qed
qed

text \<open>Appends on a disk that never fails, and a flush.\<close>

definition append_all :: "(byte list \<Rightarrow> u32w) \<Rightarrow> wal_writer \<Rightarrow> byte list list \<Rightarrow> wal_writer" where
  "append_all crc w ps = fst (settle good_disk (fst (append_run crc good_disk w ps)))"

lemma append_good:
  assumes "length p \<le> max_frame_len"
  shows "\<exists>w'. wal_append crc good_disk w p = (w', Inr ())"
proof -
  have small: "\<not> u32_max < length p" "\<not> max_frame_len < length p"
    using assms by (simp_all add: u32_max_def max_frame_len_def)
  obtain w1 where "write_all good_disk (to_le_bytes (length p) @ to_le_bytes (unat (crc p))) w = (w1, Inr ())"
    using write_all_good by blast
  moreover obtain w2 where "write_all good_disk p w1 = (w2, Inr ())" using write_all_good by blast
  ultimately show ?thesis using small by (simp add: wal_append_def)
qed

lemma append_run_good: "frames_fit ps \<Longrightarrow> \<exists>w'. append_run crc good_disk w ps = (w', ps, None)"
proof (induction ps arbitrary: w)
  case (Cons p ps)
  obtain w1 where "wal_append crc good_disk w p = (w1, Inr ())" using append_good [of p crc w] Cons.prems by auto
  then show ?case using Cons.IH [of w1] Cons.prems by auto
qed simp

lemma append_all_file:
  assumes "frames_fit ps"
  shows "ww_file (append_all crc w ps) = accepted_bytes w @ wal_frames crc ps"
proof -
  obtain w1 where r: "append_run crc good_disk w ps = (w1, ps, None)" using append_run_good [OF assms] by blast
  obtain w2 where s: "settle good_disk w1 = (w2, Inr ())" using settle_good by blast
  show ?thesis
    using settle_cases [OF s] append_run_bytes [OF r] by (simp add: append_all_def r s)
qed

lemma append_run_written:
  assumes "append_run crc io w ps = (w', acked, err)" "ww_bytes_written w + length (wal_frames crc acked) < 2 ^ 64" "err = None"
  shows "ww_bytes_written w' = ww_bytes_written w + length (wal_frames crc acked)"
  using assms
proof (induction ps arbitrary: w acked)
  case (Cons p ps)
  then obtain w1 acked' where a: "wal_append crc io w p = (w1, Inr ())"
      and run: "append_run crc io w1 ps = (w', acked', err)" and acked: "acked = p # acked'"
    by (auto split: prod.splits sum.splits)
  have "ww_bytes_written w1 = ww_bytes_written w + 8 + length p"
    using append_cases [OF a] Cons.prems(2) by (auto simp: acked wrap_u64_def)
  then show ?case using Cons.IH [OF run] Cons.prems(2,3) by (simp add: acked)
qed simp

lemma append_all_bytes:
  assumes "frames_fit ps" "ww_bytes_written w = length (accepted_bytes w)"
    and "length (accepted_bytes w) + length (wal_frames crc ps) < 2 ^ 64"
  shows "ww_bytes_written (append_all crc w ps) = length (ww_file (append_all crc w ps))"
proof -
  obtain w1 where r: "append_run crc good_disk w ps = (w1, ps, None)" using append_run_good [OF assms(1)] by blast
  obtain w2 where s: "settle good_disk w1 = (w2, Inr ())" using settle_good by blast
  have "ww_bytes_written w2 = ww_bytes_written w + length (wal_frames crc ps)"
    using settle_cases [OF s] append_run_written [OF r] assms(2,3) by simp
  then show ?thesis using append_all_file [OF assms(1), of crc w] assms(2) by (simp add: append_all_def r s)
qed

section \<open>Ends of a file\<close>

lemma drain_end: "drain crc (at_offset file (length file)) = (at_offset file (length file), [], None)"
  by (subst drain.simps) (simp add: next_frame_def read_exact_def at_offset_def frame_header_len_def)

lemma drain_all_frames:
  assumes "frames_fit ps" "length (wal_frames crc ps) < 2 ^ 64"
  shows "drain crc (reader_open (wal_frames crc ps)) =
    (at_offset (wal_frames crc ps) (length (wal_frames crc ps)), ps, None)"
  using drain_frames [of ps "[]" crc "[]"] assms by (simp add: reader_open_at drain_end)

text \<open>A frame cut short: nothing when not even its header is there, an error otherwise.\<close>

lemma take_wal_frame:
  "8 \<le> k \<Longrightarrow> take k (wal_frame crc p) = to_le_bytes (length p) @ to_le_bytes (unat (crc p)) @ take (k - 8) p"
  by (simp add: wal_frame_def)

lemma drain_torn:
  assumes "length p \<le> max_frame_len" "k < 8 + length p" "length pre + 8 + length p < 2 ^ 64"
  shows "\<exists>r. drain crc (at_offset (pre @ take k (wal_frame crc p)) (length pre)) =
    (r, [], if k < 8 then None else Some (Truncated (length pre) (length p) (k - 8))) \<and>
    wr_offset r = length pre"
proof (cases "k < 8")
  case True
  then show ?thesis
    by (subst drain.simps)
      (simp add: next_frame_def read_exact_def at_offset_def frame_header_len_def min_def)
next
  case False
  have p: "length p < 2 ^ 32" using assms(1) by (simp add: max_frame_len_def)
  have short: "\<not> length p \<le> k - 8" using assms(2) False by simp
  have "wrapping_sub_u64 (wrapping_sub_u64 (length pre + k) (length pre)) 8 = k - 8"
    using assms(2,3) False by (simp add: wrapping_sub_u64_def nat_mod_distrib)
  then show ?thesis using False assms p short
    by (subst drain.simps)
      (simp add: next_frame_def read_exact_def at_offset_def frame_header_len_def Let_def
        take_wal_frame min_def)
qed

text \<open>A complete frame with a payload whose checksum is not the one in the header.\<close>

lemma drain_bad_crc:
  assumes "length p \<le> max_frame_len" "length q = length p" "length pre + 8 + length p < 2 ^ 64"
    and "crc q \<noteq> crc p"
  shows "\<exists>r. drain crc (at_offset (pre @ to_le_bytes (length p) @ to_le_bytes (unat (crc p)) @ q @ rest)
      (length pre)) =
    (r, [], Some (CrcMismatch (length pre) (unat (crc q)) (unat (crc p)))) \<and> wr_offset r = length pre"
proof -
  have p: "length p < 2 ^ 32" using assms(1) by (simp add: max_frame_len_def)
  have u: "unat (crc q) \<noteq> unat (crc p)" using assms(4) by (simp add: word_unat_eq_iff)
  show ?thesis using assms p u
    by (subst drain.simps)
      (simp add: next_frame_def read_exact_def at_offset_def frame_header_len_def Let_def)
qed


section \<open>Theorems\<close>

text \<open>A checksum for the witnesses: the sum of the bytes.\<close>

definition sum_crc :: "byte list \<Rightarrow> u32w" where
  "sum_crc p = word_of_nat (sum_list (map unat p))"

text \<open>What a recovery of a file returns.\<close>

definition recovered :: "(byte list \<Rightarrow> u32w) \<Rightarrow> byte list \<Rightarrow> byte list list" where
  "recovered crc file = fst (snd (drain crc (reader_open file)))"



text \<open>C12: Whatever a log file holds after a crash, what the reader returns is exactly the frames in
  front of the offset it reports; a writer opened on the file cut at that offset appends frames
  such that, after a flush, a later recovery returns the old and the new frames, in order, and ends
  cleanly.\<close>

theorem wal_recovery:
  fixes path :: string
  assumes "drain crc (reader_open file) = (r, ps, err)" and "frames_fit qs"
    and "length file + length (wal_frames crc qs) < 2 ^ 64"
  defines "w \<equiv> append_all crc (wal_open path (take (wr_offset r) file)) qs"
  shows "take (wr_offset r) file = wal_frames crc ps \<and>
    drain crc (reader_open (ww_file w)) =
      (at_offset (ww_file w) (ww_bytes_written w), ps @ qs, None)"
proof (intro conjI)
  let ?w0 = "wal_open path (take (wr_offset r) file)"
  have s: "frames_fit ps" "wr_offset r = length (wal_frames crc ps)"
    "file = wal_frames crc ps @ drop (wr_offset r) file"
    using drain_sound [OF assms(1) [unfolded reader_open_at], unfolded add_0 drop_0] assms(3) by auto
  show t: "take (wr_offset r) file = wal_frames crc ps" using s by (metis append_eq_conv_conj)
  have "length (wal_frames crc ps) \<le> length file" using t by (metis length_take min.cobounded1)
  then have fit: "length (wal_frames crc (ps @ qs)) < 2 ^ 64" using assms(3) by simp
  have acc: "accepted_bytes ?w0 = wal_frames crc ps" "ww_bytes_written ?w0 = length (accepted_bytes ?w0)"
    by (simp_all add: accepted_bytes_def inflight_def wal_open_def t)
  have wf: "ww_file w = wal_frames crc (ps @ qs)"
    using append_all_file [OF assms(2), of crc ?w0] acc by (simp add: w_def)
  have "ww_bytes_written w = length (ww_file w)"
    using append_all_bytes [OF assms(2) acc(2), of crc] fit acc(1) by (simp add: w_def)
  then show "drain crc (reader_open (ww_file w)) =
      (at_offset (ww_file w) (ww_bytes_written w), ps @ qs, None)"
    using drain_all_frames [of "ps @ qs" crc] s(1) assms(2) fit by (simp add: wf)
qed

lemma wal_recovery_witness:
  "drain sum_crc (reader_open (ww_file (append_all sum_crc
      (wal_open ''wal'' (take 0 [1, 0, 0])) [[7, 8], [9]]))) =
    (at_offset (wal_frames sum_crc [[7, 8], [9]]) 19, [[7, 8], [9]], None)"
proof -
  have d: "drain sum_crc (reader_open [1, 0, 0]) = (\<lparr>wr_data = [1, 0, 0], wr_pos = 3, wr_offset = 0\<rparr>, [], None)"
    by (subst drain.simps)
      (simp add: next_frame_def read_exact_def reader_open_def frame_header_len_def)
  let ?w = "append_all sum_crc (wal_open ''wal'' []) [[7, 8], [9]]"
  have fit: "frames_fit [[7, 8], [9 :: byte]]" by (simp add: max_frame_len_def)
  have "ww_file ?w = wal_frames sum_crc [[7, 8], [9]]" "ww_bytes_written ?w = 19"
    using append_all_file [OF fit, of sum_crc "wal_open ''wal'' []"] append_all_bytes [OF fit, of "wal_open ''wal'' []" sum_crc]
    by (simp_all add: accepted_bytes_def inflight_def wal_open_def)
  then show ?thesis
    using wal_recovery [OF d fit, of "''wal''"] by simp
qed


text \<open>A disk that is full at its fourth write, the payload of the second frame: both appends are
  acknowledged, the third meets the error, and the second frame is lost.\<close>

lemma write_all_short:
  assumes "src \<noteq> []" "length src \<le> max_buf_size"
  shows "write_all io src w = (case settle io w of (w1, Inl e) \<Rightarrow> (w1, Inl e)
    | (w1, Inr _) \<Rightarrow> (w1\<lparr>ww_inflight := Some src\<rparr>, Inr ()))"
  using assms by (simp add: write_all.simps [of io src] write_all.simps [of io "[]"] split: prod.split sum.split)







section \<open>What a torn tail hides\<close>

text \<open>A file that ends inside a frame header reads like one that ends cleanly.\<close>

lemma wal_torn_header_silent:
  assumes "frames_fit ps" "length p \<le> max_frame_len" "0 < k" "k < 8"
    and "length (wal_frames crc ps) + 8 + length p < 2 ^ 64"
  shows "\<exists>r. drain crc (reader_open (wal_frames crc ps @ take k (wal_frame crc p))) = (r, ps, None) \<and>
    wr_offset r < length (wal_frames crc ps @ take k (wal_frame crc p))"
  using drain_torn [OF assms(2), of k "wal_frames crc ps" crc] assms
    drain_frames [of ps "[]" crc "take k (wal_frame crc p)"]
  by (auto simp: reader_open_at)

text \<open>A crash while a payload of one buffer is written leaves it torn at any point.\<close>

lemma crash_tears_payload:
  assumes "frames_fit ps" "p \<noteq> []" "length p \<le> max_buf_size"
  shows "\<exists>w. append_run crc good_disk (wal_open path []) (ps @ [p]) = (w, ps @ [p], None) \<and>
    crash k w = wal_frames crc ps @ take (8 + k) (wal_frame crc p)"
proof -
  let ?h = "to_le_bytes (length p) @ to_le_bytes (unat (crc p))"
  have run: "append_run crc io w (ps @ [p]) = (let (w1, acked, e) = append_run crc io w ps in
      case e of Some e' \<Rightarrow> (w1, acked, Some e')
      | None \<Rightarrow> (let (w2, last, e2) = append_run crc io w1 [p] in (w2, acked @ last, e2)))" for io w
    by (induction ps arbitrary: w) (auto simp: Let_def split: prod.splits sum.splits option.splits)
  obtain w1 where 1: "append_run crc good_disk (wal_open path []) ps = (w1, ps, None)"
    using append_run_good [OF assms(1)] by blast
  obtain w2 where 2: "settle good_disk w1 = (w2, Inr ())" using settle_good by blast
  have small: "\<not> u32_max < length p" "\<not> max_frame_len < length p"
    using assms(3) by (simp_all add: u32_max_def max_frame_len_def max_buf_size_def)
  have f: "ww_file w2 = wal_frames crc ps" "ww_inflight w2 = None"
    using settle_cases [OF 2] append_run_bytes [OF 1] by (simp_all add: accepted_bytes_def inflight_def wal_open_def)
  have "?h \<noteq> []" "length ?h \<le> max_buf_size" by (simp_all add: to_le_bytes_def max_buf_size_def)
  then have "write_all good_disk ?h w1 = (w2\<lparr>ww_inflight := Some ?h\<rparr>, Inr ())"
    using write_all_short [of ?h good_disk w1] 2 by simp
  then obtain w3 where "wal_append crc good_disk w1 p = (w3, Inr ())" "ww_file w3 = wal_frames crc ps @ ?h" "ww_inflight w3 = Some p"
    using write_all_short [OF assms(2,3), of good_disk "w2\<lparr>ww_inflight := Some ?h\<rparr>"] small
    by (simp add: wal_append_def settle_def good_disk_def Let_def f)
  then show ?thesis
    by (simp add: run 1 crash_def inflight_def take_wal_frame)
qed

text \<open>C40: A writer opened on a file whose last payload is torn acknowledges its appends, and yet
  recovery, even after a flush, stops in front of the torn frame with a checksum error (unless the
  checksum of the mixed payload collides): the tail has to be cut off first, as \<open>open\<close> itself does
  not.\<close>

theorem wal_torn_tail_hides_appends:
  fixes path :: string
  assumes "frames_fit ps" "length p \<le> max_frame_len" "length q \<le> max_frame_len"
    and "k < length p" "length p - k \<le> 8 + length q"
    and "length (wal_frames crc ps) + 8 + length p < 2 ^ 64"
    and "crc (take k p @ take (length p - k) (wal_frame crc q)) \<noteq> crc p"
  defines "torn \<equiv> wal_frames crc ps @ take (8 + k) (wal_frame crc p)"
  defines "again \<equiv> append_all crc (wal_open path torn) [q]"
  shows "(\<exists>w. append_run crc good_disk (wal_open path torn) [q] = (w, [q], None)) \<and>
    recovered crc (ww_file again) = ps \<and>
    (\<exists>got. snd (snd (drain crc (reader_open (ww_file again)))) =
      Some (CrcMismatch (length (wal_frames crc ps)) got (unat (crc p))))"
proof (intro conjI)
  define mix where "mix = take k p @ take (length p - k) (wal_frame crc q)"
  define rest where "rest = drop (length p - k) (wal_frame crc q)"
  have fit: "frames_fit [q]" using assms(3) by simp
  have "ww_file again = torn @ wal_frame crc q"
    using append_all_file [OF fit, of crc "wal_open path torn"]
    by (simp add: again_def accepted_bytes_def inflight_def wal_open_def)
  then have f: "ww_file again = wal_frames crc ps @ to_le_bytes (length p) @
      to_le_bytes (unat (crc p)) @ mix @ rest"
    by (simp add: torn_def take_wal_frame mix_def rest_def)
  show "\<exists>w. append_run crc good_disk (wal_open path torn) [q] = (w, [q], None)" by (rule append_run_good [OF fit])
  have len: "length mix = length p" using assms(4,5) by (simp add: mix_def)
  have ne: "crc mix \<noteq> crc p" using assms(7) by (simp add: mix_def)
  have "\<exists>r. drain crc (at_offset (ww_file again) (length (wal_frames crc ps))) =
      (r, [], Some (CrcMismatch (length (wal_frames crc ps)) (unat (crc mix)) (unat (crc p))))"
    using drain_bad_crc [OF assms(2) len assms(6) ne, of rest] unfolding f by blast
  then show "recovered crc (ww_file again) = ps"
    and "\<exists>got. snd (snd (drain crc (reader_open (ww_file again)))) =
      Some (CrcMismatch (length (wal_frames crc ps)) got (unat (crc p)))"
    using drain_frames [of ps "[]" crc "drop (length (wal_frames crc ps)) (ww_file again)"] assms(1,6)
    by (auto simp: f reader_open_at recovered_def)
qed

lemma wal_torn_tail_hides_appends_witness:
  "\<exists>w. append_run sum_crc good_disk (wal_open ''wal'' []) [[7, 8], [5, 6]] = (w, [[7, 8], [5, 6]], None) \<and>
     recovered sum_crc (ww_file (append_all sum_crc (wal_open ''wal'' (crash 1 w)) [[9]])) = [[7, 8]]"
proof -
  have fit: "frames_fit [[7, 8 :: byte]]" by (simp add: max_frame_len_def)
  obtain w where w: "append_run sum_crc good_disk (wal_open ''wal'' []) ([[7, 8]] @ [[5, 6]]) = (w, [[7, 8]] @ [[5, 6]], None)"
      "crash 1 w = wal_frames sum_crc [[7, 8]] @ take (8 + 1) (wal_frame sum_crc [5, 6])"
    using crash_tears_payload [OF fit, of "[5, 6]" sum_crc "''wal''" 1] by (auto simp: max_buf_size_def)
  have "unat (1 :: u32w) = 1" "unat (5 :: byte) = 5" "unat (6 :: byte) = 6" by simp_all
  then have "sum_crc (take 1 [5, 6] @ take (length [5, 6 :: byte] - 1) (wal_frame sum_crc [9])) \<noteq> sum_crc [5, 6]"
    by (simp add: wal_frame_def to_le_bytes_def sum_crc_def)
  then have "recovered sum_crc (ww_file (append_all sum_crc (wal_open ''wal''
      (wal_frames sum_crc [[7, 8]] @ take (8 + 1) (wal_frame sum_crc [5, 6]))) [[9]])) = [[7, 8]]"
    using wal_torn_tail_hides_appends [of "[[7, 8]]" "[5, 6]" "[9]" 1 sum_crc "''wal''"]
    by (simp add: max_frame_len_def)
  then show ?thesis using w by (intro exI [of _ w]) simp
qed

end
