(* ===== verification/Cluster_Bus.thy ===== *)
theory Cluster_Bus
  imports Aggregator_Props
begin

text \<open>
  The fan-out hub of \<open>crates/cluster-engine/src/bus.rs\<close> and the loop of \<open>task.rs\<close> that drives
  one aggregator. \<open>tokio::sync::broadcast\<close> is not part of the repository: a channel is of any
  type \<open>'ch\<close>, a receiver of any type \<open>'rx\<close>, and the three operations the hub calls are a record.
  What \<open>select!\<close> delivers next is an event; the loop is a run over a list of events. Every hub of the
  program is made by \<open>ClusterBus::new\<close>, whose capacity \<open>broadcast::channel\<close> accepts.
\<close>

section \<open>The hub\<close>

record ('ch, 'rx) broadcast_api =
  bc_channel :: "nat \<Rightarrow> 'ch"
  bc_send :: "'ch \<Rightarrow> cluster_frame \<Rightarrow> 'ch"
  bc_subscribe :: "'ch \<Rightarrow> 'ch \<times> 'rx"

record 'ch cluster_bus =
  bus_channels :: "(stream_key \<times> 'ch) list"
  bus_capacity :: nat

definition default_channel_capacity :: nat where "default_channel_capacity = 4096"

definition bus_with_capacity :: "nat \<Rightarrow> 'ch cluster_bus" where
  "bus_with_capacity capacity = \<lparr>bus_channels = [], bus_capacity = capacity\<rparr>"

definition bus_new :: "'ch cluster_bus" where
  "bus_new = bus_with_capacity default_channel_capacity"

text \<open>The handle of a key's channel, which is made on the first use of the key.\<close>

definition sender_for ::
  "('ch, 'rx) broadcast_api \<Rightarrow> 'ch cluster_bus \<Rightarrow> stream_key \<Rightarrow> 'ch cluster_bus \<times> 'ch" where
  "sender_for B bus key =
     (case map_of (bus_channels bus) key of
        Some existing \<Rightarrow> (bus, existing)
      | None \<Rightarrow>
          let ch = bc_channel B (bus_capacity bus)
          in (bus\<lparr>bus_channels := AList.update key ch (bus_channels bus)\<rparr>, ch))"

definition publish ::
  "('ch, 'rx) broadcast_api \<Rightarrow> 'ch cluster_bus \<Rightarrow> stream_key \<Rightarrow> cluster_frame \<Rightarrow> 'ch cluster_bus" where
  "publish B bus key frame =
     (let (bus1, sender) = sender_for B bus key
      in bus1\<lparr>bus_channels := AList.update key (bc_send B sender frame) (bus_channels bus1)\<rparr>)"

definition subscribe ::
  "('ch, 'rx) broadcast_api \<Rightarrow> 'ch cluster_bus \<Rightarrow> stream_key \<Rightarrow> 'ch cluster_bus \<times> 'rx" where
  "subscribe B bus key =
     (let (bus1, sender) = sender_for B bus key;
          (sender1, rx) = bc_subscribe B sender
      in (bus1\<lparr>bus_channels := AList.update key sender1 (bus_channels bus1)\<rparr>, rx))"

definition active_keys :: "'ch cluster_bus \<Rightarrow> nat" where
  "active_keys bus = length (bus_channels bus)"

text \<open>The channel a key has, or will have when it is first used.\<close>

definition channel_of :: "('ch, 'rx) broadcast_api \<Rightarrow> 'ch cluster_bus \<Rightarrow> stream_key \<Rightarrow> 'ch" where
  "channel_of B bus key =
     (case map_of (bus_channels bus) key of Some ch \<Rightarrow> ch | None \<Rightarrow> bc_channel B (bus_capacity bus))"

definition bus_keys :: "'ch cluster_bus \<Rightarrow> stream_key set" where
  "bus_keys bus = fst ` set (bus_channels bus)"

lemma publish_channel:
  "channel_of B (publish B bus key f) k =
     (if k = key then bc_send B (channel_of B bus key) f else channel_of B bus k)"
  by (simp add: publish_def sender_for_def channel_of_def Let_def update_conv' split: option.split)

lemma publish_keys: "bus_keys (publish B bus key f) = insert key (bus_keys bus)"
  by (simp add: publish_def sender_for_def bus_keys_def Let_def dom_update split: option.split)

lemma publish_capacity [simp]: "bus_capacity (publish B bus key f) = bus_capacity bus"
  by (simp add: publish_def sender_for_def Let_def split: option.split)

lemma subscribe_channel:
  "channel_of B (fst (subscribe B bus key)) k =
     (if k = key then fst (bc_subscribe B (channel_of B bus key)) else channel_of B bus k)"
  by (simp add: subscribe_def sender_for_def channel_of_def Let_def update_conv' case_prod_beta
      split: option.split)

section \<open>The loop around an aggregator\<close>

datatype task_event =
  TradeReceived trade_print
| ChannelClosed
| TickerFires i64
| PartialFires
| StatsFires

record 'ch task_state =
  tk_agg :: aggregator
  tk_bus :: "'ch cluster_bus"
  tk_last_late :: nat
  tk_warnings :: "(nat \<times> nat) list"

definition publish_frame ::
  "('ch, 'rx) broadcast_api \<Rightarrow> stream_key \<Rightarrow> 'ch task_state \<Rightarrow> aggregator \<times> cluster_frame option
   \<Rightarrow> 'ch task_state" where
  "publish_frame B key st r =
     (case r of
        (a, None) \<Rightarrow> st\<lparr>tk_agg := a\<rparr>
      | (a, Some frame) \<Rightarrow> st\<lparr>tk_agg := a, tk_bus := publish B (tk_bus st) key frame\<rparr>)"

text \<open>One turn of the loop; the flag says that the loop ends.\<close>

fun task_step ::
  "('ch, 'rx) broadcast_api \<Rightarrow> stream_key \<Rightarrow> 'ch task_state \<Rightarrow> task_event
   \<Rightarrow> ('ch task_state \<times> bool) option" where
  "task_step B key st (TradeReceived t) =
     map_option (\<lambda>r. (publish_frame B key st r, False)) (ingest (tk_agg st) t)"
| "task_step B key st ChannelClosed = Some (publish_frame B key st (flush (tk_agg st)), True)"
| "task_step B key st (TickerFires now) =
     map_option (\<lambda>r. (publish_frame B key st r, False)) (tick (tk_agg st) now)"
| "task_step B key st PartialFires =
     map_option (\<lambda>r. (publish_frame B key st r, False)) (current_window_delta (tk_agg st))"
| "task_step B key st StatsFires =
     (let late = ag_dropped_late (tk_agg st) in
      Some (if late > tk_last_late st
            then st\<lparr>tk_last_late := late, tk_warnings := tk_warnings st @ [(late, late - tk_last_late st)]\<rparr>
            else st, False))"

fun run_aggregator ::
  "('ch, 'rx) broadcast_api \<Rightarrow> stream_key \<Rightarrow> 'ch task_state \<Rightarrow> task_event list
   \<Rightarrow> 'ch task_state option" where
  "run_aggregator B key st [] = Some st"
| "run_aggregator B key st (e # es) =
     Option.bind (task_step B key st e) (\<lambda>(st', ends).
       if ends then Some st' else run_aggregator B key st' es)"

definition task_start :: "aggregator \<Rightarrow> 'ch cluster_bus \<Rightarrow> 'ch task_state" where
  "task_start agg bus = \<lparr>tk_agg = agg, tk_bus = bus, tk_last_late = 0, tk_warnings = []\<rparr>"

text \<open>The task: its first timer, of the period of the configuration in milliseconds, asserts that the
  period is not zero; the periods of the other two are constants.\<close>

definition aggregator_task ::
  "('ch, 'rx) broadcast_api \<Rightarrow> stream_key \<Rightarrow> nat \<Rightarrow> aggregator \<Rightarrow> 'ch cluster_bus \<Rightarrow> task_event list
   \<Rightarrow> 'ch task_state option" where
  "aggregator_task B key tick_interval agg bus es =
     (if tick_interval = 0 then None else run_aggregator B key (task_start agg bus) es)"

section \<open>The loop as a run of the aggregator\<close>

text \<open>The aggregator's part of the events up to the end of the trade channel.\<close>

fun agg_events :: "task_event list \<Rightarrow> agg_event list" where
  "agg_events [] = []"
| "agg_events (TradeReceived t # es) = ETrade t # agg_events es"
| "agg_events (ChannelClosed # es) = [EFlush]"
| "agg_events (TickerFires now # es) = ETick now # agg_events es"
| "agg_events (PartialFires # es) = EDelta # agg_events es"
| "agg_events (StatsFires # es) = agg_events es"

lemma run_aggregator_agg_run:
  "map_option (\<lambda>st'. (tk_agg st', tk_bus st')) (run_aggregator B key st es) =
   map_option (\<lambda>(b, frs). (b, foldl (\<lambda>bus f. publish B bus key f) (tk_bus st) frs))
     (agg_run (tk_agg st) (agg_events es))"
proof (induction es arbitrary: st)
  case (Cons e es)
  have *: "map_option (\<lambda>st'. (tk_agg st', tk_bus st')) (run_aggregator B key (publish_frame B key st r) es) =
     map_option (\<lambda>x. (fst x, foldl (\<lambda>bus f. publish B bus key f) (tk_bus st)
        (case snd r of None \<Rightarrow> snd x | Some f \<Rightarrow> f # snd x))) (agg_run (fst r) (agg_events es))" for r
    using Cons.IH [of "publish_frame B key st r"]
    by (cases r; cases "snd r") (auto simp: publish_frame_def case_prod_beta)
  show ?case
  proof (cases e)
    case (TradeReceived t)
    then show ?thesis
      by (cases "ingest (tk_agg st) t") (simp_all add: * option.map_comp comp_def case_prod_beta)
  next
    case ChannelClosed
    then show ?thesis by (auto simp: publish_frame_def case_prod_beta split: option.split)
  next
    case (TickerFires now)
    then show ?thesis
      by (cases "tick (tk_agg st) now") (simp_all add: * option.map_comp comp_def case_prod_beta)
  next
    case PartialFires
    then show ?thesis
      by (cases "current_window_delta (tk_agg st)") (simp_all add: * option.map_comp comp_def case_prod_beta)
  next
    case StatsFires
    then show ?thesis by (simp add: Let_def Cons.IH)
  qed
qed simp

lemma foldl_publish:
  "channel_of B (foldl (\<lambda>bus f. publish B bus key f) bus frs) k =
     (if k = key then foldl (bc_send B) (channel_of B bus key) frs else channel_of B bus k)"
  by (induction frs arbitrary: bus) (simp_all add: publish_channel)

lemma foldl_publish_keys:
  "bus_keys (foldl (\<lambda>bus f. publish B bus key f) bus frs) =
     (if frs = [] then bus_keys bus else insert key (bus_keys bus))"
  by (induction frs arbitrary: bus) (auto simp: publish_keys)

end
