(* ===== verification/Ch_Sink.thy ===== *)
theory Ch_Sink
  imports Exchange_Core
begin

text \<open>
  The ClickHouse sink of \<open>crates/clickhouse-sink/src/lib.rs\<close>: the rows of a snapshot, the JSON
  lines of a batch, the insert request, and the batching writer with its bounded buffer and its
  back-off. \<open>serde_json\<close> is the parameter \<open>row_json\<close>, \<open>reqwest\<close> a function from the request to
  its transport error or its reply; clocks and durations are milliseconds.
\<close>

section \<open>Rows\<close>

record cluster_row =
  cr_exchange :: string
  cr_market_type :: string
  cr_quote :: string
  cr_symbol :: string
  cr_window_start :: i64
  cr_price :: i64
  cr_price_scale :: nat
  cr_bid_qty :: i64
  cr_ask_qty :: i64
  cr_trades :: nat
  cr_qty_scale :: nat
  cr_ingest_region :: string
  cr_open :: i64
  cr_close :: i64
  cr_high :: i64
  cr_low :: i64

definition rows_from_snapshot :: "analytics_snapshot \<Rightarrow> symbol_spec \<Rightarrow> string \<Rightarrow> cluster_row list" where
  "rows_from_snapshot snap spec region =
     (let market_type = (case sp_market_type spec of Spot \<Rightarrow> ''spot'' | Perp \<Rightarrow> ''perp'');
          quote = (case sp_quote spec of Usdt \<Rightarrow> ''USDT'' | Usdc \<Rightarrow> ''USDC'');
          window_start_ms = as_window_start_ns snap sdiv 1000000
      in map (\<lambda>b.
           \<lparr>cr_exchange = wire_id (sp_exchange spec),
            cr_market_type = market_type,
            cr_quote = quote,
            cr_symbol = sp_symbol spec,
            cr_window_start = window_start_ms,
            cr_price = cb_price b,
            cr_price_scale = sp_price_scale spec,
            cr_bid_qty = cb_bid_qty b,
            cr_ask_qty = cb_ask_qty b,
            cr_trades = cb_trades b,
            cr_qty_scale = sp_qty_scale spec,
            cr_ingest_region = region,
            cr_open = as_open snap, cr_close = as_close snap,
            cr_high = as_high snap, cr_low = as_low snap\<rparr>) (as_clusters snap))"

text \<open>The loop over the batch: a newline in front of every line but the first.\<close>

fun serialize_loop :: "(cluster_row \<Rightarrow> string + string) \<Rightarrow> nat \<Rightarrow> string \<Rightarrow> cluster_row list \<Rightarrow> string + string" where
  "serialize_loop row_json i out [] = Inr out"
| "serialize_loop row_json i out (row # rows) =
     (let out1 = (if i > 0 then out @ [CHR 0x0A] else out) in
      rbind (map_err (\<lambda>_. ''serialize row'') (row_json row)) (\<lambda>line.
        serialize_loop row_json (i + 1) (out1 @ line) rows))"

definition serialize_jsoneachrow :: "(cluster_row \<Rightarrow> string + string) \<Rightarrow> cluster_row list \<Rightarrow> string + string" where
  "serialize_jsoneachrow row_json rows = serialize_loop row_json 0 [] rows"

definition hex_digit :: "nat \<Rightarrow> char" where
  "hex_digit d = (if d < 10 then char_of (48 + d) else char_of (55 + d))"

definition urlencode :: "string \<Rightarrow> string" where
  "urlencode s = concat (map (\<lambda>b.
     if is_ascii_upper b \<or> is_ascii_lower b \<or> is_ascii_digit b
        \<or> b = CHR ''-'' \<or> b = CHR ''_'' \<or> b = CHR ''.'' \<or> b = CHR ''~''
     then [b]
     else [CHR ''%'', hex_digit (chr_code b div 16), hex_digit (chr_code b mod 16)]) s)"

section \<open>Requests\<close>

record ch_writer_config =
  cc_url :: string
  cc_database :: string
  cc_table :: string
  cc_batch_size :: nat
  cc_flush_interval :: nat
  cc_request_timeout :: nat
  cc_max_buffer_rows :: nat

definition ch_writer_config_default :: ch_writer_config where
  "ch_writer_config_default =
     \<lparr>cc_url = ''http://127.0.0.1:8123'', cc_database = ''clusters'', cc_table = ''clusters_1m'',
      cc_batch_size = 5000, cc_flush_interval = 2000, cc_request_timeout = 15000,
      cc_max_buffer_rows = 300000\<rparr>"

definition backoff_max :: nat where "backoff_max = 30000"

text \<open>
  \<open>post url content_type body\<close>: the transport error, or whether the status is a success, its text
  and the body or the error of reading it.
\<close>

type_synonym http_post = "string \<Rightarrow> string \<Rightarrow> string \<Rightarrow> string + (bool \<times> string \<times> (string + string))"

definition body_or_default :: "string + string \<Rightarrow> string" where
  "body_or_default b = (case b of Inl _ \<Rightarrow> [] | Inr detail \<Rightarrow> detail)"

definition execute_ddl :: "ch_writer_config \<Rightarrow> http_post \<Rightarrow> string \<Rightarrow> string + unit" where
  "execute_ddl cfg post sql =
     rbind (map_err (\<lambda>_. ''ch http send (ddl)'')
             (post (trim_end_matches CHR ''/'' (cc_url cfg)) ''text/plain; charset=utf-8'' sql))
       (\<lambda>(success, status, body).
          if \<not> success then Inl (''CH HTTP '' @ status @ '' on DDL: '' @ body_or_default body)
          else Inr ())"

definition insert_url :: "ch_writer_config \<Rightarrow> string" where
  "insert_url cfg =
     (let query = ''INSERT INTO '' @ cc_database cfg @ ''.'' @ cc_table cfg @ '' FORMAT JSONEachRow''
      in trim_end_matches CHR ''/'' (cc_url cfg) @ ''/?query='' @ urlencode query)"

definition flush_once ::
  "(cluster_row \<Rightarrow> string + string) \<Rightarrow> ch_writer_config \<Rightarrow> http_post \<Rightarrow> cluster_row list \<Rightarrow> string + unit" where
  "flush_once row_json cfg post batch =
     rbind (serialize_jsoneachrow row_json batch) (\<lambda>body.
     rbind (map_err (\<lambda>_. ''ch http send'') (post (insert_url cfg) ''application/x-ndjson'' body))
       (\<lambda>(success, status, text).
          if \<not> success then Inl (''CH HTTP '' @ status @ '': '' @ body_or_default text) else Inr ()))"

section \<open>The writer\<close>

record writer_stats =
  wst_batches_ok :: nat
  wst_batches_err :: nat
  wst_rows_ok :: nat
  wst_rows_dropped :: nat

text \<open>
  The local state of \<open>run\<close>. The last field is not in the code: it records the insert attempts
  (when each began and ended, its rows, whether it succeeded) for the statements about them.
\<close>

record flush_attempt =
  fa_start :: nat
  fa_end :: nat
  fa_rows :: "cluster_row list"
  fa_ok :: bool

record writer_state =
  wr_batch :: "cluster_row list"
  wr_stats :: writer_stats
  wr_next_attempt :: nat
  wr_backoff :: nat
  wr_last_drop_warn :: "nat option"
  wr_attempts :: "flush_attempt list"

text \<open>What an event brings from outside: the clock at the gate, the server, the clock afterwards.\<close>

record flush_env =
  fe_now :: nat
  fe_post :: http_post
  fe_after :: nat

definition writer_start :: "ch_writer_config \<Rightarrow> nat \<Rightarrow> writer_state" where
  "writer_start cfg now =
     \<lparr>wr_batch = [],
      wr_stats = \<lparr>wst_batches_ok = 0, wst_batches_err = 0, wst_rows_ok = 0, wst_rows_dropped = 0\<rparr>,
      wr_next_attempt = now, wr_backoff = cc_flush_interval cfg, wr_last_drop_warn = None,
      wr_attempts = []\<rparr>"

definition try_flush ::
  "(cluster_row \<Rightarrow> string + string) \<Rightarrow> ch_writer_config \<Rightarrow> flush_env \<Rightarrow> writer_state \<Rightarrow> writer_state" where
  "try_flush row_json cfg env st =
     (let attempt = \<lparr>fa_start = fe_now env, fa_end = fe_after env, fa_rows = wr_batch st,
                     fa_ok = (flush_once row_json cfg (fe_post env) (wr_batch st) = Inr ())\<rparr>;
          stats = wr_stats st
      in case flush_once row_json cfg (fe_post env) (wr_batch st) of
           Inr _ \<Rightarrow>
             st\<lparr>wr_stats := stats\<lparr>wst_batches_ok := wrap_u64 (wst_batches_ok stats + 1),
                                  wst_rows_ok := wrap_u64 (wst_rows_ok stats + length (wr_batch st))\<rparr>,
                wr_batch := [],
                wr_backoff := cc_flush_interval cfg,
                wr_next_attempt := fe_after env,
                wr_attempts := wr_attempts st @ [attempt]\<rparr>
         | Inl _ \<Rightarrow>
             (let backoff = min (wr_backoff st * 2) backoff_max in
              st\<lparr>wr_stats := stats\<lparr>wst_batches_err := wrap_u64 (wst_batches_err stats + 1)\<rparr>,
                 wr_backoff := backoff,
                 wr_next_attempt := fe_after env + backoff,
                 wr_attempts := wr_attempts st @ [attempt]\<rparr>))"

text \<open>\<open>batch.push(row)\<close> and the bound on the buffer.\<close>

definition push_row :: "ch_writer_config \<Rightarrow> nat \<Rightarrow> cluster_row \<Rightarrow> writer_state \<Rightarrow> writer_state" where
  "push_row cfg now row st =
     (let batch = wr_batch st @ [row] in
      if length batch > cc_max_buffer_rows cfg then
        let drop_n = length batch - cc_max_buffer_rows cfg; stats = wr_stats st in
        st\<lparr>wr_batch := drop drop_n batch,
           wr_stats := stats\<lparr>wst_rows_dropped := wrap_u64 (wst_rows_dropped stats + drop_n)\<rparr>,
           wr_last_drop_warn :=
             (if (case wr_last_drop_warn st of None \<Rightarrow> True | Some t \<Rightarrow> now - t \<ge> 5000)
              then Some now else wr_last_drop_warn st)\<rparr>
      else st\<lparr>wr_batch := batch\<rparr>)"

datatype writer_event =
  RowReceived cluster_row nat flush_env
| RowsClosed flush_env
| FlushTick flush_env

fun writer_step ::
  "(cluster_row \<Rightarrow> string + string) \<Rightarrow> ch_writer_config \<Rightarrow> writer_state \<Rightarrow> writer_event \<Rightarrow> writer_state" where
  "writer_step row_json cfg st (RowReceived row now env) =
     (let st1 = push_row cfg now row st in
      if length (wr_batch st1) \<ge> cc_batch_size cfg \<and> fe_now env \<ge> wr_next_attempt st1
      then try_flush row_json cfg env st1 else st1)"
| "writer_step row_json cfg st (RowsClosed env) =
     (if wr_batch st \<noteq> [] then try_flush row_json cfg env st else st)"
| "writer_step row_json cfg st (FlushTick env) =
     (if wr_batch st \<noteq> [] \<and> fe_now env \<ge> wr_next_attempt st
      then try_flush row_json cfg env st else st)"

text \<open>\<open>run\<close>: until the row channel closes; the result carries the statistics.\<close>

fun writer_run ::
  "(cluster_row \<Rightarrow> string + string) \<Rightarrow> ch_writer_config \<Rightarrow> writer_state \<Rightarrow> writer_event list \<Rightarrow> writer_state" where
  "writer_run row_json cfg st [] = st"
| "writer_run row_json cfg st (RowsClosed env # es) = writer_step row_json cfg st (RowsClosed env)"
| "writer_run row_json cfg st (e # es) = writer_run row_json cfg (writer_step row_json cfg st e) es"

end
