(* ===== verification/Ch_Sink_Theorems.thy ===== *)
theory Ch_Sink_Theorems
  imports Ch_Sink
begin

text \<open>
  What the sink guarantees: no row is lost except by the counted drops of a full buffer, the
  buffer stays bounded, failed inserts are retried after a doubling pause, the batch text is one
  JSON value per line, and the query survives its encoding.
\<close>

section \<open>Rows in, rows out\<close>

text \<open>The rows the writer took off its channel, and the rows ClickHouse acknowledged, in order.\<close>

fun rows_in :: "writer_event list \<Rightarrow> cluster_row list" where
  "rows_in [] = []"
| "rows_in (RowsClosed _ # es) = []"
| "rows_in (RowReceived r _ _ # es) = r # rows_in es"
| "rows_in (FlushTick _ # es) = rows_in es"

definition rows_acked :: "writer_state \<Rightarrow> cluster_row list" where
  "rows_acked st = concat (map fa_rows (filter fa_ok (wr_attempts st)))"

definition accounts_for :: "ch_writer_config \<Rightarrow> cluster_row list \<Rightarrow> writer_state \<Rightarrow> bool" where
  "accounts_for cfg ins st \<longleftrightarrow>
     subseq (rows_acked st @ wr_batch st) ins \<and>
     length ins = length (rows_acked st) + wst_rows_dropped (wr_stats st) + length (wr_batch st) \<and>
     wst_rows_ok (wr_stats st) = length (rows_acked st) \<and>
     length (wr_batch st) \<le> cc_max_buffer_rows cfg"

lemma accounts_flush:
  assumes "accounts_for cfg ins st" "length ins < 2 ^ 64"
  shows "accounts_for cfg ins (try_flush row_json cfg env st)"
proof (cases "flush_once row_json cfg (fe_post env) (wr_batch st)")
  case (Inl e)
  then show ?thesis using assms
    by (simp add: accounts_for_def try_flush_def Let_def rows_acked_def)
next
  case (Inr u)
  then show ?thesis using assms
    by (simp add: accounts_for_def try_flush_def Let_def rows_acked_def wrap_u64_def)
qed

lemma subseq_drop_middle:
  "subseq (a @ b) c \<Longrightarrow> subseq (a @ drop n b) c"
  by (meson subseq_append' subseq_order.order_trans suffix_drop suffix_imp_subseq list_emb_append_mono
      subseq_order.order_refl)

lemma accounts_push:
  assumes "accounts_for cfg ins st" "length ins < 2 ^ 64 - 1"
  shows "accounts_for cfg (ins @ [row]) (push_row cfg now row st)"
proof -
  have s: "subseq (rows_acked st @ wr_batch st @ [row]) (ins @ [row])"
    using assms(1) list_emb_append_mono [of "(=)" "rows_acked st @ wr_batch st" ins "[row]" "[row]"]
    by (simp add: accounts_for_def)
  show ?thesis
    using assms subseq_drop_middle [OF s, of "length (wr_batch st @ [row]) - cc_max_buffer_rows cfg"] s
    by (auto simp: accounts_for_def push_row_def Let_def rows_acked_def wrap_u64_def)
qed

lemma accounts_step:
  assumes "accounts_for cfg ins st" "length ins < 2 ^ 64 - 1"
  shows "accounts_for cfg (ins @ rows_in [e]) (writer_step row_json cfg st e)"
proof (cases e)
  case (RowReceived r now env)
  then show ?thesis
    using accounts_push [OF assms, of r now] assms(2)
      accounts_flush [of cfg "ins @ [r]" "push_row cfg now r st" row_json env]
    by (simp add: Let_def)
qed (use assms accounts_flush in \<open>auto simp: Let_def\<close>)

lemma accounts_run:
  assumes "accounts_for cfg ins st" "length ins + length (rows_in es) < 2 ^ 64"
  shows "accounts_for cfg (ins @ rows_in es) (writer_run row_json cfg st es)"
  using assms
proof (induction es arbitrary: ins st)
  case (Cons e es)
  show ?case
  proof (cases e)
    case (RowReceived r now env)
    then show ?thesis
      using Cons.IH [OF accounts_step [OF Cons.prems(1), of e row_json]] Cons.prems(2) by simp
  next
    case (RowsClosed env)
    then show ?thesis
      using accounts_flush [OF Cons.prems(1)] Cons.prems by simp
  next
    case (FlushTick env)
    then show ?thesis
      using Cons.IH [OF accounts_flush [OF Cons.prems(1)]] Cons.IH [OF Cons.prems(1)] Cons.prems(2) by simp
  qed
qed simp

section \<open>Pauses between attempts\<close>

text \<open>How many attempts have failed in a row, and the pause the code makes after so many.\<close>

definition failures :: "flush_attempt list \<Rightarrow> nat" where
  "failures log = length (takeWhile (\<lambda>x. \<not> fa_ok x) (rev log))"

definition pause :: "ch_writer_config \<Rightarrow> nat \<Rightarrow> nat" where
  "pause cfg k = min backoff_max (cc_flush_interval cfg * 2 ^ k)"

definition attempts_spaced :: "ch_writer_config \<Rightarrow> flush_attempt list \<Rightarrow> bool" where
  "attempts_spaced cfg log \<longleftrightarrow>
     (\<forall>i < length log - 1. 0 < failures (take (i + 1) log) \<longrightarrow>
        fa_end (log ! i) + pause cfg (failures (take (i + 1) log)) \<le> fa_start (log ! (i + 1)))"

definition gate_ok :: "ch_writer_config \<Rightarrow> writer_state \<Rightarrow> bool" where
  "gate_ok cfg st \<longleftrightarrow> attempts_spaced cfg (wr_attempts st) \<and>
     (let k = failures (wr_attempts st) in
      wr_backoff st = (if k = 0 then cc_flush_interval cfg else pause cfg k) \<and>
      (0 < k \<longrightarrow> wr_next_attempt st = fa_end (last (wr_attempts st)) + pause cfg k))"

lemma failures_snoc [simp]: "failures (log @ [x]) = (if fa_ok x then 0 else Suc (failures log))"
  by (simp add: failures_def)

lemma failures_Nil [simp]: "failures [] = 0"
  by (simp add: failures_def)

lemma attempts_spaced_snoc:
  "attempts_spaced cfg (log @ [x]) \<longleftrightarrow> attempts_spaced cfg log \<and>
     (0 < failures log \<longrightarrow> fa_end (last log) + pause cfg (failures log) \<le> fa_start x)"
proof (cases log rule: rev_cases)
  case (snoc l y)
  have "(\<forall>i < Suc (length l). P i) \<longleftrightarrow> (\<forall>i < length l. P i) \<and> P (length l)" for P
    by (auto simp: less_Suc_eq)
  then show ?thesis by (simp add: attempts_spaced_def snoc nth_append)
qed (simp add: attempts_spaced_def)

lemma pause_Suc: "min (pause cfg k * 2) backoff_max = pause cfg (Suc k)"
  by (simp add: pause_def min_def)

lemma gate_flush:
  assumes "gate_ok cfg st" "wr_next_attempt st \<le> fe_now env"
  shows "gate_ok cfg (try_flush row_json cfg env st)"
proof -
  define k where "k = failures (wr_attempts st)"
  have b: "min (wr_backoff st * 2) backoff_max = pause cfg (Suc k)"
    using assms(1) pause_Suc [of cfg k] by (auto simp: gate_ok_def Let_def k_def pause_def min.commute mult.commute)
  have s: "attempts_spaced cfg (wr_attempts st @ [a])" if "fa_start a = fe_now env" for a
    using assms that by (auto simp: gate_ok_def Let_def attempts_spaced_snoc)
  show ?thesis
    by (cases "flush_once row_json cfg (fe_post env) (wr_batch st)")
      (simp_all add: try_flush_def gate_ok_def Let_def s b k_def [symmetric])
qed

lemma gate_push [simp]: "gate_ok cfg (push_row cfg now r st) = gate_ok cfg st"
  by (simp add: push_row_def gate_ok_def Let_def)

fun not_closed :: "writer_event \<Rightarrow> bool" where
  "not_closed (RowsClosed _) = False"
| "not_closed _ = True"

lemma gate_run:
  assumes "gate_ok cfg st" "list_all not_closed es"
  shows "gate_ok cfg (writer_run row_json cfg st es)"
  using assms
proof (induction es arbitrary: st)
  case (Cons e es)
  then show ?case by (cases e) (simp_all add: Let_def gate_flush)
qed simp

section \<open>Theorems\<close>

lemma start_accounts: "accounts_for cfg [] (writer_start cfg now)"
  by (simp add: accounts_for_def writer_start_def rows_acked_def)

text \<open>C11: Whatever ClickHouse answers and whenever the timers fire, every row the writer took is
  acknowledged, still buffered or counted as dropped, and none is reordered or invented: the
  acknowledged rows followed by the buffer are a subsequence of the rows received, the counters
  add up, and the buffer never exceeds its bound.\<close>

theorem writer_conserves_rows:
  fixes cfg :: ch_writer_config and row_json :: "cluster_row \<Rightarrow> string + string" and now :: nat
  assumes "length (rows_in es) < 2 ^ 64"
  defines "st \<equiv> writer_run row_json cfg (writer_start cfg now) es"
  shows "subseq (rows_acked st @ wr_batch st) (rows_in es) \<and>
    length (rows_in es) =
      wst_rows_ok (wr_stats st) + wst_rows_dropped (wr_stats st) + length (wr_batch st) \<and>
    length (rows_acked st) = wst_rows_ok (wr_stats st) \<and>
    length (wr_batch st) \<le> cc_max_buffer_rows cfg"
  using accounts_run [OF start_accounts, where es = es and cfg = cfg and row_json = row_json] assms
  by (simp_all add: accounts_for_def)

text \<open>C35: A down ClickHouse is not hammered: after the k-th failure in a row the writer waits at least
  the flush interval doubled k times, but never more than half a minute, before it tries again.\<close>

theorem writer_backs_off:
  fixes cfg :: ch_writer_config and row_json :: "cluster_row \<Rightarrow> string + string" and now :: nat
  assumes "list_all not_closed es"
  defines "st \<equiv> writer_run row_json cfg (writer_start cfg now) es"
  shows "attempts_spaced cfg (wr_attempts st) \<and>
    (failures (wr_attempts st) = 0 \<or> wr_next_attempt st =
      fa_end (last (wr_attempts st)) + min backoff_max (cc_flush_interval cfg * 2 ^ failures (wr_attempts st)))"
proof -
  have "gate_ok cfg (writer_start cfg now)"
    by (simp add: gate_ok_def writer_start_def attempts_spaced_def)
  then have "gate_ok cfg st" unfolding st_def using assms(1) by (rule gate_run)
  then show ?thesis by (auto simp: gate_ok_def Let_def pause_def)
qed

section \<open>Texts\<close>

text \<open>Percent decoding, as a server does it.\<close>

definition hex_val :: "char \<Rightarrow> nat" where
  "hex_val c = (if chr_code c < 65 then chr_code c - 48 else chr_code c - 55)"

fun percent_decode :: "string \<Rightarrow> string" where
  "percent_decode [] = []"
| "percent_decode (c # s) =
     (if c = CHR ''%'' then
        (case s of a # b # t \<Rightarrow> char_of (hex_val a * 16 + hex_val b) # percent_decode t | _ \<Rightarrow> c # percent_decode s)
      else c # percent_decode s)"

definition query_safe :: "char \<Rightarrow> bool" where
  "query_safe c \<longleftrightarrow> is_ascii_alphanumeric c \<or> c \<in> set ''-_.~%''"

lemma hex_val_digit: "d < 16 \<Longrightarrow> hex_val (hex_digit d) = d"
  by (simp add: hex_val_def hex_digit_def)

lemma hex_digit_safe: "d < 16 \<Longrightarrow> is_ascii_alphanumeric (hex_digit d)"
  by (simp add: hex_digit_def is_ascii_alphanumeric_def is_ascii_digit_def is_ascii_upper_def)

lemma chr_code_less: "chr_code c < 256"
  by (simp add: chr_code_def)

definition unreserved :: "char \<Rightarrow> bool" where
  "unreserved b \<longleftrightarrow> is_ascii_upper b \<or> is_ascii_lower b \<or> is_ascii_digit b
     \<or> b = CHR ''-'' \<or> b = CHR ''_'' \<or> b = CHR ''.'' \<or> b = CHR ''~''"

lemma urlencode_Cons: "urlencode (b # s) =
    (if unreserved b then [b]
     else [CHR ''%'', hex_digit (chr_code b div 16), hex_digit (chr_code b mod 16)]) @ urlencode s"
  by (simp add: urlencode_def unreserved_def)

lemma unreserved_safe: "unreserved b \<Longrightarrow> query_safe b \<and> b \<noteq> CHR ''%''"
  by (auto simp: unreserved_def query_safe_def is_ascii_alphanumeric_def is_ascii_upper_def
      is_ascii_lower_def is_ascii_digit_def chr_code_def)

text \<open>C37: The text of a query survives its encoding: decoding gives it back, and the encoded text has
  only characters that may stand in a query string.\<close>

theorem urlencode_roundtrip: "percent_decode (urlencode s) = s \<and> list_all query_safe (urlencode s)"
proof (induction s)
  case (Cons b s)
  have n: "chr_code b div 16 < 16" "chr_code b mod 16 < 16" using chr_code_less [of b] by simp_all
  have d: "char_of (chr_code b div 16 * 16 + chr_code b mod 16) = b" by (simp add: chr_code_def)
  have safe: "query_safe (CHR ''%'')" "\<And>d. d < 16 \<Longrightarrow> query_safe (hex_digit d)"
    by (simp_all add: query_safe_def hex_digit_safe)
  show ?case
  proof (cases "unreserved b")
    case True
    then show ?thesis using Cons.IH unreserved_safe [OF True] by (simp add: urlencode_Cons)
  next
    case False
    then show ?thesis using Cons.IH n d safe by (simp add: urlencode_Cons hex_val_digit)
  qed
qed (simp add: urlencode_def)

lemma serialize_loop_lines:
  assumes "\<forall>r l. row_json r = Inr l \<longrightarrow> CHR 0x0A \<notin> set l"
    and "serialize_loop row_json i out rows = Inr text" "0 < i" "out = pre @ cur" "CHR 0x0A \<notin> set cur"
    and "pre = [] \<or> last pre = CHR 0x0A"
  shows "\<exists>rest. text = pre @ rest \<and> (\<exists>ls. map row_json rows = map Inr ls \<and> split_on (CHR 0x0A) rest = cur # ls)"
  using assms(2-6)
proof (induction rows arbitrary: i out pre cur)
  case Nil
  then show ?case by (auto simp: split_on_no)
next
  case (Cons r rows)
  obtain line where l: "row_json r = Inr line" using Cons.prems(1)
    by (cases "row_json r") auto
  have nl: "CHR 0x0A \<notin> set line" using assms(1) l by blast
  obtain rest ls where r: "text = (pre @ cur @ [CHR 0x0A]) @ rest" "map row_json rows = map Inr ls"
      "split_on (CHR 0x0A) rest = line # ls"
    using Cons.IH [of "i + 1" "(out @ [CHR 0x0A]) @ line" "pre @ cur @ [CHR 0x0A]" line]
      Cons.prems l nl by (auto simp: Let_def)
  then have "split_on (CHR 0x0A) (cur @ CHR 0x0A # rest) = cur # line # ls"
    using Cons.prems(4) by (simp add: split_on_app)
  then show ?case using r l by (intro exI [of _ "cur @ CHR 0x0A # rest"]) (auto intro!: exI [of _ "line # ls"])
qed

text \<open>The body of an insert is one JSON value per line, in order, with no line for anything else,
  as long as the JSON text of a row has no newline in it.\<close>

lemma json_each_row_lines:
  assumes "\<forall>r l. row_json r = Inr l \<longrightarrow> CHR 0x0A \<notin> set l" and "rows \<noteq> []"
    and "serialize_jsoneachrow row_json rows = Inr text"
  shows "map row_json rows = map Inr (split_on (CHR 0x0A) text)"
proof -
  obtain r rs where rows: "rows = r # rs" using assms(2) by (cases rows) auto
  obtain line where l: "row_json r = Inr line" "serialize_loop row_json 1 line rs = Inr text"
    using assms(3) by (auto simp: serialize_jsoneachrow_def rows Let_def)
  have nl: "CHR 0x0A \<notin> set line" using assms(1) l(1) by blast
  obtain rest ls where "text = [] @ rest" "map row_json rs = map Inr ls" "split_on (CHR 0x0A) rest = line # ls"
    using serialize_loop_lines [OF assms(1) l(2), where pre = "[]" and cur = line] nl by auto
  then show ?thesis using l(1) rows by simp
qed

section \<open>Witnesses\<close>

definition sample_row :: "int \<Rightarrow> cluster_row" where
  "sample_row p = \<lparr>cr_exchange = ''BINANCEF'', cr_market_type = ''perp'', cr_quote = ''USDT'',
     cr_symbol = ''BTCUSDT'', cr_window_start = 60000, cr_price = p, cr_price_scale = 2,
     cr_bid_qty = 5, cr_ask_qty = 7, cr_trades = 3, cr_qty_scale = 3, cr_ingest_region = ''tokyo'',
     cr_open = 1, cr_close = 2, cr_high = 3, cr_low = 1\<rparr>"

definition sample_json :: "cluster_row \<Rightarrow> string + string" where
  "sample_json r = Inr (''{price:'' @ int_to_string (cr_price r) @ ''}'')"

definition sample_cfg :: ch_writer_config where
  "sample_cfg = ch_writer_config_default\<lparr>cc_batch_size := 2, cc_max_buffer_rows := 2\<rparr>"

definition env_at :: "bool \<Rightarrow> nat \<Rightarrow> flush_env" where
  "env_at up t = \<lparr>fe_now = t, fe_post = (\<lambda>_ _ _. if up then Inr (True, ''200 OK'', Inr []) else Inl ''refused''),
     fe_after = t + 5\<rparr>"

definition sample_feed :: "writer_event list" where
  "sample_feed = [RowReceived (sample_row 1) 0 (env_at False 0), RowReceived (sample_row 2) 1 (env_at False 1),
     RowReceived (sample_row 3) 2 (env_at True 2), FlushTick (env_at False 4007), FlushTick (env_at True 12100)]"

lemma writer_conserves_rows_witness:
  "length (rows_in sample_feed) =
     wst_rows_ok (wr_stats (writer_run sample_json sample_cfg (writer_start sample_cfg 0) sample_feed)) +
     wst_rows_dropped (wr_stats (writer_run sample_json sample_cfg (writer_start sample_cfg 0) sample_feed)) +
     length (wr_batch (writer_run sample_json sample_cfg (writer_start sample_cfg 0) sample_feed))"
proof -
  have "length (rows_in sample_feed) < 2 ^ 64" by (simp add: sample_feed_def)
  from writer_conserves_rows [OF this, where row_json = sample_json and cfg = sample_cfg and now = 0]
  show ?thesis by blast
qed

lemma writer_backs_off_witness:
  "attempts_spaced sample_cfg
     (wr_attempts (writer_run sample_json sample_cfg (writer_start sample_cfg 0) sample_feed))"
proof -
  have "list_all not_closed sample_feed" by (simp add: sample_feed_def)
  from writer_backs_off [OF this, where row_json = sample_json and cfg = sample_cfg and now = 0]
  show ?thesis by blast
qed

lemma int_text_no_newline: "CHR 0x0A \<notin> set (int_to_string i)"
proof -
  have "CHR 0x0A \<notin> set (nat_to_string n)" for n
    using nat_to_string_digits [of n] by (auto simp: list_all_iff is_ascii_digit_def chr_code_def)
  then show ?thesis by (simp add: int_to_string_def)
qed

lemma small_int_texts: "int_to_string 1 = ''1''" "int_to_string 2 = ''2''"
  by code_simp+

lemma json_each_row_lines_witness:
  "map sample_json [sample_row 1, sample_row 2] =
     map Inr (split_on (CHR 0x0A) (''{price:1}'' @ [CHR 0x0A] @ ''{price:2}''))"
  by (rule json_each_row_lines)
    (auto simp: sample_json_def serialize_jsoneachrow_def sample_row_def small_int_texts
       int_text_no_newline)

end
