(* ===== verification/Cluster_History.thy ===== *)
theory Cluster_History
  imports Ch_Sink Json_Api
begin

text \<open>
  The history endpoint \<open>GET /v1/clusters/range\<close> of \<open>crates/cluster-api/src/cluster_history.rs\<close>
  and the table of timeframes of \<open>timeframes.rs\<close>: validation, the size estimate, the SQL text,
  the loop that turns ClickHouse's lines into columns, and the reply with its cache header.
  \<open>reqwest\<close> and \<open>serde_json\<close> are parameters; the clock is an argument.
\<close>

section \<open>Timeframes\<close>

definition supported_intervals :: "nat list" where
  "supported_intervals = [30, 60, 300, 900, 1800, 3600, 14400, 86400]"

definition table_name_for :: "nat \<Rightarrow> string" where
  "table_name_for interval_seconds =
     (let n = interval_seconds;
          human =
            (if n = 30 then ''30s''
             else if n = 60 then ''1m''
             else if n = 300 then ''5m''
             else if n = 900 then ''15m''
             else if n = 1800 then ''30m''
             else if n = 3600 then ''1h''
             else if n = 14400 then ''4h''
             else if n = 86400 then ''1d''
             else if n mod 86400 = 0 then nat_to_string (n div 86400) @ ''d''
             else if n mod 3600 = 0 then nat_to_string (n div 3600) @ ''h''
             else if n mod 60 = 0 then nat_to_string (n div 60) @ ''m''
             else nat_to_string n @ ''s'')
      in ''clusters_'' @ human)"

definition is_supported_interval :: "nat \<Rightarrow> bool" where
  "is_supported_interval interval_seconds \<longleftrightarrow> List.member supported_intervals interval_seconds"

section \<open>The request\<close>

definition max_bars :: nat where "max_bars = 500000"

record history_state =
  hs_ch_url :: string
  hs_ch_database :: string
  hs_ch_user :: string
  hs_ch_password :: string

record range_params =
  rp_exchange :: string
  rp_market_type :: string
  rp_symbol :: string
  rp_interval_seconds :: nat
  rp_from_ms :: i64
  rp_to_ms :: i64

definition validate_params :: "range_params \<Rightarrow> string + unit" where
  "validate_params q =
     (if rp_symbol q = [] \<or> length (rp_symbol q) > 32 then Inl ''symbol: required, max 32 chars''
      else if \<not> list_all (\<lambda>c. is_ascii_alphanumeric c \<or> c = CHR ''_'' \<or> c = CHR ''-'') (rp_symbol q)
        then Inl ''symbol: ASCII alphanumeric + _- only''
      else if rp_market_type q \<noteq> ''spot'' \<and> rp_market_type q \<noteq> ''perp''
        then Inl (''market_type: '' @ [CHR 0x27] @ ''spot'' @ [CHR 0x27] @ '' | '' @ [CHR 0x27] @ ''perp'' @ [CHR 0x27])
      else if rp_exchange q = [] \<or> length (rp_exchange q) > 32 then Inl ''exchange: required, max 32 chars''
      else if \<not> list_all is_ascii_alphanumeric (rp_exchange q)
        then Inl ''exchange: ASCII alphanumeric only (e.g. BINANCEF)''
      else if \<not> is_supported_interval (rp_interval_seconds q)
        then Inl (''interval_seconds: '' @ nat_to_string (rp_interval_seconds q)
               @ '' not supported; use one of 30/60/300/900/3600/14400/86400'')
      else if rp_from_ms q < 0 \<or> rp_to_ms q < 0 then Inl ''from_ms/to_ms: must be >= 0''
      else if rp_to_ms q \<le> rp_from_ms q then Inl ''to_ms must be > from_ms''
      else Inr ())"

definition estimate_max_rows :: "range_params \<Rightarrow> nat" where
  "estimate_max_rows q =
     (let span_ms = nat (max (wrap_i64 (rp_to_ms q - rp_from_ms q)) 0);
          tf_ms = wrap_u64 (rp_interval_seconds q * 1000);
          windows = span_ms div max tf_ms 1
      in saturating_mul_u64 windows 50)"

section \<open>The query\<close>

definition quo :: char where "quo = CHR 0x27"

definition sql_escape :: "string \<Rightarrow> string" where
  "sql_escape s = replace_char quo [quo, quo] s"

definition range_filter :: "range_params \<Rightarrow> string" where
  "range_filter q =
       ''exchange = '' @ [quo] @ sql_escape (rp_exchange q) @ [quo] @ '' AND market_type = ''
       @ [quo] @ sql_escape (rp_market_type q) @ [quo] @ '' AND symbol = '' @ [quo]
       @ sql_escape (rp_symbol q) @ [quo] @ '' AND window_start >= fromUnixTimestamp64Milli(''
       @ int_to_string (rp_from_ms q) @ '') AND window_start <  fromUnixTimestamp64Milli(''
       @ int_to_string (rp_to_ms q) @ '')''"

definition direct_sql :: "string \<Rightarrow> string \<Rightarrow> string \<Rightarrow> string" where
  "direct_sql db table flt =
       ''SELECT toUnixTimestamp64Milli(t.window_start) AS ts_ms, t.price, ''
       @ ''t.bid_qty, t.ask_qty, t.trades, w.ps, w.qs, w.o, w.c, w.h, w.l FROM '' @ db @ ''.''
       @ table @ '' AS t FINAL INNER JOIN ( SELECT window_start, maxIf(price_scale, ''
       @ ''price_scale > 0) AS ps, maxIf(qty_scale, qty_scale > 0)     AS qs, ''
       @ ''maxIf(open, open > 0)               AS o, argMaxIf(close, ''
       @ ''ingested_at, close > 0) AS c, maxIf(high, high > 0)               AS ''
       @ ''h, minIf(low, low > 0)                 AS l FROM '' @ db @ ''.'' @ table
       @ '' FINAL WHERE '' @ flt
       @ '' GROUP BY window_start ) AS w ON t.window_start = w.window_start '' @ ''WHERE '' @ flt
       @ '' ORDER BY t.window_start, t.price FORMAT JSONCompactEachRow''"

definition rollup_sql :: "string \<Rightarrow> string \<Rightarrow> string \<Rightarrow> string \<Rightarrow> string" where
  "rollup_sql db n base flt =
       ''SELECT toUnixTimestamp(b.rw) * 1000 AS ts_ms, b.price, b.bid_qty, ''
       @ ''b.ask_qty, b.trades, b.ps, b.qs, w.o, w.c, w.h, w.l FROM ( SELECT ''
       @ ''toStartOfInterval(window_start, INTERVAL '' @ n @ '' SECOND, '' @ [quo] @ ''UTC'' @ [quo]
       @ '') AS rw, price, sum(bid_qty) AS bid_qty, sum(ask_qty) AS ask_qty, ''
       @ ''sum(trades) AS trades, maxIf(price_scale, price_scale > 0) AS ps, ''
       @ ''maxIf(qty_scale, qty_scale > 0) AS qs FROM '' @ db @ ''.'' @ base @ '' FINAL WHERE ''
       @ flt @ '' GROUP BY rw, price ) AS b INNER JOIN ( SELECT rw, ''
       @ ''argMinIf(sub_open,  sub_ws, sub_open  > 0) AS o, argMaxIf(sub_close, ''
       @ ''sub_ws, sub_close > 0) AS c, maxIf(sub_high, sub_high > 0) AS h, ''
       @ ''minIf(sub_low,  sub_low  > 0) AS l FROM ( SELECT ''
       @ ''toStartOfInterval(window_start, INTERVAL '' @ n @ '' SECOND, '' @ [quo] @ ''UTC'' @ [quo]
       @ '') AS rw, window_start AS sub_ws, maxIf(open, open > ''
       @ ''0)                    AS sub_open, argMaxIf(close, ingested_at, close ''
       @ ''> 0) AS sub_close, maxIf(high, high > 0)                    AS ''
       @ ''sub_high, minIf(low, low > 0)                      AS sub_low FROM '' @ db @ ''.'' @ base
       @ '' FINAL WHERE '' @ flt
       @ '' GROUP BY rw, window_start ) GROUP BY rw ) AS w ON b.rw = w.rw ORDER ''
       @ ''BY ts_ms, b.price FORMAT JSONCompactEachRow''"

definition build_range_sql :: "string \<Rightarrow> range_params \<Rightarrow> string" where
  "build_range_sql db q =
     (if rp_interval_seconds q = 30 \<or> rp_interval_seconds q = 60
      then direct_sql db (table_name_for (rp_interval_seconds q)) (range_filter q)
      else rollup_sql db (nat_to_string (rp_interval_seconds q)) (table_name_for 60) (range_filter q))"

section \<open>The columns\<close>

record range_response =
  rr_interval_seconds :: nat
  rr_symbol :: string
  rr_exchange :: string
  rr_market_type :: string
  rr_price_scale :: nat
  rr_qty_scale :: nat
  rr_n :: nat
  rr_window_start_ms :: "i64 list"
  rr_price :: "i64 list"
  rr_bid_qty :: "i64 list"
  rr_ask_qty :: "i64 list"
  rr_trades :: "nat list"
  rr_windows_n :: nat
  rr_windows :: "i64 list"
  rr_open :: "i64 list"
  rr_close :: "i64 list"
  rr_high :: "i64 list"
  rr_low :: "i64 list"

definition range_response_empty :: "range_params \<Rightarrow> range_response" where
  "range_response_empty q =
     \<lparr>rr_interval_seconds = rp_interval_seconds q, rr_symbol = rp_symbol q,
      rr_exchange = rp_exchange q, rr_market_type = rp_market_type q,
      rr_price_scale = 0, rr_qty_scale = 0, rr_n = 0,
      rr_window_start_ms = [], rr_price = [], rr_bid_qty = [], rr_ask_qty = [], rr_trades = [],
      rr_windows_n = 0, rr_windows = [], rr_open = [], rr_close = [], rr_high = [], rr_low = []\<rparr>"

definition json_i64 :: "'j json_api \<Rightarrow> 'j \<Rightarrow> i64 option" where
  "json_i64 J v =
     (case j_number J v of Some _ \<Rightarrow> j_i64 J v
      | None \<Rightarrow> (case j_string J v of Some s \<Rightarrow> res_ok (parse_i64 s) | None \<Rightarrow> None))"

definition json_u32 :: "'j json_api \<Rightarrow> 'j \<Rightarrow> nat option" where
  "json_u32 J v =
     (case j_number J v of
        Some _ \<Rightarrow> Option.bind (j_u64 J v) (\<lambda>x. if x \<le> u32_max then Some x else None)
      | None \<Rightarrow> (case j_string J v of Some s \<Rightarrow> res_ok (parse_u32 s) | None \<Rightarrow> None))"

text \<open>\<open>str::lines\<close>: the pieces between newlines, a final empty one left out, without a final CR.\<close>

definition str_lines :: "string \<Rightarrow> string list" where
  "str_lines s =
     (let ls = split_on (CHR 0x0A) s;
          ls' = (if last ls = [] then butlast ls else ls)
      in map (\<lambda>l. if ends_with l [CHR 0x0D] then butlast l else l) ls')"

text \<open>One line: what is not an array of five readable fields is skipped.\<close>

definition read_row :: "'j json_api \<Rightarrow> string \<Rightarrow> ('j list \<times> i64 \<times> i64 \<times> i64 \<times> i64 \<times> nat) option" where
  "read_row J line =
     (if line = [] then None
      else Option.bind (res_ok (j_parse J line)) (\<lambda>v.
           Option.bind (j_array J v) (\<lambda>arr.
           if length arr < 5 then None
           else Option.bind (json_i64 J (arr ! 0)) (\<lambda>ts.
                Option.bind (json_i64 J (arr ! 1)) (\<lambda>price.
                Option.bind (json_i64 J (arr ! 2)) (\<lambda>bid.
                Option.bind (json_i64 J (arr ! 3)) (\<lambda>ask.
                Option.bind (json_u32 J (arr ! 4)) (\<lambda>trades.
                  Some (arr, ts, price, bid, ask, trades)))))))))"

definition take_scales :: "'j json_api \<Rightarrow> 'j list \<Rightarrow> range_response \<Rightarrow> range_response" where
  "take_scales J arr out =
     (if rr_n out = 0 \<and> length arr \<ge> 7 then
        let out1 = (case json_u32 J (arr ! 5) of Some ps \<Rightarrow> out\<lparr>rr_price_scale := min ps 255\<rparr> | None \<Rightarrow> out)
        in (case json_u32 J (arr ! 6) of Some qs \<Rightarrow> out1\<lparr>rr_qty_scale := min qs 255\<rparr> | None \<Rightarrow> out1)
      else out)"

definition open_range_window :: "'j json_api \<Rightarrow> 'j list \<Rightarrow> i64 \<Rightarrow> range_response \<Rightarrow> range_response" where
  "open_range_window J arr ts out =
     (let field = (\<lambda>i. if length arr \<ge> 11 then unwrap_or (json_i64 J (arr ! i)) 0 else 0) in
      out\<lparr>rr_windows := rr_windows out @ [ts],
          rr_open := rr_open out @ [field 7], rr_close := rr_close out @ [field 8],
          rr_high := rr_high out @ [field 9], rr_low := rr_low out @ [field 10],
          rr_windows_n := rr_windows_n out + 1\<rparr>)"

fun read_rows :: "'j json_api \<Rightarrow> i64 option \<Rightarrow> range_response \<Rightarrow> string list \<Rightarrow> range_response" where
  "read_rows J last_ts out [] = out"
| "read_rows J last_ts out (line # lines) =
     (case read_row J line of
        None \<Rightarrow> read_rows J last_ts out lines
      | Some (arr, ts, price, bid, ask, trades) \<Rightarrow>
          let out1 = take_scales J arr out;
              out2 = (if last_ts \<noteq> Some ts then open_range_window J arr ts out1 else out1);
              out3 = out2\<lparr>rr_window_start_ms := rr_window_start_ms out2 @ [ts],
                          rr_price := rr_price out2 @ [price],
                          rr_bid_qty := rr_bid_qty out2 @ [bid],
                          rr_ask_qty := rr_ask_qty out2 @ [ask],
                          rr_trades := rr_trades out2 @ [trades],
                          rr_n := rr_n out2 + 1\<rparr>
          in if rr_n out3 \<ge> max_bars then out3 else read_rows J (Some ts) out3 lines)"

section \<open>The handler\<close>

text \<open>A reply: an error with its status code, or the columns with the cache header.\<close>

datatype range_reply = RangeError nat string | RangeOk string range_response

type_synonym ch_get =
  "string \<Rightarrow> (string \<times> string) option \<Rightarrow> string + (bool \<times> string \<times> (string + string))"

definition cache_value :: "range_params \<Rightarrow> i64 \<Rightarrow> string" where
  "cache_value q now_ms =
     (let tf_ms = wrap_i64 (int (rp_interval_seconds q) * 1000) in
      if wrap_i64 (rp_to_ms q + wrap_i64 (2 * tf_ms)) < now_ms
      then ''public, max-age=86400, immutable'' else ''no-store'')"

definition cluster_range ::
  "'j json_api \<Rightarrow> ch_get \<Rightarrow> i64 \<Rightarrow> history_state \<Rightarrow> range_params \<Rightarrow> range_reply" where
  "cluster_range J get now_ms st q =
     (case validate_params q of Inl msg \<Rightarrow> RangeError 400 msg
      | Inr _ \<Rightarrow>
     let est_rows = estimate_max_rows q in
     if est_rows > max_bars then
       RangeError 413 (''estimated rows ('' @ nat_to_string est_rows @ '') exceed cap ('' @ nat_to_string max_bars
         @ ''); narrow the range or use a larger interval_seconds'')
     else
       let sql = build_range_sql (hs_ch_database st) q;
           url = trim_end_matches CHR ''/'' (hs_ch_url st) @ ''/?query='' @ urlencode sql;
           auth = (if hs_ch_user st \<noteq> [] then Some (hs_ch_user st, hs_ch_password st) else None)
       in case get url auth of
            Inl e \<Rightarrow> RangeError 502 (''ch unreachable: '' @ e)
          | Inr (success, status, text) \<Rightarrow>
              (case text of
                 Inl e \<Rightarrow> RangeError 502 (''ch body read: '' @ e)
               | Inr body \<Rightarrow>
                   if \<not> success then RangeError 502 (''CH '' @ status @ '': '' @ take 500 body)
                   else RangeOk (cache_value q now_ms)
                          (read_rows J None (range_response_empty q) (str_lines body))))"

end
