(* ===== verification/Api_Server.thy ===== *)
theory Api_Server
  imports Cluster_History
begin

text \<open>
  The front door of \<open>crates/cluster-api\<close>: the bearer check of \<open>auth.rs\<close> with its two
  interceptors, the routes of \<open>rest.rs\<close>, and the system metrics of \<open>sysmetrics.rs\<close> with the
  lock-free peak of the CPU usage. A header is the text \<open>to_str\<close> gives for it, if any; \<open>sysinfo\<close>
  and \<open>f32\<close> are parameters.
\<close>

section \<open>Bearer tokens\<close>

record auth_state =
  au_tokens :: "string list"
  au_enabled :: bool

definition auth_new :: "string list \<Rightarrow> bool \<Rightarrow> auth_state" where
  "auth_new tokens enabled = \<lparr>au_tokens = tokens, au_enabled = enabled\<rparr>"

definition auth_disabled :: auth_state where
  "auth_disabled = auth_new [] False"

definition ct_eq :: "byte list \<Rightarrow> byte list \<Rightarrow> bool" where
  "ct_eq a b =
     (if length a \<noteq> length b then False
      else fold (\<lambda>(x, y) diff. or diff (xor x y)) (zip a b) 0 = 0)"

definition auth_accepts :: "auth_state \<Rightarrow> string \<Rightarrow> bool" where
  "auth_accepts st presented =
     (if \<not> au_enabled st then True
      else list_ex (\<lambda>valid. ct_eq (as_bytes valid) (as_bytes presented)) (au_tokens st))"

definition extract_bearer :: "string option \<Rightarrow> string option" where
  "extract_bearer header_value = Option.bind header_value (strip_prefix ''Bearer '')"

definition is_public_path :: "string \<Rightarrow> bool" where
  "is_public_path path \<longleftrightarrow>
     path = ''/health'' \<or> starts_with path ''/health/'' \<or> path = ''/metrics''"

text \<open>The middleware: \<open>True\<close> runs the rest of the stack, \<open>False\<close> is the 401 answer.\<close>

definition rest_auth_middleware :: "auth_state \<Rightarrow> string \<Rightarrow> string option \<Rightarrow> bool" where
  "rest_auth_middleware st path header =
     (if is_public_path path then True
      else if \<not> au_enabled st then True
      else case extract_bearer header of
        None \<Rightarrow> False
      | Some token \<Rightarrow> auth_accepts st token)"

datatype grpc_status = Unauthenticated string | InvalidArgument string

definition grpc_auth_interceptor :: "auth_state \<Rightarrow> string option \<Rightarrow> grpc_status + unit" where
  "grpc_auth_interceptor st header =
     (if \<not> au_enabled st then Inr ()
      else case extract_bearer header of
        None \<Rightarrow> Inl (Unauthenticated ''missing bearer token'')
      | Some token \<Rightarrow>
          if auth_accepts st token then Inr () else Inl (Unauthenticated ''invalid bearer token''))"

section \<open>Routes\<close>

datatype endpoint = SystemMetrics | ClusterRange | HealthText string

definition route :: "string \<Rightarrow> endpoint option" where
  "route path =
     (if path = ''/health'' then Some (HealthText ''ok'')
      else if path = ''/health/live'' then Some (HealthText ''live'')
      else if path = ''/health/ready'' then Some (HealthText ''ready'')
      else if path = ''/v1/system/metrics'' then Some SystemMetrics
      else if path = ''/v1/clusters/range'' then Some ClusterRange
      else None)"

datatype dispatch = Unauthorized | NotFound | Handled endpoint

definition rest_router :: "auth_state \<Rightarrow> string \<Rightarrow> string option \<Rightarrow> dispatch" where
  "rest_router st path header =
     (if \<not> rest_auth_middleware st path header then Unauthorized
      else case route path of None \<Rightarrow> NotFound | Some e \<Rightarrow> Handled e)"

section \<open>System metrics\<close>

record table_usage =
  tu_table :: string
  tu_rows :: nat
  tu_compressed_bytes :: nat
  tu_uncompressed_bytes :: nat

record sys_metrics_state =
  sm_ch_client :: "ch_get option"
  sm_ch_url :: string
  sm_ch_database :: string

definition json_u64 :: "'j json_api \<Rightarrow> 'j option \<Rightarrow> nat option" where
  "json_u64 J v0 = Option.bind v0 (\<lambda>v.
     case j_number J v of Some _ \<Rightarrow> j_u64 J v
     | None \<Rightarrow> (case j_string J v of Some s \<Rightarrow> res_ok (parse_u64 s) | None \<Rightarrow> None))"

text \<open>The loop over the lines: a line that is no JSON is skipped, a missing field ends it with \<open>None\<close>.\<close>

fun read_tables :: "'j json_api \<Rightarrow> string list \<Rightarrow> table_usage list option" where
  "read_tables J [] = Some []"
| "read_tables J (line # lines) =
     (if trim line = [] then read_tables J lines
      else case j_parse J line of
        Inl _ \<Rightarrow> read_tables J lines
      | Inr v \<Rightarrow>
          Option.bind (get_string J v ''table'') (\<lambda>table.
          Option.bind (json_u64 J (j_get J v ''rows'')) (\<lambda>rows.
          Option.bind (json_u64 J (j_get J v ''compressed_bytes'')) (\<lambda>comp.
          Option.bind (json_u64 J (j_get J v ''uncompressed_bytes'')) (\<lambda>uncomp.
            map_option (Cons \<lparr>tu_table = table, tu_rows = rows, tu_compressed_bytes = comp,
                             tu_uncompressed_bytes = uncomp\<rparr>) (read_tables J lines))))))"

definition table_sizes_sql :: "string \<Rightarrow> string" where
  "table_sizes_sql db =
     ''SELECT table, sum(rows) AS rows, sum(bytes_on_disk) AS compressed_bytes, ''
     @ ''sum(data_uncompressed_bytes) AS uncompressed_bytes ''
     @ ''FROM system.parts WHERE active AND database = '' @ [quo] @ replace_char quo [quo, quo] db @ [quo]
     @ '' GROUP BY table ORDER BY compressed_bytes DESC FORMAT JSONEachRow''"

definition fetch_table_sizes :: "'j json_api \<Rightarrow> sys_metrics_state \<Rightarrow> table_usage list option" where
  "fetch_table_sizes J st =
     Option.bind (sm_ch_client st) (\<lambda>get.
     let url = trim_end_matches CHR ''/'' (sm_ch_url st) @ ''/?query='' @ urlencode (table_sizes_sql (sm_ch_database st)) in
     Option.bind (res_ok (get url None)) (\<lambda>(success, status, text).
       if \<not> success then None
       else Option.bind (res_ok text) (\<lambda>body. read_tables J (str_lines body))))"

text \<open>\<open>f32\<close>: a share in percent, the usage in hundredths of a percent, and back.\<close>

record 'f f32_api =
  f3_zero :: 'f
  f3_share :: "nat \<Rightarrow> nat \<Rightarrow> 'f"
  f3_centi :: "'f \<Rightarrow> nat"
  f3_of_centi :: "nat \<Rightarrow> 'f"

record disk_info =
  di_mount :: string
  di_total :: nat
  di_available :: nat

record 'f disk_metrics =
  dm_mount :: string
  dm_total_bytes :: nat
  dm_used_bytes :: nat
  dm_free_bytes :: nat
  dm_used_pct :: 'f

definition percent_of :: "'f f32_api \<Rightarrow> nat \<Rightarrow> nat \<Rightarrow> 'f" where
  "percent_of F used space = (if space > 0 then f3_share F used space else f3_zero F)"

text \<open>The loop that keeps the disk with the largest total.\<close>

definition best_disk :: "'f f32_api \<Rightarrow> disk_info list \<Rightarrow> 'f disk_metrics option" where
  "best_disk F disks = fold (\<lambda>d best.
     let space = di_total d; free = di_available d; used = space - free;
         cand = \<lparr>dm_mount = di_mount d, dm_total_bytes = space, dm_used_bytes = used,
                 dm_free_bytes = free, dm_used_pct = percent_of F used space\<rparr>
     in case best of
          None \<Rightarrow> Some cand
        | Some b \<Rightarrow> if dm_total_bytes cand > dm_total_bytes b then Some cand else best) disks None"

record 'f sys_info =
  si_hostname :: "string option"
  si_uptime :: nat
  si_cpus :: nat
  si_usage :: 'f
  si_load :: "'f \<times> 'f \<times> 'f"
  si_total_memory :: nat
  si_available_memory :: nat
  si_disks :: "disk_info list"

record 'f system_metrics_body =
  mb_hostname :: string
  mb_uptime_secs :: nat
  mb_cores :: nat
  mb_usage_pct :: 'f
  mb_peak_pct :: 'f
  mb_load :: "'f \<times> 'f \<times> 'f"
  mb_total_bytes :: nat
  mb_used_bytes :: nat
  mb_available_bytes :: nat
  mb_used_pct :: 'f
  mb_disk :: "'f disk_metrics"
  mb_tables :: "table_usage list"

definition num_cpus :: "'f sys_info \<Rightarrow> nat" where
  "num_cpus sys = (if si_cpus sys = 0 then 1 else si_cpus sys)"

text \<open>The handler; \<open>peak\<close> is what the last load of the shared peak reads (see below).\<close>

definition system_metrics ::
  "'j json_api \<Rightarrow> 'f f32_api \<Rightarrow> 'f sys_info \<Rightarrow> nat \<Rightarrow> sys_metrics_state \<Rightarrow> 'f system_metrics_body" where
  "system_metrics J F sys peak st =
     (let tables = (case fetch_table_sizes J st of Some ts \<Rightarrow> ts | None \<Rightarrow> []);
          total_mem = si_total_memory sys; avail_mem = si_available_memory sys;
          used_mem = total_mem - avail_mem
      in \<lparr>mb_hostname = unwrap_or (si_hostname sys) ''unknown'', mb_uptime_secs = si_uptime sys,
          mb_cores = num_cpus sys, mb_usage_pct = si_usage sys, mb_peak_pct = f3_of_centi F peak,
          mb_load = si_load sys, mb_total_bytes = total_mem, mb_used_bytes = used_mem,
          mb_available_bytes = avail_mem, mb_used_pct = percent_of F used_mem total_mem,
          mb_disk = unwrap_or (best_disk F (si_disks sys))
            \<lparr>dm_mount = ''unknown'', dm_total_bytes = 0, dm_used_bytes = 0, dm_free_bytes = 0,
             dm_used_pct = f3_zero F\<rparr>,
          mb_tables = tables\<rparr>)"

section \<open>The shared peak\<close>

text \<open>
  \<open>CPU_PEAK_CENTI\<close> is updated by any number of requests at once with relaxed atomics. Its state
  is the list of values it has had; a relaxed load, and a failed \<open>compare_exchange_weak\<close>, may read
  any of them, while a successful exchange reads the last one. A request has its sample, then the
  pair of sample and value read, and is done when the loop ends.
\<close>

datatype peak_request = Fresh nat | Comparing nat nat | Finished nat

record peak_state =
  pk_history :: "nat list"
  pk_requests :: "peak_request list"

inductive peak_step :: "peak_state \<Rightarrow> peak_state \<Rightarrow> bool" where
  arrive: "peak_step s (s\<lparr>pk_requests := pk_requests s @ [Fresh c]\<rparr>)"
| load: "i < length (pk_requests s) \<Longrightarrow> pk_requests s ! i = Fresh c \<Longrightarrow> p \<in> set (pk_history s) \<Longrightarrow>
    peak_step s (s\<lparr>pk_requests := (pk_requests s)[i := Comparing c p]\<rparr>)"
| leave: "i < length (pk_requests s) \<Longrightarrow> pk_requests s ! i = Comparing c p \<Longrightarrow> \<not> c > p \<Longrightarrow>
    peak_step s (s\<lparr>pk_requests := (pk_requests s)[i := Finished c]\<rparr>)"
| exchange: "i < length (pk_requests s) \<Longrightarrow> pk_requests s ! i = Comparing c p \<Longrightarrow> c > p \<Longrightarrow>
    p = last (pk_history s) \<Longrightarrow>
    peak_step s (s\<lparr>pk_history := pk_history s @ [c], pk_requests := (pk_requests s)[i := Finished c]\<rparr>)"
| retry: "i < length (pk_requests s) \<Longrightarrow> pk_requests s ! i = Comparing c p \<Longrightarrow> c > p \<Longrightarrow>
    q \<in> set (pk_history s) \<Longrightarrow>
    peak_step s (s\<lparr>pk_requests := (pk_requests s)[i := Comparing c q]\<rparr>)"

definition peak_init :: peak_state where
  "peak_init = \<lparr>pk_history = [0], pk_requests = []\<rparr>"

end
