(* ===== verification/Stream_Server.thy ===== *)
theory Stream_Server
  imports Cluster_Bus Api_Server
begin

text \<open>
  The gRPC stream of \<open>crates/cluster-api/src/stream_server.rs\<close>: the keys of the wire, the messages
  a frame becomes, and \<open>Subscribe\<close>, which opens one receiver of the hub per symbol. The messages
  are those of \<open>proto/cluster.proto\<close>.
\<close>

section \<open>Messages\<close>

record proto_key =
  pr_exchange :: string
  pr_market_type :: string
  pr_symbol :: string

record proto_bucket =
  pb_price :: i64
  pb_bid_qty :: i64
  pb_ask_qty :: i64
  pb_trades :: nat

record proto_snapshot =
  ps_window_start_ns :: i64
  ps_sequence :: i64
  ps_clusters :: "proto_bucket list"

record proto_diff =
  pd_window_start_ns :: i64
  pd_sequence :: i64
  pd_upserts :: "proto_bucket list"
  pd_removes :: "i64 list"

datatype proto_body = SnapshotBody proto_snapshot | DiffBody proto_diff

record proto_frame =
  pf_key :: "proto_key option"
  pf_body :: "proto_body option"

record subscribe_request =
  sr_symbols :: "proto_key list"
  sr_interval_seconds :: nat

section \<open>Keys\<close>

definition parse_exchange :: "string \<Rightarrow> exchange option" where
  "parse_exchange s =
     (if s = ''BINANCE'' then Some Binance
      else if s = ''BINANCEF'' then Some BinanceF
      else if s = ''BYBIT'' then Some Bybit
      else if s = ''BYBITF'' then Some BybitF
      else if s = ''BITGET'' then Some Bitget
      else if s = ''BITGETF'' then Some BitgetF
      else if s = ''OKX'' then Some Okx
      else if s = ''OKXF'' then Some OkxF
      else if s = ''HYPERLIQUID'' then Some Hyperliquid
      else if s = ''HYPERLIQUIDF'' then Some HyperliquidF
      else if s = ''KUCOIN'' then Some Kucoin
      else if s = ''KUCOINF'' then Some KucoinF
      else if s = ''GATE'' then Some Gate
      else if s = ''GATEF'' then Some GateF
      else if s = ''ASTER'' then Some Aster
      else if s = ''ASTERF'' then Some AsterF
      else if s = ''MEXC'' then Some Mexc
      else if s = ''MEXCF'' then Some MexcF
      else if s = ''BINGX'' then Some Bingx
      else if s = ''BINGXF'' then Some BingxF
      else None)"

definition parse_market_type :: "string \<Rightarrow> market_type option" where
  "parse_market_type s =
     (if s = ''SPOT'' then Some Spot else if s = ''PERP'' then Some Perp else None)"

definition market_type_wire :: "market_type \<Rightarrow> string" where
  "market_type_wire m = (case m of Spot \<Rightarrow> ''SPOT'' | Perp \<Rightarrow> ''PERP'')"

definition symbol_key_from_proto :: "proto_key \<Rightarrow> grpc_status + symbol_key" where
  "symbol_key_from_proto p =
     rbind (ok_or (parse_exchange (pr_exchange p)) (InvalidArgument (''unknown exchange: '' @ pr_exchange p))) (\<lambda>ex.
     rbind (ok_or (parse_market_type (pr_market_type p))
              (InvalidArgument (''unknown market_type: '' @ pr_market_type p))) (\<lambda>mt.
       if pr_symbol p = [] then Inl (InvalidArgument ''empty symbol'')
       else Inr (symbol_key_new ex mt (pr_symbol p))))"

definition proto_key_from_domain :: "symbol_key \<Rightarrow> proto_key" where
  "proto_key_from_domain k =
     \<lparr>pr_exchange = wire_id (sk_exchange k), pr_market_type = market_type_wire (sk_market_type k),
      pr_symbol = sk_symbol k\<rparr>"

section \<open>Frames\<close>

definition bucket_to_proto :: "cluster_bucket \<Rightarrow> proto_bucket" where
  "bucket_to_proto b =
     \<lparr>pb_price = cb_price b, pb_bid_qty = cb_bid_qty b, pb_ask_qty = cb_ask_qty b, pb_trades = cb_trades b\<rparr>"

definition snapshot_to_proto :: "analytics_snapshot \<Rightarrow> proto_snapshot" where
  "snapshot_to_proto s =
     \<lparr>ps_window_start_ns = as_window_start_ns s, ps_sequence = as_sequence s,
      ps_clusters = map bucket_to_proto (as_clusters s)\<rparr>"

definition diff_to_proto :: "analytics_diff \<Rightarrow> proto_diff" where
  "diff_to_proto d =
     \<lparr>pd_window_start_ns = ad_window_start_ns d, pd_sequence = ad_sequence d,
      pd_upserts = map bucket_to_proto (ad_upserts d), pd_removes = ad_removes d\<rparr>"

definition frame_to_proto :: "proto_key \<Rightarrow> cluster_frame \<Rightarrow> proto_frame" where
  "frame_to_proto key frame =
     (let body = (case frame of
          Snapshot s \<Rightarrow> SnapshotBody (snapshot_to_proto s)
        | Diff d \<Rightarrow> DiffBody (diff_to_proto d))
      in \<lparr>pf_key = Some key, pf_body = Some body\<rparr>)"

section \<open>Subscribe\<close>

text \<open>What a receiver yields; a lagged receiver goes on with the oldest frame still there.\<close>

datatype bus_item = RecvFrame cluster_frame | RecvLagged nat

definition stream_items :: "proto_key \<Rightarrow> bus_item list \<Rightarrow> proto_frame list" where
  "stream_items key items =
     List.map_filter (\<lambda>r. case r of
         RecvFrame frame \<Rightarrow> Some (frame_to_proto key frame)
       | RecvLagged n \<Rightarrow> None) items"

fun subscribe_loop ::
  "('ch, 'rx) broadcast_api \<Rightarrow> nat \<Rightarrow> 'ch cluster_bus \<Rightarrow> proto_key list
   \<Rightarrow> 'ch cluster_bus \<times> (grpc_status + (proto_key \<times> 'rx) list)" where
  "subscribe_loop B interval_seconds bus [] = (bus, Inr [])"
| "subscribe_loop B interval_seconds bus (s # syms) =
     (case symbol_key_from_proto s of
        Inl e \<Rightarrow> (bus, Inl e)
      | Inr symbol_key \<Rightarrow>
          let (bus1, rx) = subscribe B bus (stream_key_new symbol_key interval_seconds);
              key = proto_key_from_domain symbol_key;
              (bus2, rest) = subscribe_loop B interval_seconds bus1 syms
          in (bus2, rbind rest (\<lambda>streams. Inr ((key, rx) # streams))))"

definition stream_subscribe ::
  "('ch, 'rx) broadcast_api \<Rightarrow> 'ch cluster_bus \<Rightarrow> subscribe_request
   \<Rightarrow> 'ch cluster_bus \<times> (grpc_status + (proto_key \<times> 'rx) list)" where
  "stream_subscribe B bus req =
     (if sr_symbols req = [] then (bus, Inl (InvalidArgument ''subscribe with empty symbol list''))
      else if length (sr_symbols req) > 1024
        then (bus, Inl (InvalidArgument ''too many symbols in one subscribe (max 1024)''))
      else
        let interval_seconds = (if sr_interval_seconds req = 0 then 60 else sr_interval_seconds req)
        in subscribe_loop B interval_seconds bus (sr_symbols req))"

end
