(* ===== verification/Ingest_Config.thy ===== *)
theory Ingest_Config
  imports Cluster_History
begin

text \<open>
  The configuration of \<open>crates/cluster-ingest/src/config.rs\<close>: its structs with their defaults, the
  overrides from the environment, the checks made at start, and the TTL clause built from the
  retention rules. The TOML reader is a parameter; an environment variable is its value, if set.
\<close>

section \<open>Structs and defaults\<close>

record auth_config =
  ac_enabled :: bool
  ac_tokens :: "string list"

definition auth_config_default :: auth_config where
  "auth_config_default = \<lparr>ac_enabled = False, ac_tokens = []\<rparr>"

record retention_override =
  ro_exchange :: string
  ro_market_type :: string
  ro_interval_seconds :: "nat option"
  ro_days :: nat

record retention_config =
  rc_default_days :: nat
  rc_move_to_cold_days :: "nat option"
  rc_apply_on_start :: bool
  rc_overrides :: "retention_override list"

definition default_retention_days :: nat where "default_retention_days = 7"

definition retention_config_default :: retention_config where
  "retention_config_default =
     \<lparr>rc_default_days = default_retention_days, rc_move_to_cold_days = None, rc_apply_on_start = True,
      rc_overrides = []\<rparr>"

datatype rank_by = Alphabetical | Volume24h

record perp_config =
  pc_enabled :: bool
  pc_include_quotes :: "string list"
  pc_allow :: "string list"
  pc_deny :: "string list"
  pc_top_n :: "nat option"
  pc_rank_by :: rank_by
  pc_discovery_poll_secs :: nat
  pc_ws_connect_timeout_ms :: nat
  pc_reconnect_backoff_min_ms :: nat
  pc_reconnect_backoff_max_ms :: nat

definition default_include_quotes :: "string list" where
  "default_include_quotes = [''USDT'', ''USDC'']"

definition default_discovery_poll_secs :: nat where "default_discovery_poll_secs = 300"
definition default_ws_connect_timeout_ms :: nat where "default_ws_connect_timeout_ms = 15000"
definition default_backoff_min_ms :: nat where "default_backoff_min_ms = 500"
definition default_backoff_max_ms :: nat where "default_backoff_max_ms = 30000"

definition perp_config_default :: perp_config where
  "perp_config_default =
     \<lparr>pc_enabled = True, pc_include_quotes = default_include_quotes, pc_allow = [], pc_deny = [],
      pc_top_n = None, pc_rank_by = Alphabetical,
      pc_discovery_poll_secs = default_discovery_poll_secs,
      pc_ws_connect_timeout_ms = default_ws_connect_timeout_ms,
      pc_reconnect_backoff_min_ms = default_backoff_min_ms,
      pc_reconnect_backoff_max_ms = default_backoff_max_ms\<rparr>"

text \<open>The section \<open>[ingest.exchanges]\<close> is the list of the sections that are present, by name.\<close>

record ingest_config =
  ic_region :: string
  ic_clickhouse_url :: string
  ic_clickhouse_database :: string
  ic_clickhouse_table :: string
  ic_timeframes_secs :: "nat list"
  ic_window_ms :: i64
  ic_diff_interval_ms :: i64
  ic_agg_tick_interval_ms :: nat
  ic_trade_channel_bound :: nat
  ic_ch_channel_bound :: nat
  ic_grpc_listen :: string
  ic_rest_listen :: string
  ic_auth :: auth_config
  ic_retention :: retention_config
  ic_enabled_exchanges :: "string list"
  ic_exchanges :: "(string \<times> perp_config) list"

definition default_region :: string where "default_region = ''tokyo''"
definition default_ch_url :: string where "default_ch_url = ''http://127.0.0.1:8123''"
definition default_ch_database :: string where "default_ch_database = ''clusters''"
definition default_ch_table :: string where "default_ch_table = ''clusters_1m''"
definition default_window_ms :: i64 where "default_window_ms = 60000"
definition default_timeframes_secs :: "nat list" where "default_timeframes_secs = [60]"
definition default_diff_interval_ms :: i64 where "default_diff_interval_ms = 200"
definition default_agg_tick_ms :: nat where "default_agg_tick_ms = 100"
definition default_trade_channel_bound :: nat where "default_trade_channel_bound = 32768"
definition default_ch_channel_bound :: nat where "default_ch_channel_bound = 65536"
definition default_grpc_listen :: string where "default_grpc_listen = ''127.0.0.1:50051''"
definition default_rest_listen :: string where "default_rest_listen = ''127.0.0.1:8080''"

definition ingest_config_default :: ingest_config where
  "ingest_config_default =
     \<lparr>ic_region = default_region, ic_clickhouse_url = default_ch_url,
      ic_clickhouse_database = default_ch_database, ic_clickhouse_table = default_ch_table,
      ic_timeframes_secs = default_timeframes_secs, ic_window_ms = default_window_ms,
      ic_diff_interval_ms = default_diff_interval_ms, ic_agg_tick_interval_ms = default_agg_tick_ms,
      ic_trade_channel_bound = default_trade_channel_bound,
      ic_ch_channel_bound = default_ch_channel_bound,
      ic_grpc_listen = default_grpc_listen, ic_rest_listen = default_rest_listen,
      ic_auth = auth_config_default, ic_retention = retention_config_default,
      ic_enabled_exchanges = [], ic_exchanges = []\<rparr>"

text \<open>
  The bounds \<open>mpsc::channel\<close> accepts: it asserts a positive one, and the semaphore behind it at most
  \<open>Semaphore::MAX_PERMITS\<close>, which is \<open>usize::MAX >> 3\<close>.
\<close>

definition max_permits :: nat where "max_permits = 2305843009213693951"

definition channel_bound_ok :: "nat \<Rightarrow> bool" where
  "channel_bound_ok n \<longleftrightarrow> 0 < n \<and> n \<le> max_permits"

definition config_parse :: "(string \<Rightarrow> string + ingest_config) \<Rightarrow> string \<Rightarrow> string + ingest_config" where
  "config_parse toml s = map_err (\<lambda>_. ''parse cluster-ingest config'') (toml s)"

text \<open>\<open>read_file\<close> is the file system: the text of a file or the error.\<close>

definition config_load ::
  "(string \<Rightarrow> string + string) \<Rightarrow> (string \<Rightarrow> string + ingest_config) \<Rightarrow> string \<Rightarrow> string + ingest_config" where
  "config_load read_file toml path =
     rbind (map_err (\<lambda>_. ''read config '' @ path) (read_file path)) (config_parse toml)"

section \<open>Authentication\<close>

definition auth_apply_env :: "string option \<Rightarrow> string option \<Rightarrow> auth_config \<Rightarrow> auth_config" where
  "auth_apply_env token_env enabled_env a =
     (let a1 = (case token_env of
            Some t \<Rightarrow> if t \<noteq> [] then a\<lparr>ac_tokens := ac_tokens a @ [t]\<rparr> else a
          | None \<Rightarrow> a)
      in case enabled_env of
           Some v \<Rightarrow> a1\<lparr>ac_enabled := (v = ''1'' \<or> v = ''true'' \<or> v = ''TRUE'' \<or> v = ''yes'')\<rparr>
         | None \<Rightarrow> a1)"

definition auth_validate :: "auth_config \<Rightarrow> string + unit" where
  "auth_validate a =
     (if ac_enabled a \<and> ac_tokens a = [] then Inl ''auth.enabled = true but no tokens'' else Inr ())"

section \<open>Retention\<close>

text \<open>The rules that apply to a timeframe, one per exchange and market, an explicit interval first.\<close>

definition effective_step ::
  "nat \<Rightarrow> retention_override \<Rightarrow> ((string \<times> string) \<times> retention_override) list
   \<Rightarrow> ((string \<times> string) \<times> retention_override) list" where
  "effective_step interval_seconds ov effective =
     (if (case ro_interval_seconds ov of Some tf \<Rightarrow> tf \<noteq> interval_seconds | None \<Rightarrow> False) then effective
      else
        let k = (ro_exchange ov, ro_market_type ov) in
        case map_of effective k of
          None \<Rightarrow> AList.update k ov effective
        | Some prev \<Rightarrow>
            if ro_interval_seconds prev = None \<and> ro_interval_seconds ov \<noteq> None
            then AList.update k ov effective else effective)"

definition effective_overrides ::
  "retention_config \<Rightarrow> nat \<Rightarrow> ((string \<times> string) \<times> retention_override) list" where
  "effective_overrides r interval_seconds = fold (effective_step interval_seconds) (rc_overrides r) []"

definition override_cond :: "retention_override \<Rightarrow> string" where
  "override_cond ov =
     ''exchange = '' @ [quo] @ sql_escape (ro_exchange ov) @ [quo]
     @ '' AND market_type = '' @ [quo] @ sql_escape (ro_market_type ov) @ [quo]"

definition ttl_clause_for :: "retention_config \<Rightarrow> nat \<Rightarrow> string option" where
  "ttl_clause_for r interval_seconds =
     (let effective = map snd (effective_overrides r interval_seconds);
          clauses1 = map (\<lambda>ov. ''toDateTime(window_start) + INTERVAL '' @ nat_to_string (ro_days ov)
                           @ '' DAY DELETE WHERE '' @ override_cond ov)
                       (filter (\<lambda>ov. ro_days ov > 0) effective);
          excluded_conditions = map override_cond effective;
          default_where = (if excluded_conditions = [] then []
            else '' WHERE NOT ('' @ join_with '' OR '' excluded_conditions @ '')'');
          clauses2 =
            (if rc_default_days r > 0 then
               (case rc_move_to_cold_days r of
                  Some cold \<Rightarrow> if cold > 0 \<and> cold < rc_default_days r
                    then [''toDateTime(window_start) + INTERVAL '' @ nat_to_string cold @ '' DAY TO VOLUME ''
                          @ [quo] @ ''cold'' @ [quo] @ default_where] else []
                | None \<Rightarrow> [])
               @ [''toDateTime(window_start) + INTERVAL '' @ nat_to_string (rc_default_days r) @ '' DAY DELETE''
                  @ default_where]
             else []);
          clauses = clauses1 @ clauses2
      in if clauses = [] then None else Some (join_with '', '' clauses))"

text \<open>The loop of \<open>validate\<close>, with the set of the keys seen so far.\<close>

fun retention_validate_loop ::
  "(string \<times> string \<times> nat option) list \<Rightarrow> retention_override list \<Rightarrow> string + unit" where
  "retention_validate_loop seen [] = Inr ()"
| "retention_validate_loop seen (ov # ovs) =
     (let key = (ro_exchange ov, ro_market_type ov, ro_interval_seconds ov) in
      if key \<in> set seen then Inl ''retention.override: duplicate''
      else if ro_exchange ov \<noteq> to_uppercase (ro_exchange ov) then Inl ''retention.override.exchange: upper case expected''
      else if ro_market_type ov \<noteq> to_lowercase (ro_market_type ov)
        then Inl ''retention.override.market_type: lower case expected''
      else if ro_market_type ov \<noteq> ''spot'' \<and> ro_market_type ov \<noteq> ''perp''
        then Inl ''retention.override.market_type: spot or perp''
      else retention_validate_loop (key # seen) ovs)"

definition retention_validate :: "retention_config \<Rightarrow> string + unit" where
  "retention_validate r = retention_validate_loop [] (rc_overrides r)"

section \<open>Timeframes and exchanges\<close>

fun validate_timeframes_loop :: "nat list \<Rightarrow> nat list \<Rightarrow> string + unit" where
  "validate_timeframes_loop seen [] = Inr ()"
| "validate_timeframes_loop seen (tf # tfs) =
     (if tf = 0 then Inl ''timeframes_secs: 0''
      else if tf < 30 then Inl (''timeframes_secs: '' @ nat_to_string tf @ ''s is too small'')
      else if tf \<in> set seen then Inl (''timeframes_secs: duplicate '' @ nat_to_string tf)
      else validate_timeframes_loop (tf # seen) tfs)"

definition validate_timeframes :: "ingest_config \<Rightarrow> string + unit" where
  "validate_timeframes c =
     (if ic_timeframes_secs c = [] then Inl ''timeframes_secs: empty''
      else validate_timeframes_loop [] (ic_timeframes_secs c))"

definition is_exchange_enabled :: "ingest_config \<Rightarrow> string \<Rightarrow> bool \<Rightarrow> bool" where
  "is_exchange_enabled c name per_section_enabled =
     (if ic_enabled_exchanges c = [] then per_section_enabled
      else list_ex (\<lambda>n. n = name) (ic_enabled_exchanges c))"

text \<open>Durations, in milliseconds.\<close>

definition agg_tick_interval :: "ingest_config \<Rightarrow> nat" where
  "agg_tick_interval c = ic_agg_tick_interval_ms c"

definition discovery_poll :: "perp_config \<Rightarrow> nat" where
  "discovery_poll c = pc_discovery_poll_secs c * 1000"

definition ws_connect_timeout :: "perp_config \<Rightarrow> nat" where
  "ws_connect_timeout c = pc_ws_connect_timeout_ms c"

definition perp_backoff_min :: "perp_config \<Rightarrow> nat" where
  "perp_backoff_min c = pc_reconnect_backoff_min_ms c"

definition perp_backoff_max :: "perp_config \<Rightarrow> nat" where
  "perp_backoff_max c = pc_reconnect_backoff_max_ms c"

end
