(* ===== verification/Sessions.thy ===== *)
theory Sessions
  imports Binance Aster Bybit Bitget Okx Kucoin Mexc Bingx Hyperliquid
begin

text \<open>
  The websocket sessions of \<open>crates/cluster-ingest/src/*_session.rs\<close>, one file per exchange: how a
  frame is decoded, matched to the route of its symbol and handed to that route's channel, what is
  counted, and when a session ends. The socket is a list of events, the channels are a state of any
  type \<open>'q\<close> with its \<open>try_send\<close>, and the gzip decoder is a parameter. A handler that panics is
  \<open>None\<close>; log messages and the pauses between subscribe frames are left out.
\<close>

section \<open>Routes, channels and statistics\<close>

record symbol_route =
  rt_spec :: symbol_spec
  rt_sink :: nat

type_synonym routing = "(string \<times> symbol_route) list"

datatype send_outcome = Sent | SendClosed | SendFull

type_synonym 'q sender = "'q \<Rightarrow> nat \<Rightarrow> trade_print \<Rightarrow> 'q \<times> send_outcome"

record session_stats =
  ss_trades_emitted :: nat
  ss_trades_dropped_backpressure :: nat
  ss_trades_dropped_closed :: nat
  ss_parse_errors :: nat
  ss_frames_undecodable :: nat
  ss_pongs_sent :: nat
  ss_gaps_detected :: nat
  ss_trades_missing :: nat

definition stats_default :: session_stats where
  "stats_default = \<lparr>ss_trades_emitted = 0, ss_trades_dropped_backpressure = 0, ss_trades_dropped_closed = 0,
     ss_parse_errors = 0, ss_frames_undecodable = 0, ss_pongs_sent = 0, ss_gaps_detected = 0,
     ss_trades_missing = 0\<rparr>"

text \<open>The locals of a running session; an \<open>Instant\<close> is a number of milliseconds.\<close>

record 'q session =
  sn_stats :: session_stats
  sn_queues :: 'q
  sn_gap_state :: "(string \<times> nat) list"
  sn_last_gap_warn :: "nat option"

definition session_start :: "'q \<Rightarrow> 'q session" where
  "session_start q = \<lparr>sn_stats = stats_default, sn_queues = q, sn_gap_state = [], sn_last_gap_warn = None\<rparr>"

definition bump :: "(session_stats \<Rightarrow> session_stats) \<Rightarrow> 'q session \<Rightarrow> 'q session" where
  "bump f s = s\<lparr>sn_stats := f (sn_stats s)\<rparr>"

definition inc :: "nat \<Rightarrow> nat" where "inc n = wrap_u64 (n + 1)"

definition emit_trade :: "'q sender \<Rightarrow> symbol_route \<Rightarrow> trade_print \<Rightarrow> 'q session \<Rightarrow> 'q session" where
  "emit_trade snd_op route trade s =
     (let (q, outcome) = snd_op (sn_queues s) (rt_sink route) trade; s1 = s\<lparr>sn_queues := q\<rparr> in
      case outcome of
        Sent \<Rightarrow> bump (ss_trades_emitted_update inc) s1
      | SendFull \<Rightarrow> bump (ss_trades_dropped_backpressure_update inc) s1
      | SendClosed \<Rightarrow> bump (ss_trades_dropped_closed_update inc) s1)"

definition route_by :: "(symbol_spec \<Rightarrow> string) \<Rightarrow> symbol_route list \<Rightarrow> routing" where
  "route_by key routes = fold (\<lambda>r. AList.update (key (rt_spec r)) r) routes []"

section \<open>Gap detection\<close>

definition gap_warn_interval :: nat where "gap_warn_interval = 5000"

definition detect_gap :: "string \<Rightarrow> nat \<Rightarrow> nat \<Rightarrow> 'q session \<Rightarrow> 'q session" where
  "detect_gap symbol trade_id now s =
     (case map_of (sn_gap_state s) symbol of
        None \<Rightarrow> s\<lparr>sn_gap_state := AList.update symbol trade_id (sn_gap_state s)\<rparr>
      | Some last_id \<Rightarrow>
          let s1 =
            (if trade_id > wrap_u64 (last_id + 1) then
               let missed = wrapping_sub_u64 (wrapping_sub_u64 trade_id last_id) 1;
                   s2 = bump (ss_gaps_detected_update inc) s;
                   s3 = bump (ss_trades_missing_update (\<lambda>n. saturating_add_u64 n missed)) s2
               in if (case sn_last_gap_warn s3 of None \<Rightarrow> True | Some t \<Rightarrow> now - t \<ge> gap_warn_interval)
                  then s3\<lparr>sn_last_gap_warn := Some now\<rparr> else s3
             else s)
          in if trade_id > last_id
             then s1\<lparr>sn_gap_state := AList.update symbol trade_id (sn_gap_state s1)\<rparr> else s1)"

section \<open>Frames\<close>

text \<open>What the handlers share: decode the frame, find the route of the key it names, parse the
  trades with the route's specification and hand them over.\<close>

definition with_json ::
  "'j json_api \<Rightarrow> byte list \<Rightarrow> ('j \<Rightarrow> 'q session \<Rightarrow> 'q session option) \<Rightarrow> 'q session \<Rightarrow> 'q session option" where
  "with_json J raw k s =
     (case j_parse_bytes J raw of
        Inl e \<Rightarrow> Some (bump (ss_frames_undecodable_update inc) s)
      | Inr v \<Rightarrow> k v s)"

definition emit_parsed ::
  "'q sender \<Rightarrow> symbol_route \<Rightarrow> exchange_error + trade_print list \<Rightarrow> 'q session \<Rightarrow> 'q session" where
  "emit_parsed snd_op route parsed s =
     (case parsed of
        Inl e \<Rightarrow> bump (ss_parse_errors_update inc) s
      | Inr trades \<Rightarrow> fold (emit_trade snd_op route) trades s)"

definition route_frame ::
  "'q sender \<Rightarrow> routing \<Rightarrow> string option
   \<Rightarrow> (symbol_spec \<Rightarrow> (exchange_error + trade_print list) option) \<Rightarrow> 'q session \<Rightarrow> 'q session option" where
  "route_frame snd_op routing key parse s =
     (case key of
        None \<Rightarrow> Some s
      | Some k \<Rightarrow>
          (case map_of routing k of
             None \<Rightarrow> Some s
           | Some route \<Rightarrow>
               map_option (\<lambda>parsed. emit_parsed snd_op route parsed s) (parse (rt_spec route))))"

text \<open>Binance: a single trade, whose id is checked for a gap before it is handed over.\<close>

definition binance_handle_payload ::
  "'j json_api \<Rightarrow> 'q sender \<Rightarrow> routing \<Rightarrow> nat \<Rightarrow> byte list \<Rightarrow> 'q session \<Rightarrow> 'q session option" where
  "binance_handle_payload J snd_op routing now raw =
     with_json J raw (\<lambda>v s.
       case map_option to_uppercase (binance_peek_symbol J v) of
         None \<Rightarrow> Some s
       | Some upper \<Rightarrow>
           (case map_of routing upper of
              None \<Rightarrow> Some s
            | Some route \<Rightarrow>
                (case binance_parse_value J v (rt_spec route) of
                   Inl e \<Rightarrow> Some (bump (ss_parse_errors_update inc) s)
                 | Inr None \<Rightarrow> Some s
                 | Inr (Some trade) \<Rightarrow>
                     Some (emit_trade snd_op route trade (detect_gap upper (tp_trade_id trade) now s)))))"

definition aster_handle_payload ::
  "'j json_api \<Rightarrow> 'q sender \<Rightarrow> routing \<Rightarrow> byte list \<Rightarrow> 'q session \<Rightarrow> 'q session option" where
  "aster_handle_payload J snd_op routing raw =
     with_json J raw (\<lambda>v s.
       case map_option to_uppercase (binance_peek_symbol J v) of
         None \<Rightarrow> Some s
       | Some upper \<Rightarrow>
           (case map_of routing upper of
              None \<Rightarrow> Some s
            | Some route \<Rightarrow>
                (case binance_parse_value J v (rt_spec route) of
                   Inl e \<Rightarrow> Some (bump (ss_parse_errors_update inc) s)
                 | Inr None \<Rightarrow> Some s
                 | Inr (Some trade) \<Rightarrow> Some (emit_trade snd_op route trade s))))"

definition bybit_handle_payload ::
  "'j json_api \<Rightarrow> 'q sender \<Rightarrow> routing \<Rightarrow> byte list \<Rightarrow> 'q session \<Rightarrow> 'q session option" where
  "bybit_handle_payload J snd_op routing raw =
     with_json J raw (\<lambda>v. route_frame snd_op routing (map_option to_uppercase (bybit_peek_symbol J v))
       (\<lambda>spec. Some (bybit_parse_value J v spec)))"

definition bitget_handle_payload ::
  "'j json_api \<Rightarrow> 'q sender \<Rightarrow> routing \<Rightarrow> byte list \<Rightarrow> 'q session \<Rightarrow> 'q session option" where
  "bitget_handle_payload J snd_op routing raw =
     with_json J raw (\<lambda>v. route_frame snd_op routing (bitget_peek_symbol J v)
       (\<lambda>spec. Some (bitget_parse_value J v spec)))"

definition okx_handle_payload ::
  "'j json_api \<Rightarrow> ct_map \<Rightarrow> 'q sender \<Rightarrow> routing \<Rightarrow> byte list \<Rightarrow> 'q session \<Rightarrow> 'q session option" where
  "okx_handle_payload J cts snd_op routing raw =
     with_json J raw (\<lambda>v. route_frame snd_op routing (okx_peek_symbol J v)
       (\<lambda>spec. okx_parse_value J cts v spec))"

definition kucoin_handle_payload ::
  "'j json_api \<Rightarrow> ct_map \<Rightarrow> 'q sender \<Rightarrow> routing \<Rightarrow> byte list \<Rightarrow> 'q session \<Rightarrow> 'q session option" where
  "kucoin_handle_payload J cts snd_op routing raw =
     with_json J raw (\<lambda>v s.
       if get_string J v ''type'' = Some ''error'' then Some s
       else route_frame snd_op routing (kucoin_peek_symbol J v) (\<lambda>spec. kucoin_parse_value J cts v spec) s)"

definition hyperliquid_handle ::
  "'j json_api \<Rightarrow> 'q sender \<Rightarrow> routing \<Rightarrow> byte list \<Rightarrow> 'q session \<Rightarrow> 'q session option" where
  "hyperliquid_handle J snd_op routing raw =
     with_json J raw (\<lambda>v. route_frame snd_op routing (hyperliquid_peek_symbol J v)
       (\<lambda>spec. Some (hyperliquid_parse_value J v spec)))"

text \<open>MEXC has a protobuf frame on the spot market and a JSON frame on the futures market.\<close>

definition mexc_spot_frame :: "'q sender \<Rightarrow> routing \<Rightarrow> byte list \<Rightarrow> 'q session \<Rightarrow> 'q session option" where
  "mexc_spot_frame snd_op routing raw =
     route_frame snd_op routing (mexc_spot_peek_symbol raw) (\<lambda>spec. Some (mexc_spot_parse_value raw spec))"

definition mexc_futures_frame ::
  "'j json_api \<Rightarrow> ct_map \<Rightarrow> 'q sender \<Rightarrow> routing \<Rightarrow> byte list \<Rightarrow> 'q session \<Rightarrow> 'q session option" where
  "mexc_futures_frame J cts snd_op routing raw =
     with_json J raw (\<lambda>v. route_frame snd_op routing (mexc_futures_peek_symbol J v)
       (\<lambda>spec. mexc_futures_parse_value J cts v spec))"

text \<open>BingX: a frame may be a ping, which is answered with a text.\<close>

definition quoted :: "string \<Rightarrow> string" where
  "quoted s = CHR 0x22 # s @ [CHR 0x22]"

definition bingx_process_frame ::
  "'j json_api \<Rightarrow> 'q sender \<Rightarrow> routing \<Rightarrow> string \<Rightarrow> 'q session \<Rightarrow> ('q session \<times> string option) option" where
  "bingx_process_frame J snd_op routing body s =
     (case j_parse J (dropWhile is_whitespace body) of
        Inl e \<Rightarrow> Some (bump (ss_frames_undecodable_update inc) s, None)
      | Inr v \<Rightarrow>
          (case get_string J v ''ping'' of
             Some ping \<Rightarrow>
               Some (s, Some (case get_string J v ''time'' of
                 Some t \<Rightarrow> ''{'' @ quoted ''pong'' @ '':'' @ quoted ping @ '','' @ quoted ''time'' @ '':'' @ quoted t @ ''}''
               | None \<Rightarrow> ''{'' @ quoted ''pong'' @ '':'' @ quoted ping @ ''}''))
           | None \<Rightarrow>
               map_option (\<lambda>s'. (s', None))
                 (route_frame snd_op routing (bingx_peek_symbol J v)
                    (\<lambda>spec. Some (bingx_parse_value J v spec)) s)))"

section \<open>The socket loop\<close>

datatype io_kind = ConnectionReset | ConnectionAborted | UnexpectedEof | BrokenPipe | OtherKind

datatype ws_error = ConnectionClosed | AlreadyClosed | IoErr io_kind | OtherError

definition is_soft_close :: "ws_error \<Rightarrow> bool" where
  "is_soft_close e =
     (case e of
        ConnectionClosed \<Rightarrow> True
      | AlreadyClosed \<Rightarrow> True
      | IoErr k \<Rightarrow> k = ConnectionReset \<or> k = ConnectionAborted \<or> k = UnexpectedEof \<or> k = BrokenPipe
      | OtherError \<Rightarrow> False)"

datatype ws_message = WsText string | WsBinary "byte list" | WsPing | WsPong | WsFrame | WsClose

text \<open>What \<open>select!\<close> delivers: the ping timer or the stream's next item. The flag says whether the
  write the event calls for succeeds; a received message carries the clock.\<close>

datatype ws_event =
  PingDue bool
| StreamEnd
| Received ws_message nat bool
| ReadError ws_error

datatype session_end = StillOpen | Ended | Failed

text \<open>The parts in which the loops differ: the two handlers, whether a ping sent and a pong sent
  are counted.\<close>

record 'q session_profile =
  pf_on_text :: "nat \<Rightarrow> string \<Rightarrow> 'q session \<Rightarrow> ('q session \<times> string option) option"
  pf_on_binary :: "nat \<Rightarrow> byte list \<Rightarrow> 'q session \<Rightarrow> ('q session \<times> string option) option"
  pf_counts_pings :: bool
  pf_counts_pongs :: bool

definition pump_step ::
  "'q session_profile \<Rightarrow> 'q session \<Rightarrow> ws_event \<Rightarrow> ('q session \<times> session_end) option" where
  "pump_step p s e =
     (let reply = (\<lambda>ok (s', body). (s', if body = None \<or> ok then StillOpen else Failed)) in
      case e of
        PingDue ok \<Rightarrow>
          Some (if \<not> ok then (s, Failed)
                else (if pf_counts_pings p then bump (ss_pongs_sent_update inc) s else s, StillOpen))
      | StreamEnd \<Rightarrow> Some (s, Ended)
      | ReadError err \<Rightarrow> Some (s, if is_soft_close err then Ended else Failed)
      | Received m now ok \<Rightarrow>
          (case m of
             WsText t \<Rightarrow> map_option (reply ok) (pf_on_text p now t s)
           | WsBinary b \<Rightarrow> map_option (reply ok) (pf_on_binary p now b s)
           | WsPing \<Rightarrow>
               Some (if \<not> ok then (s, Failed)
                     else (if pf_counts_pongs p then bump (ss_pongs_sent_update inc) s else s, StillOpen))
           | WsPong \<Rightarrow> Some (s, StillOpen)
           | WsFrame \<Rightarrow> Some (s, StillOpen)
           | WsClose \<Rightarrow> Some (s, Ended)))"

fun pump :: "'q session_profile \<Rightarrow> 'q session \<Rightarrow> ws_event list \<Rightarrow> ('q session \<times> session_end) option" where
  "pump p s [] = Some (s, StillOpen)"
| "pump p s (e # es) =
     (case pump_step p s e of
        None \<Rightarrow> None
      | Some (s', StillOpen) \<Rightarrow> pump p s' es
      | Some (s', Ended) \<Rightarrow> Some (s', Ended)
      | Some (s', Failed) \<Rightarrow> Some (s', Failed))"

definition no_reply :: "'q session option \<Rightarrow> ('q session \<times> string option) option" where
  "no_reply r = map_option (\<lambda>s. (s, None)) r"

definition binance_profile :: "'j json_api \<Rightarrow> 'q sender \<Rightarrow> routing \<Rightarrow> 'q session_profile" where
  "binance_profile J snd_op routing =
     \<lparr>pf_on_text = (\<lambda>now t s. no_reply (binance_handle_payload J snd_op routing now (as_bytes t) s)),
      pf_on_binary = (\<lambda>now b s. no_reply (binance_handle_payload J snd_op routing now b s)),
      pf_counts_pings = False, pf_counts_pongs = True\<rparr>"

definition aster_profile :: "'j json_api \<Rightarrow> 'q sender \<Rightarrow> routing \<Rightarrow> 'q session_profile" where
  "aster_profile J snd_op routing =
     \<lparr>pf_on_text = (\<lambda>now t s. no_reply (aster_handle_payload J snd_op routing (as_bytes t) s)),
      pf_on_binary = (\<lambda>now b s. no_reply (aster_handle_payload J snd_op routing b s)),
      pf_counts_pings = False, pf_counts_pongs = False\<rparr>"

definition bybit_profile :: "'j json_api \<Rightarrow> 'q sender \<Rightarrow> routing \<Rightarrow> 'q session_profile" where
  "bybit_profile J snd_op routing =
     \<lparr>pf_on_text = (\<lambda>now t s. no_reply (bybit_handle_payload J snd_op routing (as_bytes t) s)),
      pf_on_binary = (\<lambda>now b s. no_reply (bybit_handle_payload J snd_op routing b s)),
      pf_counts_pings = True, pf_counts_pongs = False\<rparr>"

definition bitget_profile :: "'j json_api \<Rightarrow> 'q sender \<Rightarrow> routing \<Rightarrow> 'q session_profile" where
  "bitget_profile J snd_op routing =
     \<lparr>pf_on_text = (\<lambda>now t s. no_reply (if t = ''pong'' then Some s
          else bitget_handle_payload J snd_op routing (as_bytes t) s)),
      pf_on_binary = (\<lambda>now b s. no_reply (bitget_handle_payload J snd_op routing b s)),
      pf_counts_pings = True, pf_counts_pongs = False\<rparr>"

definition okx_profile :: "'j json_api \<Rightarrow> ct_map \<Rightarrow> 'q sender \<Rightarrow> routing \<Rightarrow> 'q session_profile" where
  "okx_profile J cts snd_op routing =
     \<lparr>pf_on_text = (\<lambda>now t s. no_reply (if t = ''pong'' then Some s
          else okx_handle_payload J cts snd_op routing (as_bytes t) s)),
      pf_on_binary = (\<lambda>now b s. no_reply (okx_handle_payload J cts snd_op routing b s)),
      pf_counts_pings = True, pf_counts_pongs = False\<rparr>"

definition kucoin_profile :: "'j json_api \<Rightarrow> ct_map \<Rightarrow> 'q sender \<Rightarrow> routing \<Rightarrow> 'q session_profile" where
  "kucoin_profile J cts snd_op routing =
     \<lparr>pf_on_text = (\<lambda>now t s. no_reply (kucoin_handle_payload J cts snd_op routing (as_bytes t) s)),
      pf_on_binary = (\<lambda>now b s. no_reply (kucoin_handle_payload J cts snd_op routing b s)),
      pf_counts_pings = False, pf_counts_pongs = False\<rparr>"

definition hyperliquid_profile :: "'j json_api \<Rightarrow> 'q sender \<Rightarrow> routing \<Rightarrow> 'q session_profile" where
  "hyperliquid_profile J snd_op routing =
     \<lparr>pf_on_text = (\<lambda>now t s. no_reply (hyperliquid_handle J snd_op routing (as_bytes t) s)),
      pf_on_binary = (\<lambda>now b s. no_reply (hyperliquid_handle J snd_op routing b s)),
      pf_counts_pings = False, pf_counts_pongs = False\<rparr>"

definition mexc_spot_profile :: "'q sender \<Rightarrow> routing \<Rightarrow> 'q session_profile" where
  "mexc_spot_profile snd_op routing =
     \<lparr>pf_on_text = (\<lambda>now t s. no_reply (Some s)),
      pf_on_binary = (\<lambda>now b s. no_reply (mexc_spot_frame snd_op routing b s)),
      pf_counts_pings = False, pf_counts_pongs = False\<rparr>"

definition mexc_futures_profile :: "'j json_api \<Rightarrow> ct_map \<Rightarrow> 'q sender \<Rightarrow> routing \<Rightarrow> 'q session_profile" where
  "mexc_futures_profile J cts snd_op routing =
     \<lparr>pf_on_text = (\<lambda>now t s. no_reply (mexc_futures_frame J cts snd_op routing (as_bytes t) s)),
      pf_on_binary = (\<lambda>now b s. no_reply (Some s)),
      pf_counts_pings = False, pf_counts_pongs = False\<rparr>"

definition bingx_profile ::
  "'j json_api \<Rightarrow> (byte list \<Rightarrow> string option) \<Rightarrow> 'q sender \<Rightarrow> routing \<Rightarrow> 'q session_profile" where
  "bingx_profile J inflate snd_op routing =
     \<lparr>pf_on_text = (\<lambda>now t s. bingx_process_frame J snd_op routing t s),
      pf_on_binary = (\<lambda>now b s.
        case inflate b of
          None \<Rightarrow> Some (bump (ss_frames_undecodable_update inc) s, None)
        | Some t \<Rightarrow> bingx_process_frame J snd_op routing t s),
      pf_counts_pings = False, pf_counts_pongs = False\<rparr>"

section \<open>Opening a session\<close>

text \<open>The dial (an error is its text), the subscribe frames (the flags say which writes succeed) and
  the loop. The result is the frames that went out and the statistics or the error; an unfinished
  run has no result yet.\<close>

fun send_frames :: "bool list \<Rightarrow> string list \<Rightarrow> string list \<times> bool" where
  "send_frames oks [] = ([], True)"
| "send_frames [] (f # fs) = ([], False)"
| "send_frames (ok # oks) (f # fs) =
     (if ok then (let (out, done) = send_frames oks fs in (f # out, done)) else ([], False))"

definition open_socket ::
  "'q session_profile \<Rightarrow> string option \<Rightarrow> bool list \<Rightarrow> string list \<Rightarrow> 'q \<Rightarrow> ws_event list
   \<Rightarrow> (string list \<times> ('q session \<times> session_end)) option" where
  "open_socket p dial_error oks frames q es =
     (case dial_error of
        Some e \<Rightarrow> Some ([], (session_start q, Failed))
      | None \<Rightarrow>
          (let (out, done) = send_frames oks frames in
           if \<not> done then Some (out, (session_start q, Failed))
           else map_option (\<lambda>r. (out, r)) (pump p (session_start q) es)))"

definition upper_symbol :: "symbol_spec \<Rightarrow> string" where
  "upper_symbol sp = to_uppercase (sp_symbol sp)"

definition binance_run_session ::
  "'j json_api \<Rightarrow> (symbol_spec list \<Rightarrow> string) \<Rightarrow> 'q sender \<Rightarrow> symbol_route list \<Rightarrow> string option \<Rightarrow> bool list
   \<Rightarrow> 'q \<Rightarrow> ws_event list \<Rightarrow> (string list \<times> ('q session \<times> session_end)) option" where
  "binance_run_session J subscribe_payload snd_op routes dial_error oks q es =
     (if routes = [] then Some ([], (session_start q, Failed))
      else open_socket (binance_profile J snd_op (route_by upper_symbol routes)) dial_error oks
             [subscribe_payload (map rt_spec routes)] q es)"

definition bybit_run_session ::
  "'j json_api \<Rightarrow> 'q sender \<Rightarrow> symbol_route list \<Rightarrow> string option \<Rightarrow> bool list \<Rightarrow> 'q \<Rightarrow> ws_event list
   \<Rightarrow> (string list \<times> ('q session \<times> session_end)) option" where
  "bybit_run_session J snd_op routes dial_error oks q es =
     (if routes = [] then Some ([], (session_start q, Failed))
      else open_socket (bybit_profile J snd_op (route_by upper_symbol routes)) dial_error oks
             (bybit_subscribe_payloads_batched J (map rt_spec routes)) q es)"

definition bitget_run_session ::
  "'j json_api \<Rightarrow> bool \<Rightarrow> 'q sender \<Rightarrow> symbol_route list \<Rightarrow> string option \<Rightarrow> bool list \<Rightarrow> 'q \<Rightarrow> ws_event list
   \<Rightarrow> (string list \<times> ('q session \<times> session_end)) option" where
  "bitget_run_session J is_perp snd_op routes dial_error oks q es =
     (if routes = [] then Some ([], (session_start q, Failed))
      else open_socket (bitget_profile J snd_op (route_by upper_symbol routes)) dial_error oks
             (bitget_subscribe_payloads_batched J is_perp (map rt_spec routes)) q es)"

definition okx_run_session ::
  "'j json_api \<Rightarrow> ct_map \<Rightarrow> bool \<Rightarrow> 'q sender \<Rightarrow> symbol_route list \<Rightarrow> string option \<Rightarrow> bool list \<Rightarrow> 'q
   \<Rightarrow> ws_event list \<Rightarrow> (string list \<times> ('q session \<times> session_end)) option" where
  "okx_run_session J cts is_swap snd_op routes dial_error oks q es =
     (if routes = [] then Some ([], (session_start q, Failed))
      else case okx_subscribe_payloads_batched J is_swap (map rt_spec routes) of
        None \<Rightarrow> if dial_error = None then None else Some ([], (session_start q, Failed))
      | Some frames \<Rightarrow>
          open_socket (okx_profile J cts snd_op (route_by upper_symbol routes)) dial_error oks frames q es)"

section \<open>Sharded sessions\<close>

text \<open>
  Five exchanges limit the subscriptions of a connection: their sessions cut the routes into shards
  and keep one connection per shard, reconnecting inside the session.
\<close>

definition aster_shard_size :: nat where "aster_shard_size = 100"
definition kucoin_shard_size :: nat where "kucoin_shard_size = 250"
definition mexc_shard_size :: nat where "mexc_shard_size = 100"
definition bingx_shard_size :: nat where "bingx_shard_size = 150"
definition hyperliquid_shard_size :: nat where "hyperliquid_shard_size = 250"

text \<open>
  A connection is attempted with what the network does to it: the dial, the writes of the subscribe
  frames, the events of the socket. \<open>shard_loop\<close> is the loop of a shard over its attempts: the pauses
  between them in milliseconds and the channels at the end. The loops run at once and never end, so
  a session only returns the error of an empty list; an attempt that has not ended is the last one.
\<close>

type_synonym attempt = "string option \<times> bool list \<times> ws_event list"

type_synonym 'q shard_runner =
  "symbol_route list \<Rightarrow> 'q \<Rightarrow> attempt \<Rightarrow> (string list \<times> ('q session \<times> session_end)) option"

fun shard_loop :: "('q \<Rightarrow> attempt \<Rightarrow> (string list \<times> ('q session \<times> session_end)) option) \<Rightarrow> nat \<Rightarrow> 'q \<Rightarrow> attempt list
  \<Rightarrow> (nat list \<times> 'q) option" where
  "shard_loop run_shard backoff q [] = Some ([], q)"
| "shard_loop run_shard backoff q (t # ts) =
     (case run_shard q t of
        None \<Rightarrow> None
      | Some (_, (s, StillOpen)) \<Rightarrow> Some ([], sn_queues s)
      | Some (_, (s, Ended)) \<Rightarrow>
          map_option (\<lambda>(pauses, q'). (500 # pauses, q')) (shard_loop run_shard (min (500 * 2) 30000) (sn_queues s) ts)
      | Some (_, (s, Failed)) \<Rightarrow>
          map_option (\<lambda>(pauses, q'). (backoff # pauses, q'))
            (shard_loop run_shard (min (backoff * 2) 30000) (sn_queues s) ts))"

definition sharded_session ::
  "nat \<Rightarrow> 'q shard_runner \<Rightarrow> symbol_route list \<Rightarrow> ('q \<times> attempt list) list \<Rightarrow> string + (nat list \<times> 'q) option list" where
  "sharded_session shard_size run_shard routes envs =
     (if routes = [] then Inl ''run_session called with no routes''
      else Inr (map2 (\<lambda>shard (q, ts). shard_loop (run_shard shard) 500 q ts) (chunks shard_size routes) envs))"

definition aster_run_one_shard ::
  "'j json_api \<Rightarrow> 'q sender \<Rightarrow> symbol_route list \<Rightarrow> string option \<Rightarrow> bool list \<Rightarrow> 'q \<Rightarrow> ws_event list
   \<Rightarrow> (string list \<times> ('q session \<times> session_end)) option" where
  "aster_run_one_shard J snd_op shard dial_error oks q es =
     open_socket (aster_profile J snd_op (route_by upper_symbol shard)) dial_error oks
       (aster_subscribe_payloads_batched J (map rt_spec shard)) q es"

definition aster_run_session ::
  "'j json_api \<Rightarrow> 'q sender \<Rightarrow> symbol_route list \<Rightarrow> ('q \<times> attempt list) list \<Rightarrow> string + (nat list \<times> 'q) option list" where
  "aster_run_session J snd_op =
     sharded_session aster_shard_size
       (\<lambda>shard q (dial_error, oks, es). aster_run_one_shard J snd_op shard dial_error oks q es)"

text \<open>KuCoin: a token first, then one topic for up to 100 symbols. \<open>connect_id\<close> is the id of the
  connection, a counter behind the clock.\<close>

definition kucoin_syms_per_topic :: nat where "kucoin_syms_per_topic = 100"

definition kucoin_socket_url :: "kucoin_bullet \<Rightarrow> string \<Rightarrow> string" where
  "kucoin_socket_url bullet connect_id =
     kb_endpoint bullet @ (if CHR ''?'' \<in> set (kb_endpoint bullet) then ''&'' else ''?'')
     @ ''token='' @ kb_token bullet @ ''&connectId='' @ connect_id"

definition kucoin_subscribe_frame :: "'j json_api \<Rightarrow> string \<Rightarrow> nat \<Rightarrow> string list \<Rightarrow> string" where
  "kucoin_subscribe_frame J topic_prefix sub_id chunk =
     j_text J (j_obj J
       [(''id'', j_str J (nat_to_string sub_id)), (''type'', j_str J ''subscribe''),
        (''topic'', j_str J (topic_prefix @ join_with '','' chunk)),
        (''response'', j_of_bool J False)])"

definition kucoin_ping_ms :: "kucoin_bullet \<Rightarrow> nat" where
  "kucoin_ping_ms bullet = max (min (max (kb_ping_interval_ms bullet) 5000) 18000 - 3000) 5000"

definition kucoin_frames :: "'j json_api \<Rightarrow> bool \<Rightarrow> string list \<Rightarrow> string list" where
  "kucoin_frames J futures venues =
     map (\<lambda>(i, chunk). kucoin_subscribe_frame J (kucoin_exec_topic_prefix futures) i chunk)
       (enumerate 1 (chunks kucoin_syms_per_topic venues))"

definition kucoin_run_one_shard ::
  "'j json_api \<Rightarrow> ct_map \<Rightarrow> bool \<Rightarrow> 'q sender \<Rightarrow> symbol_route list \<Rightarrow> exchange_error + kucoin_bullet
   \<Rightarrow> string option \<Rightarrow> bool list \<Rightarrow> 'q \<Rightarrow> ws_event list
   \<Rightarrow> (string list \<times> ('q session \<times> session_end)) option" where
  "kucoin_run_one_shard J cts futures snd_op shard bullet dial_error oks q es =
     (case bullet of
        Inl e \<Rightarrow> Some ([], (session_start q, Failed))
      | Inr b \<Rightarrow>
          if dial_error \<noteq> None then Some ([], (session_start q, Failed))
          else
            Option.bind (those (map (\<lambda>r. kucoin_venue_symbol futures (sp_symbol (rt_spec r))) shard)) (\<lambda>venues.
              open_socket
                (kucoin_profile J cts snd_op
                  (fold (\<lambda>(v, r). AList.update v r) (zip venues shard) []))
                None oks (kucoin_frames J futures venues) q es))"

text \<open>\<open>bullets\<close> answers the token request of an attempt.\<close>

definition kucoin_run_session ::
  "'j json_api \<Rightarrow> ct_map \<Rightarrow> bool \<Rightarrow> 'q sender \<Rightarrow> (symbol_route list \<Rightarrow> attempt \<Rightarrow> exchange_error + kucoin_bullet)
   \<Rightarrow> symbol_route list \<Rightarrow> ('q \<times> attempt list) list \<Rightarrow> string + (nat list \<times> 'q) option list" where
  "kucoin_run_session J cts futures snd_op bullets =
     sharded_session kucoin_shard_size
       (\<lambda>shard q t. case t of (dial_error, oks, es) \<Rightarrow>
          kucoin_run_one_shard J cts futures snd_op shard (bullets shard t) dial_error oks q es)"

text \<open>MEXC: both markets route by the venue's symbol, and subscribe the keys of the routing map.\<close>

definition spot_params_per_msg :: nat where "spot_params_per_msg = 20"

definition mexc_routing :: "bool \<Rightarrow> symbol_route list \<Rightarrow> routing option" where
  "mexc_routing futures shard =
     map_option (\<lambda>venues. fold (\<lambda>(v, r). AList.update v r) (zip venues shard) [])
       (those (map (\<lambda>r. mexc_venue_symbol futures (sp_symbol (rt_spec r))) shard))"

definition mexc_spot_subscribe_frame :: "'j json_api \<Rightarrow> string list \<Rightarrow> string" where
  "mexc_spot_subscribe_frame J chunk =
     j_text J (j_obj J
       [(''method'', j_str J ''SUBSCRIPTION''),
        (''params'', j_arr J (map (\<lambda>v. j_str J (''spot@public.aggre.deals.v3.api.pb@100ms@'' @ v)) chunk))])"

definition mexc_run_spot_shard ::
  "'j json_api \<Rightarrow> 'q sender \<Rightarrow> symbol_route list \<Rightarrow> string option \<Rightarrow> bool list \<Rightarrow> 'q \<Rightarrow> ws_event list
   \<Rightarrow> (string list \<times> ('q session \<times> session_end)) option" where
  "mexc_run_spot_shard J snd_op shard dial_error oks q es =
     (if dial_error \<noteq> None then Some ([], (session_start q, Failed))
      else Option.bind (mexc_routing False shard) (\<lambda>routing.
        open_socket (mexc_spot_profile snd_op routing) None oks
          (map (mexc_spot_subscribe_frame J) (chunks spot_params_per_msg (map fst routing))) q es))"

definition mexc_futures_subscribe_frame :: "'j json_api \<Rightarrow> string \<Rightarrow> string" where
  "mexc_futures_subscribe_frame J venue =
     j_text J (j_obj J
       [(''method'', j_str J ''sub.deal''), (''param'', j_obj J [(''symbol'', j_str J venue)])])"

definition mexc_run_futures_shard ::
  "'j json_api \<Rightarrow> ct_map \<Rightarrow> 'q sender \<Rightarrow> symbol_route list \<Rightarrow> string option \<Rightarrow> bool list \<Rightarrow> 'q \<Rightarrow> ws_event list
   \<Rightarrow> (string list \<times> ('q session \<times> session_end)) option" where
  "mexc_run_futures_shard J cts snd_op shard dial_error oks q es =
     (if dial_error \<noteq> None then Some ([], (session_start q, Failed))
      else Option.bind (mexc_routing True shard) (\<lambda>routing.
        open_socket (mexc_futures_profile J cts snd_op routing) None oks
          (map (mexc_futures_subscribe_frame J) (map fst routing)) q es))"

definition mexc_run_session ::
  "'j json_api \<Rightarrow> ct_map \<Rightarrow> bool \<Rightarrow> 'q sender \<Rightarrow> symbol_route list \<Rightarrow> ('q \<times> attempt list) list
   \<Rightarrow> string + (nat list \<times> 'q) option list" where
  "mexc_run_session J cts futures snd_op =
     sharded_session mexc_shard_size
       (\<lambda>shard q (dial_error, oks, es).
          if futures then mexc_run_futures_shard J cts snd_op shard dial_error oks q es
          else mexc_run_spot_shard J snd_op shard dial_error oks q es)"

definition bingx_subscribe_frame :: "string \<Rightarrow> string" where
  "bingx_subscribe_frame canonical =
     ''{'' @ quoted ''id'' @ '':'' @ quoted ''tr'' @ '','' @ quoted ''reqType'' @ '':'' @ quoted ''sub'' @ '',''
     @ quoted ''dataType'' @ '':'' @ quoted (bingx_venue_symbol canonical @ ''@trade'') @ ''}''"

definition bingx_run_one_shard ::
  "'j json_api \<Rightarrow> (byte list \<Rightarrow> string option) \<Rightarrow> 'q sender \<Rightarrow> symbol_route list \<Rightarrow> string option
   \<Rightarrow> bool list \<Rightarrow> 'q \<Rightarrow> ws_event list \<Rightarrow> (string list \<times> ('q session \<times> session_end)) option" where
  "bingx_run_one_shard J inflate snd_op shard dial_error oks q es =
     open_socket (bingx_profile J inflate snd_op (route_by upper_symbol shard)) dial_error oks
       (map (\<lambda>r. bingx_subscribe_frame (sp_symbol (rt_spec r))) shard) q es"

definition bingx_run_session ::
  "'j json_api \<Rightarrow> (byte list \<Rightarrow> string option) \<Rightarrow> 'q sender \<Rightarrow> symbol_route list \<Rightarrow> ('q \<times> attempt list) list
   \<Rightarrow> string + (nat list \<times> 'q) option list" where
  "bingx_run_session J inflate snd_op =
     sharded_session bingx_shard_size
       (\<lambda>shard q (dial_error, oks, es). bingx_run_one_shard J inflate snd_op shard dial_error oks q es)"

definition hyperliquid_subscribe_frame :: "'j json_api \<Rightarrow> string \<Rightarrow> string" where
  "hyperliquid_subscribe_frame J coin =
     j_text J (j_obj J
       [(''method'', j_str J ''subscribe''),
        (''subscription'', j_obj J [(''type'', j_str J ''trades''), (''coin'', j_str J coin)])])"

definition hyperliquid_run_one_shard ::
  "'j json_api \<Rightarrow> native_map \<Rightarrow> 'q sender \<Rightarrow> symbol_route list \<Rightarrow> string option \<Rightarrow> bool list \<Rightarrow> 'q
   \<Rightarrow> ws_event list \<Rightarrow> (string list \<times> ('q session \<times> session_end)) option" where
  "hyperliquid_run_one_shard J native snd_op shard dial_error oks q es =
     (let routing = route_by (\<lambda>sp. hyperliquid_native_coin native (sp_symbol sp)) shard in
      open_socket (hyperliquid_profile J snd_op routing) dial_error oks
        (map (hyperliquid_subscribe_frame J) (map fst routing)) q es)"

definition hyperliquid_run_session ::
  "'j json_api \<Rightarrow> native_map \<Rightarrow> 'q sender \<Rightarrow> symbol_route list \<Rightarrow> ('q \<times> attempt list) list
   \<Rightarrow> string + (nat list \<times> 'q) option list" where
  "hyperliquid_run_session J native snd_op =
     sharded_session hyperliquid_shard_size
       (\<lambda>shard q (dial_error, oks, es). hyperliquid_run_one_shard J native snd_op shard dial_error oks q es)"

end
