(* ===== verification/Supervisor.thy ===== *)
theory Supervisor
  imports Stream_Server Ingest_Config Sessions
begin

text \<open>
  The supervisor of one exchange, \<open>crates/cluster-ingest/src/binance_supervisor.rs\<close>: the symbol
  filter and ranking, a discovery cycle that starts and stops the tasks of symbols, the per-symbol
  fan-out of trades, the path from the hub to the ClickHouse writer, the reconnect loop, and the
  shutdown. A channel is named by a number; a sender is alive as long as someone holds it. The
  parts of \<open>tokio\<close> that assert their arguments (a channel bound of zero or above the semaphore's
  permits, a timer period of zero) are \<open>None\<close>, as every panic. A task that is aborted is recorded
  in \<open>sv_aborted\<close>: it takes nothing more from its channel.
\<close>

section \<open>Which symbols\<close>

definition wanted_quotes :: "string list \<Rightarrow> quote list" where
  "wanted_quotes names = List.map_filter (\<lambda>q.
     if q = ''USDT'' then Some Usdt else if q = ''USDC'' then Some Usdc else None) names"

definition filter_symbols ::
  "symbol_spec list \<Rightarrow> perp_config \<Rightarrow> exchange \<Rightarrow> market_type \<Rightarrow> symbol_spec list" where
  "filter_symbols specs cfg ex mt =
     (let allow = (if pc_allow cfg = [] then None else Some (set (pc_allow cfg)));
          deny = set (pc_deny cfg);
          quotes = set (wanted_quotes (pc_include_quotes cfg))
      in filter (\<lambda>s.
           if sp_exchange s \<noteq> ex \<or> sp_market_type s \<noteq> mt then False
           else if sp_quote s \<notin> quotes then False
           else if sp_symbol s \<in> deny then False
           else case allow of Some a \<Rightarrow> sp_symbol s \<in> a | None \<Rightarrow> True) specs)"

text \<open>
  \<open>sort_by\<close> is a stable sort; the comparison is by descending volume, where \<open>f64\<close> without NaN is
  any linear order.
\<close>

fun insert_desc :: "('a \<Rightarrow> 'f::linorder) \<Rightarrow> 'a \<Rightarrow> 'a list \<Rightarrow> 'a list" where
  "insert_desc key x [] = [x]"
| "insert_desc key x (y # ys) = (if key x < key y then y # insert_desc key x ys else x # y # ys)"

definition sort_desc :: "('a \<Rightarrow> 'f::linorder) \<Rightarrow> 'a list \<Rightarrow> 'a list" where
  "sort_desc key xs = foldr (insert_desc key) xs []"

text \<open>The ranker: none, or what its request answers.\<close>

definition rank_specs ::
  "'f::linorder \<Rightarrow> perp_config \<Rightarrow> (exchange_error + (string \<times> 'f) list) option
   \<Rightarrow> symbol_spec list \<Rightarrow> symbol_spec list" where
  "rank_specs zero_vol cfg ranker specs =
     (case pc_rank_by cfg of
        Alphabetical \<Rightarrow> specs
      | Volume24h \<Rightarrow>
          (case ranker of
             None \<Rightarrow> specs
           | Some (Inl e) \<Rightarrow> specs
           | Some (Inr volumes) \<Rightarrow>
               sort_desc (\<lambda>s. case map_of volumes (sp_symbol s) of None \<Rightarrow> zero_vol | Some v \<Rightarrow> v) specs))"

section \<open>State\<close>

record symbol_handle =
  sh_spec :: symbol_spec
  sh_trade_tx :: nat
  sh_aggregators :: "(stream_key \<times> aggregator) list"
  sh_ch_fanouts :: "stream_key list"

text \<open>A route pairs a symbol with a sender of its trade channel; \<open>sv_routes\<close> is the value of the
  watch channel \<open>routes_tx\<close> and \<open>sv_routes_version\<close> counts its \<open>send_replace\<close> calls, each of which
  makes the session reconnect. \<open>sv_writers\<close> are the intervals that have a writer channel,
  \<open>sv_aborted\<close> the tasks from the hub to a writer that were aborted, each named by the trade channel
  of its symbol and its stream.\<close>

record 'ch supervisor =
  sv_exchange :: exchange
  sv_market_type :: market_type
  sv_bus :: "'ch cluster_bus"
  sv_region :: string
  sv_ingest :: ingest_config
  sv_cfg :: perp_config
  sv_handles :: "(symbol_key \<times> symbol_handle) list"
  sv_routes :: "(symbol_spec \<times> nat) list"
  sv_routes_version :: nat
  sv_writers :: "nat list"
  sv_next_channel :: nat
  sv_aborted :: "(nat \<times> stream_key) list"

definition supervisor_new ::
  "exchange \<Rightarrow> market_type \<Rightarrow> 'ch cluster_bus \<Rightarrow> string \<Rightarrow> ingest_config \<Rightarrow> perp_config \<Rightarrow> nat list
   \<Rightarrow> 'ch supervisor" where
  "supervisor_new ex mt bus region icfg cfg writers =
     \<lparr>sv_exchange = ex, sv_market_type = mt, sv_bus = bus, sv_region = region, sv_ingest = icfg,
      sv_cfg = cfg, sv_handles = [], sv_routes = [], sv_routes_version = 0, sv_writers = writers, sv_next_channel = 0,
      sv_aborted = []\<rparr>"

definition spec_key :: "symbol_spec \<Rightarrow> symbol_key" where
  "spec_key spec = symbol_key_new (sp_exchange spec) (sp_market_type spec) (sp_symbol spec)"

section \<open>Starting a symbol\<close>

text \<open>The loop over the timeframes: an aggregator and a subscription for each.\<close>

fun spawn_timeframes ::
  "('ch, 'rx) broadcast_api \<Rightarrow> ingest_config \<Rightarrow> nat list \<Rightarrow> symbol_spec \<Rightarrow> 'ch cluster_bus \<Rightarrow> nat list
   \<Rightarrow> ('ch cluster_bus \<times> (stream_key \<times> aggregator) list) option" where
  "spawn_timeframes B icfg writers spec bus [] = Some (bus, [])"
| "spawn_timeframes B icfg writers spec bus (tf_secs # tfs) =
     (let window_ms = wrap_i64 (int tf_secs * 1000);
          key = stream_key_new (spec_key spec) tf_secs
      in if \<not> channel_bound_ok (ic_trade_channel_bound icfg) then None
         else
           Option.bind (aggregator_new (spec_key spec) (sp_tick_size spec) window_ms (ic_diff_interval_ms icfg))
             (\<lambda>agg.
           if tf_secs \<notin> set writers then None
           else
             map_option (\<lambda>(bus', aggs). (bus', (key, agg) # aggs))
               (spawn_timeframes B icfg writers spec (fst (subscribe B bus key)) tfs)))"

definition spawn_symbol ::
  "('ch, 'rx) broadcast_api \<Rightarrow> 'ch supervisor \<Rightarrow> symbol_spec \<Rightarrow> ('ch supervisor \<times> symbol_handle) option" where
  "spawn_symbol B sv spec =
     Option.bind (spawn_timeframes B (sv_ingest sv) (sv_writers sv) spec (sv_bus sv)
                    (ic_timeframes_secs (sv_ingest sv))) (\<lambda>(bus, aggs).
       if \<not> channel_bound_ok (ic_trade_channel_bound (sv_ingest sv)) then None
       else Some
         (sv\<lparr>sv_bus := bus, sv_next_channel := sv_next_channel sv + 1\<rparr>,
          \<lparr>sh_spec = spec, sh_trade_tx = sv_next_channel sv, sh_aggregators = aggs,
           sh_ch_fanouts = map fst aggs\<rparr>))"

section \<open>A discovery cycle\<close>

fun add_symbols ::
  "('ch, 'rx) broadcast_api \<Rightarrow> 'ch supervisor \<Rightarrow> nat \<Rightarrow> symbol_spec list \<Rightarrow> ('ch supervisor \<times> nat) option" where
  "add_symbols B sv added [] = Some (sv, added)"
| "add_symbols B sv added (spec # specs) =
     (let key = spec_key spec in
      if map_of (sv_handles sv) key \<noteq> None then add_symbols B sv added specs
      else Option.bind (spawn_symbol B sv spec) (\<lambda>(sv1, handle).
             add_symbols B (sv1\<lparr>sv_handles := AList.update key handle (sv_handles sv1)\<rparr>) (added + 1) specs))"

definition wanted_symbols ::
  "'f::linorder \<Rightarrow> (exchange_error + (string \<times> 'f) list) option \<Rightarrow> 'ch supervisor \<Rightarrow> symbol_spec list
   \<Rightarrow> symbol_spec list" where
  "wanted_symbols zero_vol ranker sv specs =
     (let filtered = filter_symbols specs (sv_cfg sv) (sv_exchange sv) (sv_market_type sv);
          ranked = rank_specs zero_vol (sv_cfg sv) ranker filtered
      in case pc_top_n (sv_cfg sv) of Some n \<Rightarrow> take n ranked | None \<Rightarrow> ranked)"

definition route_list :: "(symbol_key \<times> symbol_handle) list \<Rightarrow> (symbol_spec \<times> nat) list" where
  "route_list handles = map (\<lambda>(_, sh). (sh_spec sh, sh_trade_tx sh)) handles"

text \<open>
  Removing a symbol: its handle leaves the map, the handle's sender is dropped and its tasks from the
  hub to the writers are aborted. The routes still hold senders of its channel then, so the abort
  comes before the channel can close and before the flush that closing it causes.
\<close>

definition fanout_tasks :: "symbol_handle \<Rightarrow> (nat \<times> stream_key) list" where
  "fanout_tasks sh = map (Pair (sh_trade_tx sh)) (sh_ch_fanouts sh)"

definition remove_symbol :: "symbol_key \<Rightarrow> 'ch supervisor \<Rightarrow> 'ch supervisor" where
  "remove_symbol key sv =
     (case map_of (sv_handles sv) key of
        None \<Rightarrow> sv
      | Some handle \<Rightarrow>
          sv\<lparr>sv_handles := AList.delete key (sv_handles sv),
             sv_aborted := sv_aborted sv @ fanout_tasks handle\<rparr>)"

definition reconcile_once ::
  "('ch, 'rx) broadcast_api \<Rightarrow> 'f::linorder \<Rightarrow> exchange_error + symbol_spec list
   \<Rightarrow> (exchange_error + (string \<times> 'f) list) option \<Rightarrow> 'ch supervisor
   \<Rightarrow> ('ch supervisor \<times> (string + unit)) option" where
  "reconcile_once B zero_vol fetched ranker sv =
     (case fetched of
        Inl e \<Rightarrow> Some (sv, Inl (''fetch_symbols: '' @ exchange_error_display e))
      | Inr specs \<Rightarrow>
          let wanted = wanted_symbols zero_vol ranker sv specs;
              wanted_keys = set (map spec_key wanted);
              to_remove = filter (\<lambda>k. k \<notin> wanted_keys) (map fst (sv_handles sv));
              sv1 = fold remove_symbol to_remove sv
          in Option.bind (add_symbols B sv1 0 wanted) (\<lambda>(sv2, added).
               Some (if to_remove \<noteq> [] \<or> added > 0
                     then sv2\<lparr>sv_routes := route_list (sv_handles sv2),
                              sv_routes_version := sv_routes_version sv2 + 1\<rparr>
                     else sv2, Inr ())))"

section \<open>The trade fan-out of a symbol\<close>

text \<open>One timeframe's channel: what it took, and the counters the task keeps for it.\<close>

record tf_channel =
  tc_interval_seconds :: nat
  tc_sent :: "trade_print list"
  tc_drops_full :: nat
  tc_last_warn_ms :: i64

definition fanout_start :: "nat list \<Rightarrow> tf_channel list" where
  "fanout_start tfs =
     map (\<lambda>tf. \<lparr>tc_interval_seconds = tf, tc_sent = [], tc_drops_full = 0, tc_last_warn_ms = 0\<rparr>) tfs"

definition fan_out_one :: "trade_print \<Rightarrow> send_outcome \<times> i64 \<Rightarrow> tf_channel \<Rightarrow> tf_channel" where
  "fan_out_one trade o_now c =
     (case o_now of (outcome, now_ms) \<Rightarrow>
      (case outcome of
         Sent \<Rightarrow> c\<lparr>tc_sent := tc_sent c @ [trade]\<rparr>
       | SendClosed \<Rightarrow> c
       | SendFull \<Rightarrow>
           let c1 = c\<lparr>tc_drops_full := saturating_add_u64 (tc_drops_full c) 1\<rparr> in
           if wrap_i64 (now_ms - tc_last_warn_ms c1) \<ge> 5000 then c1\<lparr>tc_last_warn_ms := now_ms\<rparr> else c1))"

text \<open>The loop: a trade, and per timeframe what \<open>try_send\<close> answers and the clock.\<close>

fun trade_fanout ::
  "tf_channel list \<Rightarrow> (trade_print \<times> (send_outcome \<times> i64) list) list \<Rightarrow> tf_channel list" where
  "trade_fanout chans [] = chans"
| "trade_fanout chans ((trade, outcomes) # es) =
     trade_fanout (map2 (fan_out_one trade) outcomes chans) es"

section \<open>From the hub to the ClickHouse writer\<close>

text \<open>\<open>room\<close> is how many more rows the writer takes before its receiver is gone, if ever.\<close>

definition send_rows :: "nat option \<Rightarrow> cluster_row list \<Rightarrow> cluster_row list \<times> nat option \<times> bool" where
  "send_rows room rows =
     (case room of
        None \<Rightarrow> (rows, None, True)
      | Some n \<Rightarrow> if length rows \<le> n then (rows, Some (n - length rows), True) else (take n rows, Some 0, False))"

fun snapshot_to_ch ::
  "symbol_spec \<Rightarrow> string \<Rightarrow> nat option \<Rightarrow> nat \<Rightarrow> bus_item list \<Rightarrow> cluster_row list \<times> nat" where
  "snapshot_to_ch spec region room total_lagged [] = ([], total_lagged)"
| "snapshot_to_ch spec region room total_lagged (RecvFrame (Snapshot s) # items) =
     (let (sent, room', alive) = send_rows room (rows_from_snapshot s spec region) in
      if \<not> alive then (sent, total_lagged)
      else let (rows, lagged) = snapshot_to_ch spec region room' total_lagged items in (sent @ rows, lagged))"
| "snapshot_to_ch spec region room total_lagged (RecvFrame (Diff _) # items) =
     snapshot_to_ch spec region room total_lagged items"
| "snapshot_to_ch spec region room total_lagged (RecvLagged n # items) =
     snapshot_to_ch spec region room (saturating_add_u64 total_lagged n) items"

section \<open>The reconnect loop\<close>

text \<open>What ends a turn of the loop, and whether a shutdown interrupts the pause after it.\<close>

datatype loop_event = NoRoutes | RoutesChanged | ShutdownSeen | SessionOk bool | SessionErr bool

text \<open>A turn: the next back-off and the pause it makes; \<open>None\<close> leaves the loop.\<close>

definition session_turn :: "nat \<Rightarrow> nat \<Rightarrow> nat \<Rightarrow> loop_event \<Rightarrow> (nat \<times> nat option) option" where
  "session_turn bo_min bo_max backoff e =
     (case e of
        NoRoutes \<Rightarrow> Some (backoff, None)
      | ShutdownSeen \<Rightarrow> None
      | RoutesChanged \<Rightarrow> Some (backoff, None)
      | SessionOk stopped \<Rightarrow> if stopped then None else Some (bo_min, Some bo_min)
      | SessionErr stopped \<Rightarrow> if stopped then None else Some (min (backoff * 2) bo_max, Some backoff))"

text \<open>The pauses of a run.\<close>

fun session_loop :: "nat \<Rightarrow> nat \<Rightarrow> nat \<Rightarrow> loop_event list \<Rightarrow> nat option list" where
  "session_loop bo_min bo_max backoff [] = []"
| "session_loop bo_min bo_max backoff (e # es) =
     (case session_turn bo_min bo_max backoff e of
        None \<Rightarrow> []
      | Some (backoff', pause) \<Rightarrow> pause # session_loop bo_min bo_max backoff' es)"

section \<open>Shutdown\<close>

text \<open>Who holds senders of trade channels: the handles, the value of the routes channel, a session.\<close>

definition live_senders :: "'ch supervisor \<Rightarrow> nat list \<Rightarrow> nat set" where
  "live_senders sv session =
     set (map (\<lambda>(_, sh). sh_trade_tx sh) (sv_handles sv)) \<union> set (map snd (sv_routes sv)) \<union> set session"

text \<open>
  The tail of \<open>run\<close>: every handle is drained, its sender dropped and its tasks from the hub to the
  writers aborted, then each fan-out task is awaited. A fan-out ends when its channel has no sender
  left. The result is the channels the joins still wait for.
\<close>

definition supervisor_shutdown :: "'ch supervisor \<Rightarrow> nat list \<Rightarrow> 'ch supervisor \<times> nat list" where
  "supervisor_shutdown sv session =
     (let joins = map (\<lambda>(_, sh). sh_trade_tx sh) (sv_handles sv);
          sv1 = sv\<lparr>sv_handles := [],
                   sv_aborted := sv_aborted sv @ concat (map (\<lambda>(_, sh). fanout_tasks sh) (sv_handles sv))\<rparr>
      in (sv1, filter (\<lambda>c. c \<in> live_senders sv1 session) joins))"

section \<open>The run of a supervisor\<close>

text \<open>
  What wakes the loop of \<open>run\<close>: the discovery timer, with what the listing and the ranking answer
  in that cycle, or a change of the shutdown flag, with its value.
\<close>

datatype 'f wakeup =
  DiscoveryTick "exchange_error + symbol_spec list" "(exchange_error + (string \<times> 'f) list) option"
| ShutdownChanged bool

text \<open>The loop; the flag tells whether it was left. A failed cycle is only logged.\<close>

fun supervise ::
  "('ch, 'rx) broadcast_api \<Rightarrow> 'f::linorder \<Rightarrow> 'ch supervisor \<Rightarrow> 'f wakeup list
   \<Rightarrow> ('ch supervisor \<times> bool) option" where
  "supervise B zero_vol sv [] = Some (sv, False)"
| "supervise B zero_vol sv (DiscoveryTick fetched ranker # es) =
     Option.bind (reconcile_once B zero_vol fetched ranker sv) (\<lambda>(sv', _). supervise B zero_vol sv' es)"
| "supervise B zero_vol sv (ShutdownChanged stop # es) =
     (if stop then Some (sv, True) else supervise B zero_vol sv es)"

text \<open>
  \<open>run\<close>: a discovery timer of period zero panics; a run that leaves the loop shuts down and is
  then waiting for the channels in the result, while the session holds the senders in \<open>session\<close>.
\<close>

definition supervisor_run ::
  "('ch, 'rx) broadcast_api \<Rightarrow> 'f::linorder \<Rightarrow> nat list \<Rightarrow> 'ch supervisor \<Rightarrow> 'f wakeup list
   \<Rightarrow> ('ch supervisor \<times> nat list option) option" where
  "supervisor_run B zero_vol session sv es =
     (if discovery_poll (sv_cfg sv) = 0 then None
      else map_option (\<lambda>(sv', stopped).
             if stopped then let (sv'', joins) = supervisor_shutdown sv' session in (sv'', Some joins)
             else (sv', None)) (supervise B zero_vol sv es))"

end
