(* ===== verification/Range_Query.thy ===== *)
theory Range_Query
  imports Cluster_History
begin

text \<open>
  What the two queries of \<open>build_range_sql\<close> (\<open>crates/cluster-api/src/cluster_history.rs\<close>) ask for, as
  functions of the rows inserted into the table they read. The constructs are those of the SQL text:
  \<open>FINAL\<close> keeps, per sorting key, the row inserted last; \<open>maxIf\<close>, \<open>minIf\<close> and \<open>argMaxIf\<close> aggregate the
  values that pass their condition and are 0 when none does; sums of \<open>Int64\<close> and \<open>UInt64\<close> wrap; a row
  inserted later has the later \<open>ingested_at\<close>.
\<close>

section \<open>The table\<close>

type_synonym row_key = "string \<times> string \<times> string \<times> string \<times> i64 \<times> i64"

definition row_key :: "cluster_row \<Rightarrow> row_key" where
  "row_key r = (cr_exchange r, cr_market_type r, cr_quote r, cr_symbol r, cr_window_start r, cr_price r)"

text \<open>\<open>FINAL\<close>: the rows in the order of their insertion, without those overwritten later.\<close>

fun final_rows :: "cluster_row list \<Rightarrow> cluster_row list" where
  "final_rows [] = []"
| "final_rows (r # rows) =
     (if row_key r \<in> row_key ` set rows then final_rows rows else r # final_rows rows)"

text \<open>The \<open>WHERE\<close> clause of \<open>range_filter\<close>.\<close>

definition range_where :: "range_params \<Rightarrow> cluster_row \<Rightarrow> bool" where
  "range_where q r \<longleftrightarrow>
     cr_exchange r = rp_exchange q \<and> cr_market_type r = rp_market_type q \<and> cr_symbol r = rp_symbol q \<and>
     rp_from_ms q \<le> cr_window_start r \<and> cr_window_start r < rp_to_ms q"

definition selected_rows :: "range_params \<Rightarrow> cluster_row list \<Rightarrow> cluster_row list" where
  "selected_rows q rows = filter (range_where q) (final_rows rows)"

section \<open>Aggregates\<close>

text \<open>\<open>maxIf(f, f > 0)\<close>, \<open>minIf(f, f > 0)\<close>, and \<open>argMaxIf(f, k, f > 0)\<close>, \<open>argMinIf(f, k, f > 0)\<close> over rows in the
  order of \<open>k\<close>.\<close>

definition max_pos :: "('a \<Rightarrow> 'b::{linorder, zero}) \<Rightarrow> 'a list \<Rightarrow> 'b" where
  "max_pos f rows = (case filter (\<lambda>x. 0 < x) (map f rows) of [] \<Rightarrow> 0 | x # xs \<Rightarrow> fold max xs x)"

definition min_pos :: "('a \<Rightarrow> 'b::{linorder, zero}) \<Rightarrow> 'a list \<Rightarrow> 'b" where
  "min_pos f rows = (case filter (\<lambda>x. 0 < x) (map f rows) of [] \<Rightarrow> 0 | x # xs \<Rightarrow> fold min xs x)"

definition last_pos :: "('a \<Rightarrow> 'b::{linorder, zero}) \<Rightarrow> 'a list \<Rightarrow> 'b" where
  "last_pos f rows = (case rev (filter (\<lambda>x. 0 < x) (map f rows)) of [] \<Rightarrow> 0 | x # _ \<Rightarrow> x)"

definition first_pos :: "('a \<Rightarrow> 'b::{linorder, zero}) \<Rightarrow> 'a list \<Rightarrow> 'b" where
  "first_pos f rows = (case filter (\<lambda>x. 0 < x) (map f rows) of [] \<Rightarrow> 0 | x # _ \<Rightarrow> x)"

section \<open>The direct query\<close>

record range_row =
  qr_ts_ms :: i64
  qr_price :: i64
  qr_bid_qty :: i64
  qr_ask_qty :: i64
  qr_trades :: nat
  qr_ps :: nat
  qr_qs :: nat
  qr_open :: i64
  qr_close :: i64
  qr_high :: i64
  qr_low :: i64

text \<open>The rows of a window, joined with the aggregates over the rows of the window.\<close>

definition direct_row :: "cluster_row list \<Rightarrow> cluster_row \<Rightarrow> range_row" where
  "direct_row sel t =
     (let w = filter (\<lambda>r. cr_window_start r = cr_window_start t) sel in
      \<lparr>qr_ts_ms = cr_window_start t, qr_price = cr_price t, qr_bid_qty = cr_bid_qty t,
       qr_ask_qty = cr_ask_qty t, qr_trades = cr_trades t,
       qr_ps = max_pos cr_price_scale w, qr_qs = max_pos cr_qty_scale w,
       qr_open = max_pos cr_open w, qr_close = last_pos cr_close w,
       qr_high = max_pos cr_high w, qr_low = min_pos cr_low w\<rparr>)"

definition direct_query :: "range_params \<Rightarrow> cluster_row list \<Rightarrow> range_row list" where
  "direct_query q rows =
     (let sel = selected_rows q rows in
      map (direct_row sel) (sort_key cr_window_start (sort_key cr_price sel)))"

section \<open>The roll-up\<close>

text \<open>\<open>toStartOfInterval(window_start, INTERVAL n SECOND, 'UTC')\<close>, in seconds.\<close>

definition start_of_interval :: "nat \<Rightarrow> i64 \<Rightarrow> i64" where
  "start_of_interval n ws = ws div (int n * 1000) * int n"

record sub_window =
  sub_ws :: i64
  sub_open :: i64
  sub_close :: i64
  sub_high :: i64
  sub_low :: i64

definition sub_of :: "cluster_row list \<Rightarrow> i64 \<Rightarrow> sub_window" where
  "sub_of g ws =
     (let w = filter (\<lambda>r. cr_window_start r = ws) g in
      \<lparr>sub_ws = ws, sub_open = max_pos cr_open w, sub_close = last_pos cr_close w,
       sub_high = max_pos cr_high w, sub_low = min_pos cr_low w\<rparr>)"

text \<open>The windows of a roll-up, each once, in order.\<close>

definition subs_of :: "cluster_row list \<Rightarrow> sub_window list" where
  "subs_of g = map (sub_of g) (sort (remdups (map cr_window_start g)))"

definition rollup_row :: "nat \<Rightarrow> cluster_row list \<Rightarrow> i64 \<times> i64 \<Rightarrow> range_row" where
  "rollup_row n sel k =
     (let g = filter (\<lambda>r. start_of_interval n (cr_window_start r) = fst k) sel;
          b = filter (\<lambda>r. cr_price r = snd k) g;
          w = subs_of g
      in \<lparr>qr_ts_ms = fst k * 1000, qr_price = snd k,
          qr_bid_qty = wrap_i64 (sum_list (map cr_bid_qty b)),
          qr_ask_qty = wrap_i64 (sum_list (map cr_ask_qty b)),
          qr_trades = wrap_u64 (sum_list (map cr_trades b)),
          qr_ps = max_pos cr_price_scale b, qr_qs = max_pos cr_qty_scale b,
          qr_open = first_pos sub_open w, qr_close = last_pos sub_close w,
          qr_high = max_pos sub_high w, qr_low = min_pos sub_low w\<rparr>)"

definition rollup_query :: "nat \<Rightarrow> range_params \<Rightarrow> cluster_row list \<Rightarrow> range_row list" where
  "rollup_query n q rows =
     (let sel = selected_rows q rows;
          groups = remdups (map (\<lambda>r. (start_of_interval n (cr_window_start r), cr_price r)) sel)
      in map (rollup_row n sel) (sort_key fst (sort_key snd groups)))"

text \<open>The choice of \<open>build_range_sql\<close>, and the table it reads.\<close>

definition base_interval :: "range_params \<Rightarrow> nat" where
  "base_interval q =
     (if rp_interval_seconds q = 30 \<or> rp_interval_seconds q = 60 then rp_interval_seconds q else 60)"

definition range_query :: "range_params \<Rightarrow> cluster_row list \<Rightarrow> range_row list" where
  "range_query q rows =
     (if rp_interval_seconds q = 30 \<or> rp_interval_seconds q = 60 then direct_query q rows
      else rollup_query (rp_interval_seconds q) q rows)"

end
