(* ===== verification/Store_Theorems.thy ===== *)
theory Store_Theorems
  imports Footprint_Theorems Supervisor Ch_Sink Range_Query
begin

text \<open>
  From the trades of a symbol to its rows in ClickHouse: the aggregator's frames go over the hub to
  the task that turns snapshots into rows. The tables are \<open>ReplacingMergeTree\<close>s that are read with
  \<open>FINAL\<close>, so a table holds, per key, the row inserted last. Partial snapshots leave rows of a window
  that is still open, and a lagging task loses frames; the table still ends with the footprints.
\<close>

section \<open>A table\<close>

definition row_stream :: "cluster_row \<Rightarrow> string \<times> string \<times> string \<times> string" where
  "row_stream r = (cr_exchange r, cr_market_type r, cr_quote r, cr_symbol r)"

definition stored :: "cluster_row list \<Rightarrow> row_key \<rightharpoonup> cluster_row" where
  "stored rows = map_of (rev (map (\<lambda>r. (row_key r, r)) rows))"

lemma stored_Nil [simp]: "stored [] = Map.empty"
  by (simp add: stored_def)

lemma stored_append: "stored (xs @ ys) = stored xs ++ stored ys"
  by (simp add: stored_def map_of_append)

lemma stored_filter: "(\<And>r. r \<in> set rows \<Longrightarrow> row_key r = k \<Longrightarrow> P r) \<Longrightarrow> stored (filter P rows) k = stored rows k"
proof (induction rows rule: rev_induct)
  case (snoc r rows)
  then show ?case by (auto simp: stored_append map_add_def stored_def)
qed simp

definition spec_stream :: "symbol_spec \<Rightarrow> string \<times> string \<times> string \<times> string" where
  "spec_stream spec =
     (wire_id (sp_exchange spec), (case sp_market_type spec of Spot \<Rightarrow> ''spot'' | Perp \<Rightarrow> ''perp''),
      (case sp_quote spec of Usdt \<Rightarrow> ''USDT'' | Usdc \<Rightarrow> ''USDC''), sp_symbol spec)"

definition key_at :: "symbol_spec \<Rightarrow> i64 \<Rightarrow> i64 \<Rightarrow> row_key" where
  "key_at spec m p = (case spec_stream spec of (e, mt, q, s) \<Rightarrow> (e, mt, q, s, m, p))"

text \<open>The row that tells a bucket of a whole window.\<close>

definition window_row ::
  "symbol_spec \<Rightarrow> string \<Rightarrow> i64 \<Rightarrow> i64 \<times> i64 \<times> i64 \<times> i64 \<Rightarrow> i64 \<Rightarrow> cluster_accum \<Rightarrow> cluster_row" where
  "window_row spec region m ohlc4 p acc =
     (case spec_stream spec of (e, mt, q, s) \<Rightarrow> case ohlc4 of (op, hi, lo, cl) \<Rightarrow>
      \<lparr>cr_exchange = e, cr_market_type = mt, cr_quote = q, cr_symbol = s, cr_window_start = m,
       cr_price = p, cr_price_scale = sp_price_scale spec, cr_bid_qty = ca_bid_qty acc,
       cr_ask_qty = ca_ask_qty acc, cr_trades = ca_trades acc, cr_qty_scale = sp_qty_scale spec,
       cr_ingest_region = region, cr_open = op, cr_close = cl, cr_high = hi, cr_low = lo\<rparr>)"

section \<open>The rows of a frame\<close>

definition frame_rows :: "symbol_spec \<Rightarrow> string \<Rightarrow> cluster_frame \<Rightarrow> cluster_row list" where
  "frame_rows spec region f =
     (case f of Snapshot s \<Rightarrow> rows_from_snapshot s spec region | Diff _ \<Rightarrow> [])"

fun received :: "bus_item list \<Rightarrow> cluster_frame list" where
  "received [] = []"
| "received (RecvFrame f # items) = f # received items"
| "received (RecvLagged n # items) = received items"

lemma snapshot_to_ch_rows:
  "fst (snapshot_to_ch spec region None lagged items) = concat (map (frame_rows spec region) (received items))"
  by (induction spec region "None :: nat option" lagged items rule: snapshot_to_ch.induct)
    (auto simp: frame_rows_def send_rows_def case_prod_beta Let_def)

lemma rows_of_snapshot:
  "rows_from_snapshot s spec region =
     map (\<lambda>b. window_row spec region (as_window_start_ns s sdiv 1000000)
            (as_open s, as_high s, as_low s, as_close s) (cb_price b) (snd (bucket_accum b))) (as_clusters s)"
  by (auto simp: rows_from_snapshot_def window_row_def spec_stream_def bucket_accum_def Let_def)

lemma key_window_row [simp]: "row_key (window_row spec region m q p acc) = key_at spec m p"
  by (simp add: row_key_def window_row_def key_at_def case_prod_beta)

lemma key_at_eq [simp]: "key_at spec m p = key_at spec m' p' \<longleftrightarrow> m = m' \<and> p = p'"
  by (simp add: key_at_def case_prod_beta)

lemma ms_eq: "1000000 dvd w \<Longrightarrow> w sdiv 1000000 = m \<longleftrightarrow> w = m * (1000000 :: int)"
  by (auto simp: signed_divide_int_def sgn_if elim!: dvdE)

lemma bucket_accum_notin [simp]: "p \<notin> cb_price ` set bs \<Longrightarrow> map_of (map bucket_accum bs) p = None"
  by (auto simp: map_of_eq_None_iff bucket_accum_def)

lemma stored_buckets:
  assumes "distinct (map cb_price bs)"
  shows "stored (map (\<lambda>b. window_row spec region n q (cb_price b) (snd (bucket_accum b))) bs) (key_at spec m p) =
    (if n = m then map_option (window_row spec region n q p) (map_of (map bucket_accum bs) p) else None)"
  using assms
  by (induction bs rule: rev_induct) (auto simp: stored_append stored_def map_add_def bucket_accum_def
      split: option.split)

lemma stored_frame_other:
  assumes "1000000 dvd frame_window f" and "frame_window f \<noteq> m * 1000000 \<or> p \<notin> cb_price ` set (frame_buckets f)"
  shows "stored (frame_rows spec region f) (key_at spec m p) = None"
proof -
  have "key_at spec m p \<notin> row_key ` set (frame_rows spec region f)"
    using assms ms_eq [of "frame_window f" m]
    by (cases f) (auto simp: frame_rows_def rows_of_snapshot)
  then show ?thesis by (auto simp: stored_def map_of_eq_None_iff image_image)
qed

lemma stored_closing:
  assumes "snapshot_of step f (m * 1000000, us)"
  shows "stored (frame_rows spec region f) (key_at spec m p) =
    map_option (window_row spec region m (ohlc_of us) p) (book step us p)"
proof -
  obtain s where f: "f = Snapshot s" using assms by (cases f) (auto simp: snapshot_of_def)
  have "m * 1000000 sdiv 1000000 = m" using ms_eq [of "m * 1000000" m] by simp
  then show ?thesis using assms
    by (simp add: f snapshot_of_def frame_rows_def rows_of_snapshot stored_buckets)
qed

section \<open>The frames of a run\<close>

text \<open>
  The frames tell the windows, in order: any number of frames with buckets of the window, then the
  snapshot of the whole window; they may end anywhere.
\<close>

definition part_of :: "i64 \<Rightarrow> cluster_frame \<Rightarrow> window_log \<Rightarrow> bool" where
  "part_of step f wl \<longleftrightarrow> (\<exists>us. prefix us (snd wl) \<and> partial_of step f (fst wl, us))"

inductive tells :: "i64 \<Rightarrow> cluster_frame list \<Rightarrow> window_log list \<Rightarrow> bool" for step where
  nothing: "tells step [] wls"
| part: "part_of step f wl \<Longrightarrow> tells step fs (wl # wls) \<Longrightarrow> tells step (f # fs) (wl # wls)"
| whole: "snapshot_of step f wl \<Longrightarrow> tells step fs wls \<Longrightarrow> tells step (f # fs) (wl # wls)"

inductive_cases tells_ConsE: "tells step (f # fs) wls"

lemma tells_prefix: "tells step (fs @ gs) wls \<Longrightarrow> tells step fs wls"
proof (induction fs arbitrary: wls)
  case (Cons f fs)
  then show ?case by (auto elim!: tells_ConsE intro: tells.intros)
qed (simp add: tells.nothing)

fun trades_of :: "agg_event list \<Rightarrow> trade_print list" where
  "trades_of [] = []"
| "trades_of (ETrade t # es) = t # trades_of es"
| "trades_of (_ # es) = trades_of es"

abbreviation windows_from where
  "windows_from W s ts \<equiv> closed_windows W s ts @ open_list (open_window W s ts)"

lemma windows_from_head:
  "\<exists>vs rest. windows_from W (Some (c, us)) ts = (c, us @ vs) # rest"
proof (induction ts arbitrary: us)
  case Nil
  then show ?case by (simp add: open_list_def)
next
  case (Cons t ts)
  then show ?case using Cons.IH [of us] Cons.IH [of "us @ [t]"]
    by (auto simp: spec_ingest_def case_prod_beta Let_def)
qed

lemma partial_part: "partial_of step f (c, us) \<Longrightarrow> part_of step f (c, us @ vs)"
  by (auto simp: part_of_def intro: exI [of _ us])

lemma snapshot_partial: "snapshot_of step f wl \<Longrightarrow> partial_of step f wl"
  by (auto simp: snapshot_of_def partial_of_def split: cluster_frame.splits)

lemma snapshot_part: "snapshot_of step f wl \<Longrightarrow> part_of step f wl"
  using snapshot_partial [of step f wl] by (auto simp: part_of_def intro!: exI [of _ "snd wl"])

lemma part_window: "part_of step f wl \<Longrightarrow> frame_window f = fst wl"
  by (auto simp: part_of_def partial_of_def)

lemma part_prices:
  assumes "part_of step f wl"
  shows "cb_price ` set (frame_buckets f) \<subseteq> dom (book step (snd wl))"
proof -
  obtain us where us: "prefix us (snd wl)" and p: "partial_of step f (fst wl, us)"
    using assms by (auto simp: part_of_def)
  have "dom (map_of (map bucket_accum (frame_buckets f))) = cb_price ` set (frame_buckets f)"
    by (simp add: dom_map_of_conv_image_fst image_image bucket_accum_def)
  then have "cb_price ` set (frame_buckets f) \<subseteq> dom (book step us)"
    using p map_le_implies_dom_le [of "map_of (map bucket_accum (frame_buckets f))" "book step us"]
    by (simp add: partial_of_def)
  then show ?thesis using set_mono_prefix [OF us] by (auto simp: dom_book)
qed

text \<open>The trades to come only lengthen the windows a run tells.\<close>

lemma run_tells:
  assumes "rep a s" and "list_all event_ok es" and "list_all no_flush es"
    and "agg_run a es = Some (b, frs)"
  shows "tells (ag_bucket_step a) frs (windows_from (ag_window_ns a) s (trades_of es @ later))"
  using assms
proof (induction es arbitrary: a s frs)
  case Nil
  then show ?case by (simp add: tells.nothing)
next
  case (Cons e es)
  let ?W = "ag_window_ns a" and ?S = "ag_bucket_step a" and ?ts = "\<lambda>es. trades_of es @ later"
  obtain s' closed where s': "spec_event ?W s e = (s', closed)" by fastforce
  obtain a' fr where step: "agg_step a e = Some (a', fr)" "rep a' s'" "frame_fits ?S s closed fr"
      "ag_bucket_step a' = ?S" "ag_window_ns a' = ?W"
    using agg_step_refines [OF Cons.prems(1), of e] Cons.prems(2) s' by auto
  obtain fs where run: "agg_run a' es = Some (b, fs)"
      and frs: "frs = (case fr of None \<Rightarrow> fs | Some f \<Rightarrow> f # fs)"
    using Cons.prems(4) step(1) by (auto split: bind_splits)
  have IH: "tells ?S fs (windows_from ?W s' (?ts es))"
    using Cons.IH [OF step(2) _ _ run] Cons.prems(2,3) step(4,5) by simp
  have wins: "windows_from ?W s (?ts (e # es)) = open_list closed @ windows_from ?W s' (?ts es)"
    using s' Cons.prems(3) by (cases e) (auto simp: case_prod_beta open_list_def split: option.split)
  show ?case
  proof (cases closed)
    case (Some wl)
    then obtain f where "fr = Some f" "snapshot_of ?S f wl"
      using step(3) by (auto simp: frame_fits_def split: option.splits)
    then show ?thesis using IH frs Some unfolding wins by (auto simp: open_list_def intro: tells.whole)
  next
    case None
    show ?thesis
    proof (cases fr)
      case None
      then show ?thesis using IH frs \<open>closed = None\<close> unfolding wins by (simp add: open_list_def)
    next
      case (Some f)
      then obtain c us where s: "s = Some (c, us)" and p: "partial_of ?S f (c, us)"
        using step(3) \<open>closed = None\<close> by (cases s) (auto simp: frame_fits_def)
      obtain vs rest where h: "windows_from ?W s (?ts (e # es)) = (c, us @ vs) # rest"
        using windows_from_head s by blast
      have "tells ?S fs ((c, us @ vs) # rest)" using IH wins h \<open>closed = None\<close> by (simp add: open_list_def)
      then show ?thesis using tells.part [OF partial_part [OF p]] frs Some h by simp
    qed
  qed
qed

section \<open>Lost frames\<close>

text \<open>A frame may be lost when another frame of its window follows.\<close>

inductive lossy :: "cluster_frame list \<Rightarrow> cluster_frame list \<Rightarrow> bool" where
  empty: "lossy [] []"
| keep: "lossy fs ks \<Longrightarrow> lossy (f # fs) (f # ks)"
| lose: "lossy fs ks \<Longrightarrow> frame_window f \<in> frame_window ` set fs \<Longrightarrow> lossy (f # fs) ks"

inductive_cases lossy_NilE: "lossy [] ks"
inductive_cases lossy_ConsE: "lossy (f # fs) ks"

lemma lossy_Cons_cases [consumes 1, case_names keep lose]:
  assumes "lossy (f # fs) kept"
  obtains ks where "kept = f # ks" "lossy fs ks"
  | "lossy fs kept" "frame_window f \<in> frame_window ` set fs"
  using assms by (auto elim: lossy_ConsE)

lemma lossy_subset: "lossy fs ks \<Longrightarrow> set ks \<subseteq> set fs"
  by (induction rule: lossy.induct) auto

lemma tells_parts: "tells step fs wls \<Longrightarrow> f \<in> set fs \<Longrightarrow> \<exists>wl \<in> set wls. part_of step f wl"
  by (induction rule: tells.induct) (auto intro: snapshot_part)

lemma tells_windows: "tells step fs wls \<Longrightarrow> frame_window ` set fs \<subseteq> fst ` set wls"
  by (metis image_subsetI image_eqI part_window tells_parts)

text \<open>Whatever a table was sent, each of its rows tells a part of a window.\<close>

lemma row_of_frame:
  assumes "partial_of step f (c, us)" "1000000 dvd c" "r \<in> set (frame_rows spec region f)" "row_key r = key_at spec m p"
  shows "c = m * 1000000 \<and> map_option (window_row spec region m (ohlc_of us) p) (book step us p) = Some r"
proof -
  obtain s where f: "f = Snapshot s" using assms(3) by (cases f) (auto simp: frame_rows_def)
  then obtain b where b: "b \<in> set (as_clusters s)" and r: "r = window_row spec region (c sdiv 1000000)
      (as_open s, as_high s, as_low s, as_close s) (cb_price b) (snd (bucket_accum b))"
    using assms(1,3) by (auto simp: frame_rows_def rows_of_snapshot partial_of_def)
  then have key: "c sdiv 1000000 = m" "cb_price b = p" using assms(4) by simp_all
  then have c: "c = m * 1000000" using ms_eq [OF assms(2)] by simp
  have "distinct (map fst (map bucket_accum (as_clusters s)))"
    using assms(1) by (simp add: f partial_of_def comp_def bucket_accum_def)
  then have "map_of (map bucket_accum (as_clusters s)) p = Some (snd (bucket_accum b))"
    using b key(2) by (intro map_of_is_SomeI) (auto simp: bucket_accum_def)
  then have "book step us p = Some (snd (bucket_accum b))"
    using assms(1) by (auto simp: f partial_of_def map_le_def dom_def)
  moreover have "(as_open s, as_high s, as_low s, as_close s) = ohlc_of us" using assms(1) by (simp add: f partial_of_def)
  ultimately show ?thesis by (simp add: r key c [symmetric])
qed

lemma stored_row: "stored rows k = Some r \<Longrightarrow> r \<in> set rows \<and> row_key r = k"
  by (auto simp: stored_def dest!: map_of_SomeD)

lemma table_of_parts:
  assumes "tells step frs wls" and "set kept \<subseteq> set frs" and "\<And>wl. wl \<in> set wls \<Longrightarrow> 1000000 dvd fst wl"
    and "set rows \<subseteq> set (concat (map (frame_rows spec region) kept))" and "stored rows (key_at spec m p) = Some r"
  shows "m * 1000000 \<in> frame_window ` set frs \<and> (\<exists>ts us. (m * 1000000, ts) \<in> set wls \<and> prefix us ts \<and>
    map_option (window_row spec region m (ohlc_of us) p) (book step us p) = Some r)"
proof -
  obtain f where f: "f \<in> set frs" "r \<in> set (frame_rows spec region f)" and k: "row_key r = key_at spec m p"
    using stored_row [OF assms(5)] assms(2,4) by fastforce
  obtain wl us where wl: "wl \<in> set wls" "prefix us (snd wl)" "partial_of step f (fst wl, us)"
    using tells_parts [OF assms(1) f(1)] by (auto simp: part_of_def)
  note r = row_of_frame [OF wl(3) assms(3) [OF wl(1)] f(2) k]
  then have "frame_window f = m * 1000000" using wl(3) by (simp add: partial_of_def)
  then show ?thesis using r wl f(1) by (metis image_eqI prod.collapse)
qed

lemma table_outside:
  assumes "tells step frs wls" and "set kept \<subseteq> set frs" and "\<And>wl. wl \<in> set wls \<Longrightarrow> 1000000 dvd fst wl"
    and "m * 1000000 \<notin> frame_window ` set frs"
  shows "stored (concat (map (frame_rows spec region) kept)) (key_at spec m p) = None"
  using table_of_parts [OF assms(1,2,3) subset_refl] assms(4)
  by (cases "stored (concat (map (frame_rows spec region) kept)) (key_at spec m p)") blast+

text \<open>The windows in front of one that has a frame hold their footprints, whatever was lost.\<close>

lemma table_of_frames:
  assumes "tells step frs wls" and "lossy frs kept" and "sorted_wrt (<) (map fst wls)"
    and "\<And>wl. wl \<in> set wls \<Longrightarrow> 1000000 dvd fst wl" and "\<exists>g \<in> set frs. m * 1000000 < frame_window g"
  shows "stored (concat (map (frame_rows spec region) kept)) (key_at spec m p) =
    Option.bind (map_of wls (m * 1000000))
      (\<lambda>us. map_option (window_row spec region m (ohlc_of us) p) (book step us p))"
  using assms
proof (induction arbitrary: kept rule: tells.induct)
  case nothing
  then show ?case by simp
next
  case (part f wl fs wls)
  note f = part_window [OF part.hyps(1)] part_prices [OF part.hyps(1)]
  note frs = tells.part [OF part.hyps(1,2)]
  show ?case
  proof (cases "m * 1000000 < fst wl")
    case True
    then have out: "m * 1000000 \<notin> fst ` set (wl # wls)" using part.prems(2) by auto
    then have "map_of (wl # wls) (m * 1000000) = None" by (simp only: map_of_eq_None_iff not_False_eq_True)
    moreover have "m * 1000000 \<notin> frame_window ` set (f # fs)" using out tells_windows [OF frs] by blast
    ultimately show ?thesis
      using table_outside [OF frs lossy_subset [OF part.prems(1)] part.prems(3)] by simp
  next
    case False
    then have ahead: "\<exists>g \<in> set fs. m * 1000000 < frame_window g" using part.prems(4) f(1) by auto
    from part.prems(1) show ?thesis
    proof (cases rule: lossy_Cons_cases)
      case (keep ks)
      have other: "stored (frame_rows spec region f) (key_at spec m p) = None"
        if "fst wl \<noteq> m * 1000000 \<or> book step (snd wl) p = None"
        using that f part.prems(3) [of wl] by (intro stored_frame_other) auto
      show ?thesis using part.IH [OF keep(2) part.prems(2,3) ahead] other
        by (cases "fst wl = m * 1000000"; cases "book step (snd wl) p")
          (auto simp: keep(1) stored_append map_add_def split: option.split)
    next
      case lose
      then show ?thesis using part.IH part.prems(2,3) ahead by blast
    qed
  qed
next
  case (whole f wl fs wls)
  note f = part_window [OF snapshot_part [OF whole.hyps(1)]]
  note frs = tells.whole [OF whole.hyps(1,2)]
  have srt: "sorted_wrt (<) (map fst wls)" and above: "\<forall>x \<in> set wls. fst wl < fst x"
    using whole.prems(2) by auto
  from whole.prems(1) show ?case
  proof (cases rule: lossy_Cons_cases)
    case (keep ks)
    consider "m * 1000000 < fst wl" | "m * 1000000 = fst wl" | "fst wl < m * 1000000" by linarith
    then show ?thesis
    proof cases
      case 1
      then have out: "m * 1000000 \<notin> fst ` set (wl # wls)" using above by auto
      then have "map_of (wl # wls) (m * 1000000) = None" by (simp only: map_of_eq_None_iff not_False_eq_True)
      moreover have "m * 1000000 \<notin> frame_window ` set (f # fs)" using out tells_windows [OF frs] by blast
      ultimately show ?thesis
        using table_outside [OF frs lossy_subset [OF whole.prems(1)] whole.prems(3)] by simp
    next
      case 2
      then have "m * 1000000 \<notin> frame_window ` set fs" using above tells_windows [OF whole.hyps(2)] by force
      then have "stored (concat (map (frame_rows spec region) ks)) (key_at spec m p) = None"
        using table_outside [OF whole.hyps(2) lossy_subset [OF keep(2)]] whole.prems(3) by simp
      moreover have "snapshot_of step f (m * 1000000, snd wl)" using whole.hyps(1) 2 by (metis prod.collapse)
      ultimately show ?thesis using 2 by (cases wl) (simp add: keep(1) stored_append map_add_def stored_closing)
    next
      case 3
      then have "stored (frame_rows spec region f) (key_at spec m p) = None"
        using f whole.prems(3) [of wl] by (intro stored_frame_other) auto
      moreover have "\<exists>g \<in> set fs. m * 1000000 < frame_window g" using whole.prems(4) f 3 by auto
      ultimately show ?thesis using whole.IH [OF keep(2) srt] whole.prems(3) 3
        by (cases wl) (auto simp: keep(1) stored_append map_add_def split: option.split)
    qed
  next
    case lose
    then have "fst wl \<in> fst ` set wls" using f tells_windows [OF whole.hyps(2)] by auto
    then show ?thesis using above by auto
  qed
qed

section \<open>The theorem\<close>

lemma log_aligned_ms: "log_aligned (wms * 1000000) wl \<Longrightarrow> 1000000 dvd fst wl"
proof -
  assume a: "log_aligned (wms * 1000000) wl"
  then obtain t where "t \<in> set (snd wl)" by (cases "snd wl") (auto simp: log_aligned_def)
  then have "fst wl = align (wms * 1000000) (tp_ts_ns t)" using a by (simp add: log_aligned_def)
  then show ?thesis by (simp add: align_def)
qed

text \<open>
  What a table tells of a bucket of an instrument, when the task behind the hub has got as far as a
  frame \<open>f\<close>: of every window before that of \<open>f\<close> the footprint, of the window of \<open>f\<close> itself nothing or
  what some of its trades, from the first on, made of the bucket, and of later windows nothing.
\<close>

definition table_upto ::
  "symbol_spec \<Rightarrow> string \<Rightarrow> i64 \<Rightarrow> window_log list \<Rightarrow> cluster_frame \<Rightarrow> cluster_row list \<Rightarrow> i64 \<Rightarrow> i64 \<Rightarrow> bool" where
  "table_upto spec region step wls f rows m p \<longleftrightarrow>
     (if m * 1000000 < frame_window f
      then stored rows (key_at spec m p) = Option.bind (map_of wls (m * 1000000))
        (\<lambda>us. map_option (window_row spec region m (ohlc_of us) p) (book step us p))
      else stored rows (key_at spec m p) = None \<or>
        m * 1000000 = frame_window f \<and> (\<exists>ts us. map_of wls (m * 1000000) = Some ts \<and> prefix us ts \<and>
          stored rows (key_at spec m p) = map_option (window_row spec region m (ohlc_of us) p) (book step us p)))"

lemma tells_last: "tells step (fs @ [f]) wls \<Longrightarrow> sorted_wrt (<) (map fst wls) \<Longrightarrow> g \<in> set (fs @ [f]) \<Longrightarrow>
  frame_window g \<le> frame_window f"
proof (induction fs arbitrary: wls)
  case Nil
  then show ?case by simp
next
  case (Cons h fs)
  have "tells step (h # fs @ [f]) wls" using Cons.prems(1) by simp
  then obtain wl wls' where w: "wls = wl # wls'" and part: "part_of step h wl"
      and t: "tells step (fs @ [f]) wls \<or> tells step (fs @ [f]) wls'"
    by (cases rule: tells_ConsE) (blast intro: snapshot_part)+
  have h: "frame_window h = fst wl" by (rule part_window [OF part])
  have "frame_window f \<in> fst ` set wls"
    using t tells_windows [of step "fs @ [f]" wls] tells_windows [of step "fs @ [f]" wls'] w by auto
  then have "frame_window h \<le> frame_window f" using Cons.prems(2) by (auto simp: w h)
  moreover have "frame_window g \<le> frame_window f" if "g \<in> set (fs @ [f])"
    using t Cons.IH [OF _ _ that] Cons.prems(2) w by auto
  ultimately show ?case using Cons.prems(3) by auto
qed

lemma table_of_run:
  assumes "tells step (fs @ f # gs) wls" and "lossy (fs @ [f]) (ks @ [f])" and "sorted_wrt (<) (map fst wls)"
    and "\<And>wl. wl \<in> set wls \<Longrightarrow> 1000000 dvd fst wl"
  shows "table_upto spec region step wls f
    (concat (map (frame_rows spec region) ks) @ take j (frame_rows spec region f)) m p"
proof -
  let ?rows = "concat (map (frame_rows spec region) ks) @ take j (frame_rows spec region f)"
  have t: "tells step (fs @ [f]) wls" using tells_prefix [of step "fs @ [f]" gs] assms(1) by simp
  obtain wl where wl: "wl \<in> set wls" "part_of step f wl" using tells_parts [OF t, of f] by auto
  show ?thesis
  proof (cases "m * 1000000 < frame_window f")
    case True
    then have "stored (frame_rows spec region f) (key_at spec m p) = None"
      using part_window [OF wl(2)] assms(4) [OF wl(1)] by (intro stored_frame_other) auto
    moreover from this have "stored (take j (frame_rows spec region f)) (key_at spec m p) = None"
      by (auto simp: stored_def map_of_eq_None_iff dest: in_set_takeD)
    moreover have "stored (concat (map (frame_rows spec region) (ks @ [f]))) (key_at spec m p) =
        Option.bind (map_of wls (m * 1000000))
          (\<lambda>us. map_option (window_row spec region m (ohlc_of us) p) (book step us p))"
      using table_of_frames [OF t assms(2,3,4), of m spec region p] True by simp
    ultimately show ?thesis using True by (simp add: table_upto_def stored_append map_add_def)
  next
    case False
    have sub: "set ?rows \<subseteq> set (concat (map (frame_rows spec region) (ks @ [f])))"
      by (auto dest: in_set_takeD)
    have "m * 1000000 = frame_window f \<and> (\<exists>ts us. map_of wls (m * 1000000) = Some ts \<and> prefix us ts \<and>
        map_option (window_row spec region m (ohlc_of us) p) (book step us p) = Some r)"
      if "stored ?rows (key_at spec m p) = Some r" for r
    proof -
      note * = table_of_parts [OF t lossy_subset [OF assms(2)] assms(4) sub that]
      have "m * 1000000 \<le> frame_window f" using * tells_last [OF t assms(3)] by auto
      moreover have "map_of wls w = Some ts" if "(w, ts) \<in> set wls" for w ts
        using that assms(3) by (simp add: strict_sorted_iff)
      ultimately show ?thesis using * False by force
    qed
    then show ?thesis using False unfolding table_upto_def
      by (cases "stored ?rows (key_at spec m p)") (simp, metis)
  qed
qed

text \<open>
  Whatever trades, ticks and partial snapshots an aggregator handled, and whatever frames the task
  behind the hub missed (as long as a frame of the same window followed), the ClickHouse table tells
  the windows of its trades up to the last frame the task got, whatever other symbols write to the
  table and whatever trades are still to come.
\<close>

lemma store_holds_footprints:
  assumes "aggregator_new k step wms dms = Some a"
    and "wms * 1000000 < 2 ^ 63" and "dms * 1000000 < 2 ^ 63"
    and "list_all event_ok es" and "list_all no_flush es"
    and "agg_run a es = Some (b, fs @ f # gs)" and "lossy (fs @ [f]) (received items @ [f])"
    and "filter (\<lambda>r. row_stream r = spec_stream spec) rows =
      fst (snapshot_to_ch spec region None 0 items) @ take j (frame_rows spec region f)"
  shows "table_upto spec region step (all_windows (wms * 1000000) (trades_of es @ later)) f rows m p"
proof -
  note new = new_rep [OF assms(1-3)]
  let ?W = "wms * 1000000"
  let ?wls = "all_windows ?W (trades_of es @ later)"
  have t: "tells step (fs @ f # gs) ?wls"
    using run_tells [OF new(1) assms(4-6)] new(2,3) by (simp add: all_windows_def)
  have aligned: "list_all (log_aligned ?W) ?wls" and sorted: "sorted_wrt (<) (map fst ?wls)"
    using windows_sorted [of ?W None "trades_of es @ later"] by (simp_all add: all_windows_def open_list_def)
  have "1000000 dvd fst wl" if "wl \<in> set ?wls" for wl
    using that aligned by (metis list_all_iff log_aligned_ms)
  then have "table_upto spec region step ?wls f
      (concat (map (frame_rows spec region) (received items)) @ take j (frame_rows spec region f)) m p"
    by (intro table_of_run [OF t assms(7) sorted])
  moreover have "stored rows (key_at spec m p) = stored (filter (\<lambda>r. row_stream r = spec_stream spec) rows) (key_at spec m p)"
    by (rule stored_filter [symmetric]) (auto simp: row_key_def row_stream_def key_at_def case_prod_beta)
  ultimately show ?thesis unfolding table_upto_def by (simp only: assms(8) snapshot_to_ch_rows)
qed

lemma lossy_refl: "lossy fs fs"
  by (induction fs) (auto intro: lossy.intros)

lemma received_frames [simp]: "received (map RecvFrame fs) = fs"
  by (induction fs) simp_all

lemma spec_rows: "r \<in> set (rows_from_snapshot s spec region) \<Longrightarrow> row_stream r = spec_stream spec"
  by (auto simp: rows_from_snapshot_def row_stream_def spec_stream_def Let_def)

lemma own_rows:
  "filter (\<lambda>r. row_stream r = spec_stream spec) (fst (snapshot_to_ch spec region None n items))
     = fst (snapshot_to_ch spec region None n items)"
  unfolding snapshot_to_ch_rows
  by (intro filter_True ballI) (auto simp: frame_rows_def dest!: spec_rows split: cluster_frame.splits)

text \<open>
  What the table of a timeframe must hold: per window of a stream of trades and per price bucket one
  row, with the totals of all trades of the bucket and the open, high, low and close of the window.
\<close>

definition footprint_table :: "symbol_spec \<Rightarrow> string \<Rightarrow> nat \<Rightarrow> trade_print list \<Rightarrow> i64 \<Rightarrow> i64 \<Rightarrow> cluster_row option" where
  "footprint_table spec region tf ts m p =
     Option.bind (map_of (all_windows (int tf * 1000000000) ts) (m * 1000000))
       (\<lambda>us. map_option (window_row spec region m (ohlc_of us) p) (book (sp_tick_size spec) us p))"

end
