(* ===== verification/Range_Query_Theorems.thy ===== *)
theory Range_Query_Theorems
  imports Store_Theorems
begin

text \<open>
  The history query over the tables the service writes: read directly or rolled up from minutes, it
  gives the footprints of the windows at the interval asked for, in order, one row per price bucket,
  each with the candle of its window.
\<close>

section \<open>Lists in a strict order\<close>

lemma sorted_wrt_unique:
  assumes "transp R" "irreflp R" and "sorted_wrt R xs" "sorted_wrt R ys" "set xs = set ys"
  shows "xs = ys"
  using assms(3-5)
proof (induction xs arbitrary: ys)
  case (Cons x xs)
  then obtain y zs where ys: "ys = y # zs" by (cases ys) auto
  have asym: "\<not> (R a b \<and> R b a)" for a b
    using assms(1,2) by (meson irreflpD transpD)
  have "x = y \<or> R x y" "y = x \<or> R y x" using Cons.prems ys by (auto simp del: set_simps) (metis list.set_intros(1) set_ConsD)+
  then have "x = y" using asym by blast
  moreover have "x \<notin> set xs" "y \<notin> set zs"
    using Cons.prems assms(2) ys by (auto dest: irreflpD)
  ultimately have "set xs = set zs" using Cons.prems(3) ys by auto
  then show ?case using Cons ys \<open>x = y\<close> by simp
qed simp

definition lex_le :: "('a \<Rightarrow> 'b::linorder) \<Rightarrow> ('a \<Rightarrow> 'c::linorder) \<Rightarrow> 'a \<Rightarrow> 'a \<Rightarrow> bool" where
  "lex_le f g x y \<longleftrightarrow> f x < f y \<or> f x = f y \<and> g x \<le> g y"

definition lex_less :: "('a \<Rightarrow> 'b::linorder) \<Rightarrow> ('a \<Rightarrow> 'c::linorder) \<Rightarrow> 'a \<Rightarrow> 'a \<Rightarrow> bool" where
  "lex_less f g x y \<longleftrightarrow> f x < f y \<or> f x = f y \<and> g x < g y"

lemma lex_less_order: "transp (lex_less f g)" "irreflp (lex_less f g)"
  by (auto simp: lex_less_def intro!: transpI irreflpI)

lemma insort_lex:
  "sorted_wrt (lex_le f g) ys \<Longrightarrow> \<forall>y \<in> set ys. g x \<le> g y \<Longrightarrow> sorted_wrt (lex_le f g) (insort_key f x ys)"
  by (induction ys) (auto simp: lex_le_def set_insort_key)

lemma sort_lex: "sorted_wrt (lex_le f g) (sort_key f (sort_key g xs))"
proof -
  have "sorted (map g ys) \<Longrightarrow> sorted_wrt (lex_le f g) (sort_key f ys)" for ys
    by (induction ys) (auto intro!: insort_lex)
  then show ?thesis by simp
qed

lemma sort_lex_strict:
  assumes "distinct (map (\<lambda>x. (f x, g x)) xs)"
  shows "sorted_wrt (lex_less f g) (sort_key f (sort_key g xs))"
proof -
  have inj: "inj_on (\<lambda>x. (f x, g x)) (set (sort_key f (sort_key g xs)))"
    and dist: "distinct (sort_key f (sort_key g xs))"
    using assms by (simp_all add: distinct_map)
  have "sorted_wrt (lex_le f g) zs \<Longrightarrow> distinct zs \<Longrightarrow> inj_on (\<lambda>x. (f x, g x)) (set zs)
      \<Longrightarrow> sorted_wrt (lex_less f g) zs" for zs
    by (induction zs) (auto simp: lex_le_def lex_less_def inj_on_def order_le_less)
  then show ?thesis using sort_lex inj dist by blast
qed

section \<open>The final rows\<close>

lemma stored_Cons: "stored (r # rows) k = (if k \<in> row_key ` set rows then stored rows k else if k = row_key r then Some r else None)"
proof -
  have "map_of (rev (map (\<lambda>r. (row_key r, r)) rows)) k = None \<longleftrightarrow> k \<notin> row_key ` set rows"
    by (simp add: map_of_eq_None_iff image_image)
  then show ?thesis
    by (cases "map_of (rev (map (\<lambda>r. (row_key r, r)) rows)) k") (auto simp: stored_def map_add_def)
qed

lemma final_rows_stored:
  "set (final_rows rows) = {r. stored rows (row_key r) = Some r}" "distinct (map row_key (final_rows rows))"
proof -
  have sub: "set (final_rows rows) \<subseteq> set rows" for rows by (induction rows) auto
  have key: "stored rows k \<noteq> None \<longleftrightarrow> k \<in> row_key ` set rows" for rows k
    by (induction rows) (auto simp: stored_Cons)
  have val: "stored rows k = Some r \<Longrightarrow> row_key r = k" for rows k r
    by (induction rows) (auto simp: stored_Cons split: if_splits simp: stored_def)
  show "set (final_rows rows) = {r. stored rows (row_key r) = Some r}"
  proof (induction rows)
    case (Cons r rows)
    show ?case
    proof (cases "row_key r \<in> row_key ` set rows")
      case True
      then have "stored (r # rows) k = stored rows k" for k
        using key [of rows k] by (cases "k = row_key r") (auto simp: stored_Cons)
      then show ?thesis using Cons.IH True by simp
    next
      case False
      have "stored (r # rows) (row_key x) = Some x \<longleftrightarrow> x = r \<or> stored rows (row_key x) = Some x" for x
        using key [of rows "row_key x"] False by (cases "row_key x = row_key r") (auto simp: stored_Cons)
      then show ?thesis using Cons.IH False by auto
    qed
  qed (simp add: stored_def)
  show "distinct (map row_key (final_rows rows))"
    using sub by (induction rows) auto
qed

section \<open>Aggregates of equal values\<close>

lemma pos_filter_same:
  assumes "\<forall>r \<in> set rows. f r = v" "0 < v"
  shows "filter (\<lambda>x. 0 < x) (map f rows) = replicate (length rows) v"
  using assms by (induction rows) auto

lemma fold_same: "(max v ^^ n) v = v" "(min v ^^ n) v = (v :: 'a::linorder)"
  by (induction n) simp_all

lemma aggregates_same:
  fixes v :: "'b::{linorder, zero}"
  assumes "rows \<noteq> []" "\<forall>r \<in> set rows. f r = v" "0 \<le> v"
  shows "max_pos f rows = v" "min_pos f rows = v" "last_pos f rows = v" "first_pos f rows = v"
proof -
  consider "v = 0" | "0 < v" using assms(3) by fastforce
  then have "max_pos f rows = v \<and> min_pos f rows = v \<and> last_pos f rows = v \<and> first_pos f rows = v"
  proof cases
    case 1
    then have "filter (\<lambda>x. 0 < x) (map f rows) = []" using assms(2) by (auto simp: filter_empty_conv)
    then show ?thesis by (simp add: max_pos_def min_pos_def last_pos_def first_pos_def 1)
  next
    case 2
    obtain n where "length rows = Suc n" using assms(1) by (cases rows) auto
    then have "filter (\<lambda>x. 0 < x) (map f rows) = v # replicate n v" "rev (v # replicate n v) = v # replicate n v"
      using pos_filter_same [OF assms(2) 2] by (simp_all add: replicate_append_same)
    then show ?thesis by (simp add: max_pos_def min_pos_def last_pos_def first_pos_def fold_same)
  qed
  then show "max_pos f rows = v" "min_pos f rows = v" "last_pos f rows = v" "first_pos f rows = v" by simp_all
qed

lemma fold_max_Max: "fold max xs x = Max (set (x # (xs :: 'a::linorder list)))" "fold min xs x = Min (set (x # (xs :: 'a::linorder list)))"
  by (simp_all add: Max.set_eq_fold Min.set_eq_fold del: set_simps)

lemma aggregates_pos:
  assumes "rows \<noteq> []" "\<forall>r \<in> set rows. 0 < f r"
  shows "max_pos f rows = Max (f ` set rows)" "min_pos f rows = Min (f ` set rows)"
    "last_pos f rows = f (last rows)" "first_pos f rows = f (hd rows)"
proof -
  have p: "filter (\<lambda>x. 0 < x) (map f rows) = map f rows" using assms(2) by simp
  obtain x xs where r: "rows = x # xs" using assms(1) by (cases rows) auto
  show "max_pos f rows = Max (f ` set rows)" "min_pos f rows = Min (f ` set rows)"
    unfolding max_pos_def min_pos_def p by (simp_all add: r fold_max_Max image_image)
  show "first_pos f rows = f (hd rows)" unfolding first_pos_def p by (simp add: r)
  obtain ys y where l: "rows = ys @ [y]" using assms(1) by (cases rows rule: rev_cases) auto
  show "last_pos f rows = f (last rows)" unfolding last_pos_def p by (simp add: l)
qed

section \<open>The footprints of a range\<close>

definition names :: "range_params \<Rightarrow> symbol_spec \<Rightarrow> bool" where
  "names q spec \<longleftrightarrow>
     (case spec_stream spec of (e, mt, _, s) \<Rightarrow> rp_exchange q = e \<and> rp_market_type q = mt \<and> rp_symbol q = s)"

text \<open>The row of a reply that tells a price bucket of a window.\<close>

definition window_range_row ::
  "symbol_spec \<Rightarrow> i64 \<Rightarrow> i64 \<times> i64 \<times> i64 \<times> i64 \<Rightarrow> i64 \<Rightarrow> cluster_accum \<Rightarrow> range_row" where
  "window_range_row spec m ohlc4 p acc =
     (case ohlc4 of (op, hi, lo, cl) \<Rightarrow>
      \<lparr>qr_ts_ms = m, qr_price = p, qr_bid_qty = ca_bid_qty acc, qr_ask_qty = ca_ask_qty acc,
       qr_trades = ca_trades acc, qr_ps = sp_price_scale spec, qr_qs = sp_qty_scale spec,
       qr_open = op, qr_close = cl, qr_high = hi, qr_low = lo\<rparr>)"

definition bucket_prices :: "i64 \<Rightarrow> trade_print list \<Rightarrow> i64 list" where
  "bucket_prices step us = sort (remdups (map (\<lambda>t. align step (tp_price t)) us))"

definition window_rows :: "symbol_spec \<Rightarrow> window_log \<Rightarrow> range_row list" where
  "window_rows spec wl =
     map (\<lambda>p. window_range_row spec (fst wl div 1000000) (ohlc_of (snd wl)) p
            (the (book (sp_tick_size spec) (snd wl) p)))
       (bucket_prices (sp_tick_size spec) (snd wl))"

definition in_time :: "range_params \<Rightarrow> window_log \<Rightarrow> bool" where
  "in_time q wl \<longleftrightarrow> rp_from_ms q \<le> fst wl div 1000000 \<and> fst wl div 1000000 < rp_to_ms q"

definition footprint_rows :: "symbol_spec \<Rightarrow> range_params \<Rightarrow> window_log list \<Rightarrow> range_row list" where
  "footprint_rows spec q wls = concat (map (window_rows spec) (filter (in_time q) wls))"

text \<open>Windows in time order, at whole milliseconds, with trades.\<close>

definition windows_ok :: "window_log list \<Rightarrow> bool" where
  "windows_ok wls \<longleftrightarrow> sorted_wrt (<) (map fst wls) \<and>
     (\<forall>wl \<in> set wls. snd wl \<noteq> [] \<and> 1000000 dvd fst wl \<and> list_all trade_ok (snd wl))"

text \<open>A table that holds, for an instrument and the range of a query, the footprints of some windows.\<close>

definition holds_windows :: "range_params \<Rightarrow> symbol_spec \<Rightarrow> string \<Rightarrow> window_log list \<Rightarrow> cluster_row list \<Rightarrow> bool" where
  "holds_windows q spec region wls rows \<longleftrightarrow>
     (\<forall>m p. rp_from_ms q \<le> m \<and> m < rp_to_ms q \<longrightarrow>
        stored rows (key_at spec m p) = Option.bind (map_of wls (m * 1000000))
        (\<lambda>us. map_option (window_row spec region m (ohlc_of us) p) (book (sp_tick_size spec) us p)))"

text \<open>No other instrument of the market has the symbol.\<close>

definition symbol_unique :: "symbol_spec \<Rightarrow> cluster_row list \<Rightarrow> bool" where
  "symbol_unique spec rows \<longleftrightarrow> (\<forall>r \<in> set rows. case spec_stream spec of (e, mt, q, s) \<Rightarrow>
     cr_exchange r = e \<and> cr_market_type r = mt \<and> cr_symbol r = s \<longrightarrow> cr_quote r = q)"

definition told :: "symbol_spec \<Rightarrow> window_log list \<Rightarrow> i64 \<Rightarrow> trade_print list \<Rightarrow> i64 \<Rightarrow> cluster_accum \<Rightarrow> bool" where
  "told spec wls m us p acc \<longleftrightarrow> (m * 1000000, us) \<in> set wls \<and> book (sp_tick_size spec) us p = Some acc"

lemma set_bucket_prices: "set (bucket_prices step us) = dom (book step us)"
  by (simp add: bucket_prices_def dom_book)

lemma set_window_rows:
  "set (window_rows spec wl) =
     (\<lambda>p. window_range_row spec (fst wl div 1000000) (ohlc_of (snd wl)) p
        (the (book (sp_tick_size spec) (snd wl) p))) ` dom (book (sp_tick_size spec) (snd wl))"
  by (simp add: window_rows_def set_bucket_prices)

lemma window_range_row_keys [simp]:
  "qr_ts_ms (window_range_row spec m o4 p acc) = m" "qr_price (window_range_row spec m o4 p acc) = p"
  by (simp_all add: window_range_row_def case_prod_beta)

lemma set_footprint_rows:
  assumes "windows_ok wls"
  shows "set (footprint_rows spec q wls) =
    {window_range_row spec m (ohlc_of us) p acc | m us p acc.
       told spec wls m us p acc \<and> rp_from_ms q \<le> m \<and> m < rp_to_ms q}" (is "_ = ?R")
proof
  show "set (footprint_rows spec q wls) \<subseteq> ?R"
  proof
    fix r assume "r \<in> set (footprint_rows spec q wls)"
    then obtain wl where wl: "wl \<in> set wls" "in_time q wl" "r \<in> set (window_rows spec wl)"
      by (auto simp: footprint_rows_def)
    then obtain p where p: "p \<in> dom (book (sp_tick_size spec) (snd wl))"
        "r = window_range_row spec (fst wl div 1000000) (ohlc_of (snd wl)) p (the (book (sp_tick_size spec) (snd wl) p))"
      unfolding set_window_rows by blast
    have "fst wl = fst wl div 1000000 * 1000000" using wl(1) assms by (auto simp: windows_ok_def)
    then have "told spec wls (fst wl div 1000000) (snd wl) p (the (book (sp_tick_size spec) (snd wl) p))"
      using wl(1) p(1) by (auto simp: told_def)
    then show "r \<in> ?R" using wl(2) p(2) by (auto simp: in_time_def)
  qed
next
  show "?R \<subseteq> set (footprint_rows spec q wls)"
  proof
    fix r assume "r \<in> ?R"
    then obtain m us p acc where t: "(m * 1000000, us) \<in> set wls" "book (sp_tick_size spec) us p = Some acc"
        "rp_from_ms q \<le> m" "m < rp_to_ms q" "r = window_range_row spec m (ohlc_of us) p acc"
      by (auto simp: told_def)
    then have "r \<in> set (window_rows spec (m * 1000000, us))"
      by (force simp: window_rows_def set_bucket_prices)
    moreover have "(m * 1000000, us) \<in> set (filter (in_time q) wls)" using t by (simp add: in_time_def)
    ultimately show "r \<in> set (footprint_rows spec q wls)"
      unfolding footprint_rows_def set_concat set_map t(5) by blast
  qed
qed

lemma sorted_window_rows: "sorted_wrt (lex_less qr_ts_ms qr_price) (window_rows spec wl)"
proof -
  have "sorted_wrt (<) (bucket_prices step us)" for step us
    by (simp add: bucket_prices_def strict_sorted_iff)
  then show ?thesis by (simp add: window_rows_def sorted_wrt_map lex_less_def)
qed

lemma sorted_footprint_rows:
  assumes "windows_ok wls"
  shows "sorted_wrt (lex_less qr_ts_ms qr_price) (footprint_rows spec q wls)"
  using assms
proof (induction wls)
  case (Cons wl wls)
  have ok: "windows_ok wls" using Cons.prems by (simp add: windows_ok_def)
  have "lex_less qr_ts_ms qr_price r s" if r: "r \<in> set (window_rows spec wl)" and s: "s \<in> set (footprint_rows spec q wls)" for r s
  proof -
    obtain wk where wk: "wk \<in> set wls" "s \<in> set (window_rows spec wk)"
      using s by (auto simp: footprint_rows_def)
    then have "fst wl < fst wk" "1000000 dvd fst wl" "1000000 dvd fst wk"
      using Cons.prems by (auto simp: windows_ok_def)
    then have "fst wl div 1000000 < fst wk div 1000000" by (auto elim!: dvdE)
    then show ?thesis using r wk(2) by (auto simp: lex_less_def window_rows_def)
  qed
  then show ?case
    using Cons.IH [OF ok] sorted_window_rows [of spec wl]
    by (cases "in_time q wl") (simp_all add: footprint_rows_def sorted_wrt_append)
qed (simp add: footprint_rows_def)

lemma window_row_fields [simp]:
  "cr_window_start (window_row spec region m o4 p acc) = m" "cr_price (window_row spec region m o4 p acc) = p"
  "cr_bid_qty (window_row spec region m o4 p acc) = ca_bid_qty acc"
  "cr_ask_qty (window_row spec region m o4 p acc) = ca_ask_qty acc"
  "cr_trades (window_row spec region m o4 p acc) = ca_trades acc"
  "cr_price_scale (window_row spec region m o4 p acc) = sp_price_scale spec"
  "cr_qty_scale (window_row spec region m o4 p acc) = sp_qty_scale spec"
  "cr_open (window_row spec region m o4 p acc) = fst o4"
  "cr_high (window_row spec region m o4 p acc) = fst (snd o4)"
  "cr_low (window_row spec region m o4 p acc) = fst (snd (snd o4))"
  "cr_close (window_row spec region m o4 p acc) = snd (snd (snd o4))"
  by (simp_all add: window_row_def case_prod_beta)

section \<open>The rows a query selects\<close>

lemma selected:
  assumes "names q spec" "symbol_unique spec rows" "holds_windows q spec region wls rows"
    and "windows_ok wls"
  shows "set (selected_rows q rows) =
    {window_row spec region m (ohlc_of us) p acc | m us p acc.
       told spec wls m us p acc \<and> rp_from_ms q \<le> m \<and> m < rp_to_ms q}" (is "_ = ?R")
proof -
  have dist: "distinct (map fst wls)" using assms(4) by (simp add: windows_ok_def strict_sorted_iff)
  have st: "stored rows (key_at spec m p) = Some r \<longleftrightarrow>
      (\<exists>us acc. told spec wls m us p acc \<and> r = window_row spec region m (ohlc_of us) p acc)"
    if "rp_from_ms q \<le> m" "m < rp_to_ms q" for m p r
    using assms(3) dist that
    by (auto simp: holds_windows_def told_def bind_eq_Some_conv)
  have key: "row_key r = key_at spec (cr_window_start r) (cr_price r)"
    if "stored rows (row_key r) = Some r" "range_where q r" for r
  proof -
    have "r \<in> set rows" using that(1) by (auto simp: stored_def dest!: map_of_SomeD)
    then show ?thesis using that(2) assms(1,2)
      by (auto simp: symbol_unique_def names_def range_where_def row_key_def key_at_def split: prod.splits)
  qed
  show ?thesis
  proof (intro equalityI subsetI)
    fix r assume "r \<in> set (selected_rows q rows)"
    then have r: "stored rows (row_key r) = Some r" "range_where q r" by (simp_all add: selected_rows_def final_rows_stored)
    then obtain us acc where "told spec wls (cr_window_start r) us (cr_price r) acc"
        "r = window_row spec region (cr_window_start r) (ohlc_of us) (cr_price r) acc"
      using key [OF r] st [of "cr_window_start r" "cr_price r" r] by (auto simp: range_where_def)
    then show "r \<in> ?R" using r(2) unfolding range_where_def by blast
  next
    fix r assume "r \<in> ?R"
    then obtain m us p acc where t: "told spec wls m us p acc" "rp_from_ms q \<le> m" "m < rp_to_ms q"
        "r = window_row spec region m (ohlc_of us) p acc" by blast
    then have "stored rows (row_key r) = Some r" using st by auto
    moreover have "range_where q r"
      using t(2-4) assms(1) by (auto simp: range_where_def window_row_def names_def split: prod.splits)
    ultimately show "r \<in> set (selected_rows q rows)" by (simp add: selected_rows_def final_rows_stored)
  qed
qed

text \<open>The row of the table and its window.\<close>

lemma selectedE:
  assumes "names q spec" "symbol_unique spec rows" "holds_windows q spec region wls rows" "windows_ok wls"
    and "r \<in> set (selected_rows q rows)"
  obtains us acc where "told spec wls (cr_window_start r) us (cr_price r) acc"
    "rp_from_ms q \<le> cr_window_start r" "cr_window_start r < rp_to_ms q"
    "r = window_row spec region (cr_window_start r) (ohlc_of us) (cr_price r) acc"
proof -
  obtain m us p acc where "told spec wls m us p acc" "rp_from_ms q \<le> m" "m < rp_to_ms q"
      "r = window_row spec region m (ohlc_of us) p acc"
    using assms(5) unfolding selected [OF assms(1-4)] by blast
  then show thesis using that [of us acc] by simp
qed

lemma told_unique: "windows_ok wls \<Longrightarrow> told spec wls m us p acc \<Longrightarrow> told spec wls m vs p' acc' \<Longrightarrow> us = vs"
  by (auto simp: told_def windows_ok_def strict_sorted_iff dest: eq_key_imp_eq_value)

lemma selected_key:
  assumes "names q spec" "symbol_unique spec rows" "holds_windows q spec region wls rows" "windows_ok wls"
    and "r \<in> set (selected_rows q rows)"
  shows "row_key r = key_at spec (cr_window_start r) (cr_price r)"
  using assms(5) by (elim selectedE [OF assms(1-4)]) (metis key_window_row)

lemma selected_keys:
  assumes "names q spec" "symbol_unique spec rows" "holds_windows q spec region wls rows" "windows_ok wls"
  shows "inj_on (\<lambda>r. (cr_window_start r, cr_price r)) (set (selected_rows q rows))"
proof (rule inj_onI)
  fix r s
  assume r: "r \<in> set (selected_rows q rows)" and s: "s \<in> set (selected_rows q rows)"
    and eq: "(cr_window_start r, cr_price r) = (cr_window_start s, cr_price s)"
  have "row_key r = row_key s"
    using selected_key [OF assms r] selected_key [OF assms s] eq by (metis prod.inject)
  moreover have "stored rows (row_key r) = Some r" "stored rows (row_key s) = Some s"
    using r s by (simp_all add: selected_rows_def final_rows_stored)
  ultimately show "r = s" by (metis option.inject)
qed

text \<open>Within a window all rows agree on the candle, whose values are positive.\<close>

lemma ohlc_pos:
  assumes "us \<noteq> []" "list_all trade_ok us"
  shows "0 < fst (ohlc_of us)" "0 < fst (snd (ohlc_of us))" "0 < fst (snd (snd (ohlc_of us)))"
    "0 < snd (snd (snd (ohlc_of us)))"
proof -
  have pos: "0 < tp_price t" if "t \<in> set us" for t
    using assms(2) that by (auto simp: list_all_iff trade_ok_def)
  have "Max (tp_price ` set us) \<in> tp_price ` set us" "Min (tp_price ` set us) \<in> tp_price ` set us"
    using assms(1) by simp_all
  then have "0 < Max (tp_price ` set us)" "0 < Min (tp_price ` set us)" using pos by fastforce+
  then show "0 < fst (ohlc_of us)" "0 < fst (snd (ohlc_of us))" "0 < fst (snd (snd (ohlc_of us)))"
    "0 < snd (snd (snd (ohlc_of us)))"
    using assms(1) pos by (simp_all add: ohlc_of_def del: Max_gr_iff Min_gr_iff)
qed

lemma window_aggregates:
  assumes "w \<noteq> []" "\<forall>r \<in> set w. \<exists>p acc. r = window_row spec region m (ohlc_of us) p acc"
    and "us \<noteq> []" "list_all trade_ok us"
  shows "max_pos cr_price_scale w = sp_price_scale spec" "max_pos cr_qty_scale w = sp_qty_scale spec"
    "max_pos cr_open w = fst (ohlc_of us)" "last_pos cr_close w = snd (snd (snd (ohlc_of us)))"
    "max_pos cr_high w = fst (snd (ohlc_of us))" "min_pos cr_low w = fst (snd (snd (ohlc_of us)))"
  using assms(2) ohlc_pos [OF assms(3,4)]
  by (auto intro!: aggregates_same [OF assms(1)] simp: order_less_imp_le)

lemma direct_query_rows:
  assumes sel: "names q spec" "symbol_unique spec rows" "holds_windows q spec region wls rows" "windows_ok wls"
  shows "direct_query q rows = footprint_rows spec q wls"
proof (rule sorted_wrt_unique [OF lex_less_order])
  let ?sel = "selected_rows q rows"
  have row: "direct_row ?sel (window_row spec region m (ohlc_of us) p acc) = window_range_row spec m (ohlc_of us) p acc"
    if t: "told spec wls m us p acc" "rp_from_ms q \<le> m" "m < rp_to_ms q" for m us p acc
  proof -
    let ?w = "filter (\<lambda>r. cr_window_start r = m) ?sel"
    have us: "us \<noteq> []" "list_all trade_ok us" using t(1) sel(4) by (auto simp: told_def windows_ok_def)
    have "\<exists>p acc. r = window_row spec region m (ohlc_of us) p acc" if r: "r \<in> set ?w" for r
    proof -
      have "r \<in> set ?sel" "cr_window_start r = m" using r by simp_all
      then show ?thesis using told_unique [OF sel(4) t(1)] by (elim selectedE [OF sel]) auto
    qed
    moreover have "window_row spec region m (ohlc_of us) p acc \<in> set ?w" using t by (auto simp: selected [OF sel])
    then have "?w \<noteq> []" by (metis list.distinct(1) list.set_cases)
    ultimately show ?thesis
      using window_aggregates [of ?w spec region m us] us
      by (simp add: direct_row_def Let_def window_range_row_def case_prod_beta)
  qed
  then have "direct_row ?sel ` set ?sel = set (footprint_rows spec q wls)"
    unfolding selected [OF sel] set_footprint_rows [OF sel(4)] by (auto simp: image_def) (metis, metis)
  then show "set (direct_query q rows) = set (footprint_rows spec q wls)" by (simp add: direct_query_def Let_def)
  show "sorted_wrt (lex_less qr_ts_ms qr_price) (footprint_rows spec q wls)" by (rule sorted_footprint_rows [OF sel(4)])
  have "distinct (map row_key ?sel)" using final_rows_stored(2) by (simp add: selected_rows_def distinct_map_filter)
  then have "distinct ?sel" by (simp add: distinct_map)
  then have "distinct (map (\<lambda>r. (cr_window_start r, cr_price r)) ?sel)"
    using selected_keys [OF sel] by (simp add: distinct_map)
  from sort_lex_strict [OF this]
  show "sorted_wrt (lex_less qr_ts_ms qr_price) (direct_query q rows)"
    by (simp add: direct_query_def Let_def sorted_wrt_map lex_less_def [abs_def] direct_row_def)
qed

section \<open>Minutes and their roll-up\<close>

text \<open>The window of a trade in the table of minutes, in milliseconds, and its rolled-up window, in seconds.\<close>

definition minute :: "trade_print \<Rightarrow> int" where
  "minute t = tp_ts_ns t div 60000000000 * 60000"

definition rolled :: "nat \<Rightarrow> trade_print \<Rightarrow> int" where
  "rolled n t = tp_ts_ns t div (int n * 1000000000) * int n"

lemma rolled_minute:
  assumes "60 dvd n" "0 < n"
  shows "start_of_interval n (minute t) = rolled n t"
proof -
  obtain k where n: "n = 60 * k" "0 < k" using assms by auto
  have "tp_ts_ns t div 60000000000 * 60000 div (60000 * int k) = tp_ts_ns t div 60000000000 div int k"
    by (metis div_mult_mult1 mult.commute zero_neq_numeral)
  also have "\<dots> = tp_ts_ns t div (60000000000 * int k)"
    by (simp add: zdiv_zmult2_eq)
  finally show ?thesis by (simp add: start_of_interval_def minute_def rolled_def n ac_simps)
qed

lemma minute_mono: "tp_ts_ns t \<le> tp_ts_ns u \<Longrightarrow> minute t \<le> minute u"
  by (simp add: minute_def zdiv_mono1)

text \<open>A sum over some trades is the sum of the sums over their minutes.\<close>

lemma sum_split:
  fixes f :: "'a \<Rightarrow> 'b::comm_monoid_add"
  assumes "finite M"
  shows "(\<Sum>m \<in> M. sum_list (map f (filter (\<lambda>t. P t \<and> key t = m) ts))) =
    sum_list (map f (filter (\<lambda>t. P t \<and> key t \<in> M) ts))"
proof (induction ts)
  case (Cons t ts)
  have "(\<Sum>m \<in> M. sum_list (map f (filter (\<lambda>t. P t \<and> key t = m) (t # ts)))) =
      (\<Sum>m \<in> M. (if P t \<and> key t = m then f t else 0) + sum_list (map f (filter (\<lambda>t. P t \<and> key t = m) ts)))"
    by (intro sum.cong) simp_all
  also have "\<dots> = (\<Sum>m \<in> M. if P t \<and> key t = m then f t else 0) + sum_list (map f (filter (\<lambda>t. P t \<and> key t \<in> M) ts))"
    by (simp add: sum.distrib Cons.IH)
  also have "(\<Sum>m \<in> M. if P t \<and> key t = m then f t else 0) = (if P t \<and> key t \<in> M then f t else 0)"
    using assms by (cases "P t") (simp_all add: sum.delta)
  finally show ?case by simp
qed simp

text \<open>Totals without clamping.\<close>

definition fits :: "trade_print list \<Rightarrow> bool" where
  "fits us \<longleftrightarrow> side_total Bid us < 2 ^ 63 \<and> side_total Ask us < 2 ^ 63 \<and> length us \<le> u32_max"

lemma side_total_filter: "\<forall>t \<in> set us. 0 \<le> tp_qty t \<Longrightarrow> side_total g (filter P us) \<le> side_total g us"
  by (induction us) (auto simp: side_total_def)

lemma totals_fit:
  assumes "fits us" "list_all trade_ok us"
  shows "totals (filter P us) = \<lparr>ca_bid_qty = side_total Bid (filter P us),
    ca_ask_qty = side_total Ask (filter P us), ca_trades = length (filter P us)\<rparr>"
proof -
  have "\<forall>t \<in> set us. 0 \<le> tp_qty t" using assms(2) by (auto simp: list_all_iff trade_ok_def)
  then have "side_total g (filter P us) \<le> side_total g us" for g by (rule side_total_filter)
  note this [of Bid] this [of Ask]
  moreover have "length (filter P us) \<le> u32_max"
    using assms(1) length_filter_le [of P us] by (simp only: fits_def) linarith
  ultimately show ?thesis using assms(1) by (simp add: totals_def fits_def min_absorb2)
qed

text \<open>The candle of a rolled-up window from the candles of its minutes.\<close>

lemma hd_filter: "us \<noteq> [] \<Longrightarrow> P (hd us) \<Longrightarrow> hd (filter P us) = hd us"
  by (cases us) simp_all

lemma last_filter: "us \<noteq> [] \<Longrightarrow> P (last us) \<Longrightarrow> last (filter P us) = last us"
  by (cases us rule: rev_cases) simp_all

lemma sorted_ends:
  assumes "sorted (map f us)" "us \<noteq> []"
  shows "f (hd us) = Min (f ` set us)" "f (last us) = Max (f ` set us)"
proof -
  have "f (hd us) \<le> f t" if "t \<in> set us" for t using assms that by (cases us) auto
  then show "f (hd us) = Min (f ` set us)" using assms(2) by (intro Min_eqI [symmetric]) auto
  have "f t \<le> f (last us)" if "t \<in> set us" for t
    using assms that by (cases us rule: rev_cases) (auto simp: sorted_append)
  then show "f (last us) = Max (f ` set us)" using assms(2) by (intro Max_eqI [symmetric]) auto
qed

lemma extreme_of_parts:
  fixes f :: "'a \<Rightarrow> 'b::linorder"
  assumes "finite A" "A \<noteq> {}"
  shows "Max ((\<lambda>m. Max (f ` {t \<in> A. g t = m})) ` g ` A) = Max (f ` A)"
    and "Min ((\<lambda>m. Min (f ` {t \<in> A. g t = m})) ` g ` A) = Min (f ` A)"
proof -
  have part: "finite (f ` {t \<in> A. g t = m})" for m using assms(1) by simp
  show "Max ((\<lambda>m. Max (f ` {t \<in> A. g t = m})) ` g ` A) = Max (f ` A)"
  proof (rule antisym)
    show "Max ((\<lambda>m. Max (f ` {t \<in> A. g t = m})) ` g ` A) \<le> Max (f ` A)"
      using assms by (auto intro!: Max.boundedI Max_mono)
    have "f t \<le> Max ((\<lambda>m. Max (f ` {t \<in> A. g t = m})) ` g ` A)" if "t \<in> A" for t
      using that assms(1) by (intro order_trans [OF Max_ge [OF part] Max_ge]) auto
    then show "Max (f ` A) \<le> Max ((\<lambda>m. Max (f ` {t \<in> A. g t = m})) ` g ` A)"
      using assms by (auto intro!: Max.boundedI)
  qed
  show "Min ((\<lambda>m. Min (f ` {t \<in> A. g t = m})) ` g ` A) = Min (f ` A)"
  proof (rule antisym)
    show "Min (f ` A) \<le> Min ((\<lambda>m. Min (f ` {t \<in> A. g t = m})) ` g ` A)"
      using assms by (auto intro!: Min.boundedI Min_antimono)
    have "Min ((\<lambda>m. Min (f ` {t \<in> A. g t = m})) ` g ` A) \<le> f t" if "t \<in> A" for t
      using that assms(1) by (intro order_trans [OF Min_le Min_le [OF part]]) auto
    then show "Min ((\<lambda>m. Min (f ` {t \<in> A. g t = m})) ` g ` A) \<le> Min (f ` A)"
      using assms by (auto intro!: Min.boundedI)
  qed
qed

lemma candle_of_minutes:
  assumes us: "us \<noteq> []" "sorted (map tp_ts_ns us)"
    and ms: "sorted ms" "set ms = minute ` set us"
  defines "at m \<equiv> ohlc_of (filter (\<lambda>t. minute t = m) us)"
  shows "fst (at (hd ms)) = fst (ohlc_of us)" "snd (snd (snd (at (last ms)))) = snd (snd (snd (ohlc_of us)))"
    "Max ((\<lambda>m. fst (snd (at m))) ` set ms) = fst (snd (ohlc_of us))"
    "Min ((\<lambda>m. fst (snd (snd (at m)))) ` set ms) = fst (snd (snd (ohlc_of us)))"
proof -
  have ne: "filter (\<lambda>t. minute t = m) us \<noteq> []" if "m \<in> set ms" for m
    using that ms(2) by (auto simp: filter_empty_conv)
  have srt: "sorted (map minute us)"
    using us(2) minute_mono by (auto simp: sorted_map elim!: sorted_wrt_mono_rel [rotated])
  have msne: "ms \<noteq> []" using us(1) ms(2) by auto
  have h: "hd ms = minute (hd us)" "last ms = minute (last us)"
    using sorted_ends [OF srt us(1)] sorted_ends [of id ms] ms msne by simp_all
  have "filter (\<lambda>t. minute t = minute (hd us)) us \<noteq> []" "filter (\<lambda>t. minute t = minute (last us)) us \<noteq> []"
    using ne [of "hd ms"] ne [of "last ms"] msne h hd_in_set [OF msne] last_in_set [OF msne] by auto
  then show "fst (at (hd ms)) = fst (ohlc_of us)" "snd (snd (snd (at (last ms)))) = snd (snd (snd (ohlc_of us)))"
    using us(1)
    by (simp_all add: at_def ohlc_of_def h hd_filter [of us "\<lambda>t. minute t = minute (hd us)"]
        last_filter [of us "\<lambda>t. minute t = minute (last us)"])
  have "(\<lambda>m. fst (snd (at m))) ` set ms = (\<lambda>m. Max (tp_price ` {t \<in> set us. minute t = m})) ` minute ` set us"
    "(\<lambda>m. fst (snd (snd (at m)))) ` set ms = (\<lambda>m. Min (tp_price ` {t \<in> set us. minute t = m})) ` minute ` set us"
    unfolding ms(2) [symmetric] using ne by (auto simp: at_def ohlc_of_def intro!: image_cong)
  then show "Max ((\<lambda>m. fst (snd (at m))) ` set ms) = fst (snd (ohlc_of us))"
    "Min ((\<lambda>m. fst (snd (snd (at m)))) ` set ms) = fst (snd (snd (ohlc_of us)))"
    using extreme_of_parts [of "set us" tp_price minute] us(1) by (simp_all add: ohlc_of_def)
qed

text \<open>The rows that tell the minutes of some trades.\<close>

definition group_of :: "symbol_spec \<Rightarrow> string \<Rightarrow> trade_print list \<Rightarrow> cluster_row list \<Rightarrow> bool" where
  "group_of spec region us g \<longleftrightarrow> distinct g \<and> (\<forall>r. r \<in> set g \<longleftrightarrow> (\<exists>m p acc.
     r = window_row spec region m (ohlc_of (filter (\<lambda>t. minute t = m) us)) p acc \<and>
     book (sp_tick_size spec) (filter (\<lambda>t. minute t = m) us) p = Some acc))"

lemma book_Some: "book step us p = Some acc \<longleftrightarrow> (\<exists>t \<in> set us. align step (tp_price t) = p) \<and> acc = totals (in_bucket step p us)"
  by (auto simp: book_def in_bucket_def filter_empty_conv)

lemma group_rows:
  assumes "group_of spec region us g"
  shows "t \<in> set us \<Longrightarrow> window_row spec region (minute t) (ohlc_of (filter (\<lambda>u. minute u = minute t) us))
      (align (sp_tick_size spec) (tp_price t))
      (totals (in_bucket (sp_tick_size spec) (align (sp_tick_size spec) (tp_price t)) (filter (\<lambda>u. minute u = minute t) us)))
      \<in> set g"
    and "r \<in> set g \<Longrightarrow> \<exists>t \<in> set us. cr_window_start r = minute t \<and> cr_price r = align (sp_tick_size spec) (tp_price t)"
    and "r \<in> set g \<Longrightarrow> r = window_row spec region (cr_window_start r)
      (ohlc_of (filter (\<lambda>t. minute t = cr_window_start r) us)) (cr_price r)
      (totals (in_bucket (sp_tick_size spec) (cr_price r) (filter (\<lambda>t. minute t = cr_window_start r) us)))"
proof -
  have g: "r \<in> set g \<longleftrightarrow> (\<exists>m p acc.
     r = window_row spec region m (ohlc_of (filter (\<lambda>t. minute t = m) us)) p acc \<and>
     book (sp_tick_size spec) (filter (\<lambda>t. minute t = m) us) p = Some acc)" for r
    using assms unfolding group_of_def by blast
  show "t \<in> set us \<Longrightarrow> window_row spec region (minute t) (ohlc_of (filter (\<lambda>u. minute u = minute t) us))
      (align (sp_tick_size spec) (tp_price t))
      (totals (in_bucket (sp_tick_size spec) (align (sp_tick_size spec) (tp_price t)) (filter (\<lambda>u. minute u = minute t) us)))
      \<in> set g"
    unfolding g book_Some by (intro exI conjI refl) auto
  show "r \<in> set g \<Longrightarrow> \<exists>t \<in> set us. cr_window_start r = minute t \<and> cr_price r = align (sp_tick_size spec) (tp_price t)"
    unfolding g book_Some by auto
  show "r \<in> set g \<Longrightarrow> r = window_row spec region (cr_window_start r)
      (ohlc_of (filter (\<lambda>t. minute t = cr_window_start r) us)) (cr_price r)
      (totals (in_bucket (sp_tick_size spec) (cr_price r) (filter (\<lambda>t. minute t = cr_window_start r) us)))"
    unfolding g book_Some by auto
qed

lemma group_has:
  assumes "group_of spec region us g" "t \<in> set us"
  shows "\<exists>r \<in> set g. cr_window_start r = minute t \<and> cr_price r = align (sp_tick_size spec) (tp_price t)"
  by (rule bexI [OF _ group_rows(1) [OF assms]]) simp

lemma group_windows: "group_of spec region us g \<Longrightarrow> cr_window_start ` set g = minute ` set us"
  by (auto dest: group_rows(2)) (metis group_has imageI)

lemma group_sub:
  assumes g: "group_of spec region us g" and us: "list_all trade_ok us" and m: "m \<in> minute ` set us"
  defines "o4 \<equiv> ohlc_of (filter (\<lambda>t. minute t = m) us)"
  shows "sub_of g m = \<lparr>sub_ws = m, sub_open = fst o4, sub_close = snd (snd (snd o4)),
      sub_high = fst (snd o4), sub_low = fst (snd (snd o4))\<rparr>"
    and "0 < fst o4" "0 < fst (snd o4)" "0 < fst (snd (snd o4))" "0 < snd (snd (snd o4))"
proof -
  let ?us = "filter (\<lambda>t. minute t = m) us" and ?w = "filter (\<lambda>r. cr_window_start r = m) g"
  have ok: "?us \<noteq> []" "list_all trade_ok ?us" using us m by (auto simp: filter_empty_conv list_all_iff)
  show "0 < fst o4" "0 < fst (snd o4)" "0 < fst (snd (snd o4))" "0 < snd (snd (snd o4))"
    unfolding o4_def by (rule ohlc_pos [OF ok])+
  have "m \<in> cr_window_start ` set g" using m group_windows [OF g] by simp
  then have "?w \<noteq> []" by (auto simp: filter_empty_conv)
  moreover have "\<forall>r \<in> set ?w. \<exists>p acc. r = window_row spec region m (ohlc_of ?us) p acc"
    using group_rows(3) [OF g] by auto
  ultimately show "sub_of g m = \<lparr>sub_ws = m, sub_open = fst o4, sub_close = snd (snd (snd o4)),
      sub_high = fst (snd o4), sub_low = fst (snd (snd o4))\<rparr>"
    using window_aggregates [of ?w spec region m ?us] ok by (simp add: sub_of_def Let_def o4_def)
qed

lemma group_candle:
  assumes g: "group_of spec region us g" and us: "us \<noteq> []" "sorted (map tp_ts_ns us)" "list_all trade_ok us"
  shows "first_pos sub_open (subs_of g) = fst (ohlc_of us)"
    "last_pos sub_close (subs_of g) = snd (snd (snd (ohlc_of us)))"
    "max_pos sub_high (subs_of g) = fst (snd (ohlc_of us))"
    "min_pos sub_low (subs_of g) = fst (snd (snd (ohlc_of us)))"
proof -
  define ms where "ms = sort (remdups (map cr_window_start g))"
  have ms: "sorted ms" "set ms = minute ` set us" "ms \<noteq> []"
    using group_windows [OF g] us(1) by (simp_all add: ms_def) (metis image_is_empty list.set(1) set_empty sort_key_simps(1) set_remdups set_sort list.set_map)
  have subs: "subs_of g = map (sub_of g) ms" by (simp add: subs_of_def ms_def)
  note sub = group_sub [OF g us(3)]
  have pos: "\<forall>s \<in> set (map (sub_of g) ms). 0 < sub_open s \<and> 0 < sub_close s \<and> 0 < sub_high s \<and> 0 < sub_low s"
    using sub ms(2) by auto
  have ne: "map (sub_of g) ms \<noteq> []" using ms(3) by simp
  have ends: "hd ms \<in> minute ` set us" "last ms \<in> minute ` set us" using ms(2,3) by auto
  note c = candle_of_minutes [OF us(1,2) ms(1,2)]
  show "first_pos sub_open (subs_of g) = fst (ohlc_of us)"
    unfolding subs using aggregates_pos(4) [OF ne, of sub_open] pos ms(3) c(1) sub(1) [OF ends(1)]
    by (simp add: hd_map)
  show "last_pos sub_close (subs_of g) = snd (snd (snd (ohlc_of us)))"
    unfolding subs using aggregates_pos(3) [OF ne, of sub_close] pos ms(3) c(2) sub(1) [OF ends(2)]
    by (simp add: last_map)
  have "sub_high ` set (map (sub_of g) ms) = (\<lambda>m. fst (snd (ohlc_of (filter (\<lambda>t. minute t = m) us)))) ` set ms"
    using sub(1) ms(2) by (auto simp: image_image intro!: image_cong)
  then show "max_pos sub_high (subs_of g) = fst (snd (ohlc_of us))"
    unfolding subs using aggregates_pos(1) [OF ne, of sub_high] pos c(3) by simp
  have "sub_low ` set (map (sub_of g) ms) = (\<lambda>m. fst (snd (snd (ohlc_of (filter (\<lambda>t. minute t = m) us))))) ` set ms"
    using sub(1) ms(2) by (auto simp: image_image intro!: image_cong)
  then show "min_pos sub_low (subs_of g) = fst (snd (snd (ohlc_of us)))"
    unfolding subs using aggregates_pos(2) [OF ne, of sub_low] pos c(4) by simp
qed

lemma in_bucket_minute:
  "side_total g (in_bucket step p (filter (\<lambda>t. minute t = m) us)) =
     sum_list (map tp_qty (filter (\<lambda>t. (tp_aggressor t = g \<and> align step (tp_price t) = p) \<and> minute t = m) us))"
  "length (in_bucket step p (filter (\<lambda>t. minute t = m) us)) =
     sum_list (map (\<lambda>_. 1) (filter (\<lambda>t. align step (tp_price t) = p \<and> minute t = m) us))"
  by (simp_all add: side_total_def in_bucket_def sum_list_triv conj_ac)

lemma sum_list_by_key:
  assumes "distinct b" "inj_on k (set b)" and "\<And>r. r \<in> set b \<Longrightarrow> f r = F (k r)"
  shows "sum_list (map f b) = sum F (k ` set b)"
  using assms by (simp add: sum_list_distinct_conv_sum_set sum.reindex)

text \<open>The rows of one price, over the minutes that traded at it.\<close>

definition minutes_at :: "i64 \<Rightarrow> i64 \<Rightarrow> trade_print list \<Rightarrow> int set" where
  "minutes_at step p us = minute ` {t \<in> set us. align step (tp_price t) = p}"

lemma group_price:
  fixes p :: i64
  assumes g: "group_of spec region us g"
  defines "b \<equiv> filter (\<lambda>r. cr_price r = p) g"
  shows "inj_on cr_window_start (set b)" "cr_window_start ` set b = minutes_at (sp_tick_size spec) p us"
    "r \<in> set b \<Longrightarrow> r = window_row spec region (cr_window_start r) (ohlc_of (filter (\<lambda>t. minute t = cr_window_start r) us)) p
      (totals (in_bucket (sp_tick_size spec) p (filter (\<lambda>t. minute t = cr_window_start r) us)))"
proof -
  show row: "r = window_row spec region (cr_window_start r) (ohlc_of (filter (\<lambda>t. minute t = cr_window_start r) us)) p
      (totals (in_bucket (sp_tick_size spec) p (filter (\<lambda>t. minute t = cr_window_start r) us)))" if "r \<in> set b" for r
    using that group_rows(3) [OF g, of r] by (simp add: b_def)
  show "inj_on cr_window_start (set b)" by (rule inj_onI) (metis row)
  show "cr_window_start ` set b = minutes_at (sp_tick_size spec) p us"
  proof (intro equalityI subsetI)
    fix m assume "m \<in> minutes_at (sp_tick_size spec) p us"
    then obtain t where t: "t \<in> set us" "align (sp_tick_size spec) (tp_price t) = p" "m = minute t"
      by (auto simp: minutes_at_def)
    then show "m \<in> cr_window_start ` set b"
      using imageI [OF group_rows(1) [OF g t(1)], of cr_window_start] group_rows(1) [OF g t(1)]
      by (auto simp: b_def image_iff intro!: bexI [OF _ group_rows(1) [OF g t(1)]])
  qed (auto simp: b_def minutes_at_def dest!: group_rows(2) [OF g])
qed

lemma minutes_sum:
  "(\<Sum>m \<in> minutes_at step p us. side_total s (in_bucket step p (filter (\<lambda>t. minute t = m) us))) = side_total s (in_bucket step p us)"
  "(\<Sum>m \<in> minutes_at step p us. length (in_bucket step p (filter (\<lambda>t. minute t = m) us))) = length (in_bucket step p us)"
proof -
  have fin: "finite (minutes_at step p us)" by (simp add: minutes_at_def)
  have all: "filter (\<lambda>t. P t \<and> minute t \<in> minutes_at step p us) us = filter P us"
    if "\<And>t. P t \<Longrightarrow> align step (tp_price t) = p" for P
    using that by (auto simp: minutes_at_def intro: filter_cong)
  show "(\<Sum>m \<in> minutes_at step p us. side_total s (in_bucket step p (filter (\<lambda>t. minute t = m) us))) = side_total s (in_bucket step p us)"
    unfolding in_bucket_minute sum_split [OF fin] by (subst all) (simp_all add: side_total_def in_bucket_def conj_commute)
  show "(\<Sum>m \<in> minutes_at step p us. length (in_bucket step p (filter (\<lambda>t. minute t = m) us))) = length (in_bucket step p us)"
    unfolding in_bucket_minute sum_split [OF fin] by (subst all) (simp_all add: in_bucket_def sum_list_triv)
qed

text \<open>Sums that fit: nothing is clamped in a minute and nothing wraps in a window.\<close>

lemma bucket_fits:
  assumes "list_all trade_ok us" "fits us"
  shows "in_i64 (side_total s (in_bucket step p us))" "length (in_bucket step p us) \<le> u32_max"
    "totals (in_bucket step p (filter P us)) = \<lparr>ca_bid_qty = side_total Bid (in_bucket step p (filter P us)),
       ca_ask_qty = side_total Ask (in_bucket step p (filter P us)), ca_trades = length (in_bucket step p (filter P us))\<rparr>"
proof -
  have q: "\<forall>t \<in> set us. 0 \<le> tp_qty t" using assms(1) by (auto simp: list_all_iff trade_ok_def)
  have "0 \<le> side_total s (in_bucket step p us)" by (intro side_total_nonneg) (simp add: q in_bucket_def)
  moreover have "side_total s (in_bucket step p us) < 2 ^ 63"
    using side_total_filter [OF q, of s "\<lambda>t. align step (tp_price t) = p"] assms(2)
    by (cases s) (auto simp: fits_def in_bucket_def)
  ultimately show "in_i64 (side_total s (in_bucket step p us))"
    unfolding in_i64_def by (intro conjI) linarith+
  show "length (in_bucket step p us) \<le> u32_max"
    using assms(2) length_filter_le [of "\<lambda>t. align step (tp_price t) = p" us] by (simp only: fits_def in_bucket_def) linarith
  show "totals (in_bucket step p (filter P us)) = \<lparr>ca_bid_qty = side_total Bid (in_bucket step p (filter P us)),
       ca_ask_qty = side_total Ask (in_bucket step p (filter P us)), ca_trades = length (in_bucket step p (filter P us))\<rparr>"
    using totals_fit [OF assms(2,1), of "\<lambda>t. P t \<and> align step (tp_price t) = p"] by (simp add: in_bucket_def)
qed

lemma group_bucket:
  assumes g: "group_of spec region us g" and us: "list_all trade_ok us" "fits us"
    and acc: "book (sp_tick_size spec) us p = Some acc"
  defines "b \<equiv> filter (\<lambda>r. cr_price r = p) g"
  shows "wrap_i64 (sum_list (map cr_bid_qty b)) = ca_bid_qty acc"
    "wrap_i64 (sum_list (map cr_ask_qty b)) = ca_ask_qty acc"
    "wrap_u64 (sum_list (map cr_trades b)) = ca_trades acc"
    "max_pos cr_price_scale b = sp_price_scale spec" "max_pos cr_qty_scale b = sp_qty_scale spec"
proof -
  let ?step = "sp_tick_size spec" and ?M = "minutes_at (sp_tick_size spec) p us"
  note price = group_price [OF g, where p = p, folded b_def]
  have whole: "acc = \<lparr>ca_bid_qty = side_total Bid (in_bucket ?step p us),
      ca_ask_qty = side_total Ask (in_bucket ?step p us), ca_trades = length (in_bucket ?step p us)\<rparr>"
    using acc bucket_fits(3) [OF us, of ?step p "\<lambda>_. True"] by (simp add: book_Some)
  have "distinct b" using g by (simp add: b_def group_of_def)
  note sums = sum_list_by_key [OF this price(1), unfolded price(2)]
  have fields: "cr_bid_qty r = side_total Bid (in_bucket ?step p (filter (\<lambda>t. minute t = cr_window_start r) us))"
      "cr_ask_qty r = side_total Ask (in_bucket ?step p (filter (\<lambda>t. minute t = cr_window_start r) us))"
      "cr_trades r = length (in_bucket ?step p (filter (\<lambda>t. minute t = cr_window_start r) us))" if "r \<in> set b" for r
    by (subst price(3) [OF that], simp only: window_row_fields bucket_fits(3) [OF us] cluster_accum.simps)+
  show "wrap_i64 (sum_list (map cr_bid_qty b)) = ca_bid_qty acc" "wrap_i64 (sum_list (map cr_ask_qty b)) = ca_ask_qty acc"
    by (simp_all add: sums [where f = cr_bid_qty, OF fields(1)] sums [where f = cr_ask_qty, OF fields(2)]
        minutes_sum(1) whole bucket_fits(1) [OF us])
  show "wrap_u64 (sum_list (map cr_trades b)) = ca_trades acc"
    using bucket_fits(2) [OF us, of ?step p]
    by (simp add: sums [where f = cr_trades, OF fields(3)] minutes_sum(2) whole wrap_u64_def u32_max_def)
  have "?M \<noteq> {}" using acc by (auto simp: minutes_at_def book_Some)
  then have "b \<noteq> []" using price(2) by auto
  then show "max_pos cr_price_scale b = sp_price_scale spec" "max_pos cr_qty_scale b = sp_qty_scale spec"
    using price(3) by (auto intro!: aggregates_same(1)) (metis window_row_fields(6), metis window_row_fields(7))
qed

section \<open>The roll-up\<close>

lemma rolled_bound:
  fixes N :: int
  assumes "0 < N" "N dvd a"
  shows "a \<le> m \<longleftrightarrow> a \<le> m div N * N" "m < a \<longleftrightarrow> m div N * N < a"
proof -
  obtain c where c: "a = N * c" using assms(2) by blast
  have "c \<le> m div N" if "N * c \<le> m" using zdiv_mono1 [OF that assms(1)] assms(1) by simp
  moreover have "N * c \<le> m" if "c \<le> m div N"
    using mult_left_mono [OF that, of N] assms(1) mult_div_mod_eq [of N m] pos_mod_sign [OF assms(1), of m] by linarith
  ultimately have "a \<le> m \<longleftrightarrow> c \<le> m div N" using c by blast
  also have "\<dots> \<longleftrightarrow> a \<le> m div N * N" using assms(1) by (simp add: c mult.commute)
  finally show "a \<le> m \<longleftrightarrow> a \<le> m div N * N" .
  then show "m < a \<longleftrightarrow> m div N * N < a" by linarith
qed

text \<open>The rows of a table of minutes that a range selects, and the trades of a rolled-up window.\<close>

definition minute_rows :: "symbol_spec \<Rightarrow> string \<Rightarrow> range_params \<Rightarrow> trade_print list \<Rightarrow> cluster_row list \<Rightarrow> bool" where
  "minute_rows spec region q ts sel \<longleftrightarrow> distinct sel \<and> (\<forall>r. r \<in> set sel \<longleftrightarrow> (\<exists>m p acc.
     r = window_row spec region m (ohlc_of (filter (\<lambda>t. minute t = m) ts)) p acc \<and>
     book (sp_tick_size spec) (filter (\<lambda>t. minute t = m) ts) p = Some acc \<and> rp_from_ms q \<le> m \<and> m < rp_to_ms q))"

abbreviation trades_of :: "nat \<Rightarrow> int \<Rightarrow> trade_print list \<Rightarrow> trade_print list" where
  "trades_of n w ts \<equiv> filter (\<lambda>t. rolled n t = w) ts"

definition whole_windows :: "nat \<Rightarrow> range_params \<Rightarrow> bool" where
  "whole_windows n q \<longleftrightarrow> 60 dvd n \<and> 0 < n \<and> int n * 1000 dvd rp_from_ms q \<and> int n * 1000 dvd rp_to_ms q"

definition covered :: "range_params \<Rightarrow> int \<Rightarrow> bool" where
  "covered q w \<longleftrightarrow> rp_from_ms q \<le> w * 1000 \<and> w * 1000 < rp_to_ms q"

lemma whole_windows_covered:
  assumes "whole_windows n q"
  shows "rp_from_ms q \<le> m \<and> m < rp_to_ms q \<longleftrightarrow> covered q (start_of_interval n m)"
proof -
  have "0 < int n * 1000" "int n * 1000 dvd rp_from_ms q" "int n * 1000 dvd rp_to_ms q"
    using assms by (simp_all add: whole_windows_def)
  then show ?thesis
    using rolled_bound [of "int n * 1000" "rp_from_ms q" m] rolled_bound [of "int n * 1000" "rp_to_ms q" m]
    by (simp add: covered_def start_of_interval_def mult.assoc)
qed

lemma rolled_group:
  assumes "minute_rows spec region q ts sel" "whole_windows n q" "covered q w"
  shows "group_of spec region (trades_of n w ts) (filter (\<lambda>r. start_of_interval n (cr_window_start r) = w) sel)"
  unfolding group_of_def
proof (intro conjI allI)
  fix r
  let ?of = "\<lambda>m. filter (\<lambda>t. minute t = m) ts" and ?us = "\<lambda>m. filter (\<lambda>t. minute t = m) (trades_of n w ts)"
  have n: "60 dvd n" "0 < n" using assms(2) by (simp_all add: whole_windows_def)
  have minutes: "?us m = ?of m" if "start_of_interval n m = w" for m
    using that rolled_minute [OF n] by (auto intro!: filter_cong)
  have other: "?us m = []" if "start_of_interval n m \<noteq> w" for m
    using that rolled_minute [OF n] by (auto simp: filter_empty_conv)
  have "r \<in> set (filter (\<lambda>r. start_of_interval n (cr_window_start r) = w) sel) \<longleftrightarrow>
      (\<exists>m p acc. r = window_row spec region m (ohlc_of (?of m)) p acc \<and>
        book (sp_tick_size spec) (?of m) p = Some acc \<and> start_of_interval n m = w)"
    unfolding set_filter mem_Collect_eq assms(1) [unfolded minute_rows_def, THEN conjunct2, rule_format]
      whole_windows_covered [OF assms(2)] using assms(3)
    by (intro iffI) (clarsimp, blast)+
  also have "\<dots> \<longleftrightarrow> (\<exists>m p acc. r = window_row spec region m (ohlc_of (?us m)) p acc \<and>
        book (sp_tick_size spec) (?us m) p = Some acc)"
    using minutes other by (metis book_Nil option.distinct(1))
  finally show "r \<in> set (filter (\<lambda>r. start_of_interval n (cr_window_start r) = w) sel) \<longleftrightarrow>
      (\<exists>m p acc. r = window_row spec region m (ohlc_of (?us m)) p acc \<and> book (sp_tick_size spec) (?us m) p = Some acc)" .
qed (use assms(1) in \<open>simp add: minute_rows_def\<close>)

lemma rolled_row:
  assumes "minute_rows spec region q ts sel" "whole_windows n q" "covered q w"
    and "sorted (map tp_ts_ns ts)" "list_all trade_ok ts" "fits (trades_of n w ts)"
    and "book (sp_tick_size spec) (trades_of n w ts) p = Some acc"
  shows "rollup_row n sel (w, p) = window_range_row spec (w * 1000) (ohlc_of (trades_of n w ts)) p acc"
proof -
  have "trades_of n w ts \<noteq> []" "sorted (map tp_ts_ns (trades_of n w ts))" "list_all trade_ok (trades_of n w ts)"
    using assms(4,5,7) by (auto simp: sorted_filter list_all_iff)
  then show ?thesis
    using group_bucket [OF rolled_group [OF assms(1-3)] _ assms(6,7)] group_candle [OF rolled_group [OF assms(1-3)]]
    by (simp add: rollup_row_def Let_def window_range_row_def case_prod_beta del: filter_filter)
qed

lemma rolled_groups:
  assumes "minute_rows spec region q ts sel" "whole_windows n q"
  shows "(w, p) \<in> (\<lambda>r. (start_of_interval n (cr_window_start r), cr_price r)) ` set sel \<longleftrightarrow>
    covered q w \<and> (\<exists>acc. book (sp_tick_size spec) (trades_of n w ts) p = Some acc)"
proof
  assume "(w, p) \<in> (\<lambda>r. (start_of_interval n (cr_window_start r), cr_price r)) ` set sel"
  then obtain r where r: "r \<in> set sel" "start_of_interval n (cr_window_start r) = w" "cr_price r = p" by auto
  then have "rp_from_ms q \<le> cr_window_start r \<and> cr_window_start r < rp_to_ms q"
    using assms(1) [unfolded minute_rows_def, THEN conjunct2, rule_format, of r] by auto
  then have w: "covered q w" using whole_windows_covered [OF assms(2)] r(2) by simp
  have "r \<in> set (filter (\<lambda>r. start_of_interval n (cr_window_start r) = w) sel)" using r by simp
  then show "covered q w \<and> (\<exists>acc. book (sp_tick_size spec) (trades_of n w ts) p = Some acc)"
    using group_rows(2) [OF rolled_group [OF assms w]] r(3) w by (fastforce simp: book_Some)
next
  assume a: "covered q w \<and> (\<exists>acc. book (sp_tick_size spec) (trades_of n w ts) p = Some acc)"
  then obtain t where t: "t \<in> set (trades_of n w ts)" "align (sp_tick_size spec) (tp_price t) = p" by (auto simp: book_Some)
  from a have "covered q w" ..
  from group_has [OF rolled_group [OF assms this] t(1)] obtain r where
      "r \<in> set sel" "start_of_interval n (cr_window_start r) = w" "cr_price r = p"
    using t(2) by auto
  then show "(w, p) \<in> (\<lambda>r. (start_of_interval n (cr_window_start r), cr_price r)) ` set sel" by (auto simp: image_iff intro!: bexI [of _ r])
qed

lemma rollup_query_rows:
  assumes sel: "names q spec" "symbol_unique spec rows" "holds_windows q spec region wls1 rows" "windows_ok wls1"
    and ok: "windows_ok wls" and n: "60 dvd n" "0 < n"
    and h1: "\<And>m us p acc. told spec wls1 m us p acc \<longleftrightarrow>
      us = filter (\<lambda>t. minute t = m) ts \<and> book (sp_tick_size spec) us p = Some acc"
    and hn: "\<And>m us p acc. told spec wls m us p acc \<longleftrightarrow> (\<exists>w. m = w * 1000 \<and>
      us = filter (\<lambda>t. rolled n t = w) ts \<and> book (sp_tick_size spec) us p = Some acc)"
    and ts: "sorted (map tp_ts_ns ts)" "list_all trade_ok ts" "\<And>w. fits (filter (\<lambda>t. rolled n t = w) ts)"
    and range: "int n * 1000 dvd rp_from_ms q" "int n * 1000 dvd rp_to_ms q"
  shows "rollup_query n q rows = footprint_rows spec q wls"
proof (rule sorted_wrt_unique [OF lex_less_order])
  let ?sel = "selected_rows q rows" and ?key = "\<lambda>r. (start_of_interval n (cr_window_start r), cr_price r)"
  have whole: "whole_windows n q" using n range by (simp add: whole_windows_def)
  have "distinct ?sel" using final_rows_stored(2) [of rows] by (simp add: selected_rows_def distinct_map)
  moreover have "r \<in> set ?sel \<longleftrightarrow> (\<exists>m p acc. r = window_row spec region m (ohlc_of (filter (\<lambda>t. minute t = m) ts)) p acc \<and>
      book (sp_tick_size spec) (filter (\<lambda>t. minute t = m) ts) p = Some acc \<and> rp_from_ms q \<le> m \<and> m < rp_to_ms q)" for r
    unfolding selected [OF sel] h1 by blast
  ultimately have mr: "minute_rows spec region q ts ?sel" unfolding minute_rows_def by blast
  note row = rolled_row [OF mr whole _ ts(1,2,3)] and groups = rolled_groups [OF mr whole]
  have fp: "x \<in> set (footprint_rows spec q wls) \<longleftrightarrow> (\<exists>w p acc.
      x = window_range_row spec (w * 1000) (ohlc_of (trades_of n w ts)) p acc \<and>
      book (sp_tick_size spec) (trades_of n w ts) p = Some acc \<and> covered q w)" for x
    unfolding set_footprint_rows [OF ok] hn covered_def mem_Collect_eq by blast
  have "x \<in> rollup_row n ?sel ` ?key ` set ?sel \<longleftrightarrow> x \<in> set (footprint_rows spec q wls)" for x
  proof
    assume "x \<in> rollup_row n ?sel ` ?key ` set ?sel"
    then obtain w p acc where x: "x = rollup_row n ?sel (w, p)" "covered q w"
        "book (sp_tick_size spec) (trades_of n w ts) p = Some acc"
      using groups by fastforce
    then show "x \<in> set (footprint_rows spec q wls)" using row [OF x(2,3)] by (subst fp) auto
  next
    assume "x \<in> set (footprint_rows spec q wls)"
    then obtain w p acc where x: "covered q w" "book (sp_tick_size spec) (trades_of n w ts) p = Some acc"
        "x = window_range_row spec (w * 1000) (ohlc_of (trades_of n w ts)) p acc"
      using fp by blast
    then have "(w, p) \<in> ?key ` set ?sel" using groups by blast
    then show "x \<in> rollup_row n ?sel ` ?key ` set ?sel" using row [OF x(1,2)] x(3) by (metis imageI)
  qed
  then show "set (rollup_query n q rows) = set (footprint_rows spec q wls)" by (simp add: rollup_query_def Let_def set_eq_iff)
  show "sorted_wrt (lex_less qr_ts_ms qr_price) (footprint_rows spec q wls)" by (rule sorted_footprint_rows [OF ok])
  have "sorted_wrt (lex_less fst snd) (sort_key fst (sort_key snd (remdups (map ?key ?sel))))"
    by (rule sort_lex_strict) simp
  then show "sorted_wrt (lex_less qr_ts_ms qr_price) (rollup_query n q rows)"
    by (simp add: rollup_query_def Let_def sorted_wrt_map lex_less_def [abs_def] rollup_row_def del: set_remdups)
qed

end
