(* ===== verification/Cluster_History_Theorems.thy ===== *)
theory Cluster_History_Theorems
  imports Cluster_History
begin

text \<open>
  What the history endpoint guarantees: table names identify their interval, a validated request
  cannot change the structure of the query, the columns of a reply fit together and stay within
  the cap, and only finished ranges are marked as immutable.
\<close>

section \<open>Table names\<close>

lemma table_name_canonical: "table_name_for n = ''clusters_'' @
    (if n mod 86400 = 0 then nat_to_string (n div 86400) @ ''d''
     else if n mod 3600 = 0 then nat_to_string (n div 3600) @ ''h''
     else if n mod 60 = 0 then nat_to_string (n div 60) @ ''m''
     else nat_to_string n @ ''s'')"
proof -
  have t: "nat_to_string 30 = ''30''" "nat_to_string (Suc 0) = ''1''" "nat_to_string 5 = ''5''"
    "nat_to_string 15 = ''15''" "nat_to_string 4 = ''4''" by code_simp+
  show ?thesis by (simp add: table_name_for_def Let_def t)
qed

lemma table_name_unit:
  "\<exists>u c k. table_name_for n = ''clusters_'' @ nat_to_string u @ [c] \<and> n = u * k \<and>
     (c, k) \<in> set [(CHR ''d'', 86400), (CHR ''h'', 3600), (CHR ''m'', 60), (CHR ''s'', 1)]"
proof -
  have d: "n mod k = 0 \<Longrightarrow> n = n div k * k" for k using div_mult_mod_eq [of n k] by simp
  consider "n mod 86400 = 0" | "n mod 86400 \<noteq> 0" "n mod 3600 = 0"
    | "n mod 86400 \<noteq> 0" "n mod 3600 \<noteq> 0" "n mod 60 = 0"
    | "n mod 86400 \<noteq> 0" "n mod 3600 \<noteq> 0" "n mod 60 \<noteq> 0" by blast
  then show ?thesis
  proof cases
    case 1
    then show ?thesis using d [OF 1]
      by (intro exI [of _ "n div 86400"] exI [of _ "CHR ''d''"] exI [of _ 86400])
        (simp only: table_name_canonical if_True, simp)
  next
    case 2
    then show ?thesis using d [OF 2(2)]
      by (intro exI [of _ "n div 3600"] exI [of _ "CHR ''h''"] exI [of _ 3600])
        (simp only: table_name_canonical if_True if_False, simp)
  next
    case 3
    then show ?thesis using d [OF 3(3)]
      by (intro exI [of _ "n div 60"] exI [of _ "CHR ''m''"] exI [of _ 60])
        (simp only: table_name_canonical if_True if_False, simp)
  next
    case 4
    then show ?thesis
      by (intro exI [of _ n] exI [of _ "CHR ''s''"] exI [of _ 1])
        (simp only: table_name_canonical if_False, simp)
  qed
qed

lemma nat_to_string_inject: "nat_to_string m = nat_to_string n \<Longrightarrow> m = n"
  by (metis dec_val_nat_to_string of_nat_eq_iff)

lemma table_name_inject: "table_name_for m = table_name_for n \<longleftrightarrow> m = n"
proof
  assume eq: "table_name_for m = table_name_for n"
  obtain u c k where m: "table_name_for m = ''clusters_'' @ nat_to_string u @ [c]" "m = u * k"
      "(c, k) \<in> set [(CHR ''d'', 86400), (CHR ''h'', 3600), (CHR ''m'', 60), (CHR ''s'', 1)]"
    using table_name_unit [of m] by blast
  obtain v d l where n: "table_name_for n = ''clusters_'' @ nat_to_string v @ [d]" "n = v * l"
      "(d, l) \<in> set [(CHR ''d'', 86400), (CHR ''h'', 3600), (CHR ''m'', 60), (CHR ''s'', 1)]"
    using table_name_unit [of n] by blast
  have "nat_to_string u = nat_to_string v" "c = d" using eq unfolding m(1) n(1) by simp_all
  then show "m = n" using m(2,3) n(2,3) nat_to_string_inject [of u v] by auto
qed simp

section \<open>Literals of a query\<close>

text \<open>
  The string literals of an SQL text as ClickHouse reads them: quotes delimit, a doubled quote and
  a character behind a backslash stand for themselves.
\<close>

fun sql_literals :: "string option \<Rightarrow> string \<Rightarrow> string list" where
  "sql_literals cur [] = []"
| "sql_literals None (c # s) = (if c = quo then sql_literals (Some []) s else sql_literals None s)"
| "sql_literals (Some lit) (c # s) =
     (if c = quo then
        (case s of
           d # t \<Rightarrow> if d = quo then sql_literals (Some (lit @ [quo])) t else lit # sql_literals None s
         | [] \<Rightarrow> [lit])
      else if c = CHR 0x5C then (case s of d # t \<Rightarrow> sql_literals (Some (lit @ [d])) t | [] \<Rightarrow> [])
      else sql_literals (Some (lit @ [c])) s)"

definition plain :: "string \<Rightarrow> bool" where
  "plain s \<longleftrightarrow> list_all (\<lambda>c. c \<noteq> quo \<and> c \<noteq> CHR 0x5C) s"

lemma plain_append [simp]: "plain (a @ b) \<longleftrightarrow> plain a \<and> plain b"
  by (simp add: plain_def)

lemma plain_Nil [simp]: "plain []"
  by (simp add: plain_def)

lemma plain_Cons [simp]: "plain (c # s) \<longleftrightarrow> c \<noteq> CHR 0x27 \<and> c \<noteq> CHR 0x5C \<and> plain s"
  by (simp add: plain_def quo_def)

lemma literals_plain [simp]: "plain a \<Longrightarrow> sql_literals None (a @ s) = sql_literals None s"
  by (induction a) (auto simp: plain_def)

lemma literals_open [simp]: "sql_literals None ([quo] @ s) = sql_literals (Some []) s"
  by simp

lemma literals_inside: "plain a \<Longrightarrow> sql_literals (Some lit) (a @ s) = sql_literals (Some (lit @ a)) s"
  by (induction a arbitrary: lit) (auto simp: plain_def)

lemma literals_closed [simp]:
  "plain a \<Longrightarrow> b \<noteq> [] \<Longrightarrow> plain b \<Longrightarrow>
   sql_literals (Some []) (a @ [quo] @ b @ s) = a # sql_literals None s"
proof -
  assume a: "plain a" "b \<noteq> []" "plain b"
  then obtain d t where d: "b = d # t" "d \<noteq> quo" by (cases b) (auto simp: plain_def)
  have "sql_literals (Some []) (a @ [quo] @ b @ s) = a # sql_literals None (b @ s)"
    using a(1) d by (simp add: literals_inside)
  then show ?thesis using literals_plain [OF a(3), of s] by simp
qed

lemma literals_end [simp]: "plain b \<Longrightarrow> sql_literals None b = []"
  using literals_plain [of b "[]"] by simp

text \<open>A congruence that keeps the simplifier out of the text while it reads it from the left.\<close>

lemma literals_whole: "sql_literals cur s = sql_literals cur s"
  by (rule refl)

lemma escape_plain: "plain s \<Longrightarrow> sql_escape s = s"
  by (induction s) (simp_all add: sql_escape_def replace_char_def plain_def)

lemma plain_number [simp]: "plain (nat_to_string n)" "plain (int_to_string i)"
proof -
  have d: "is_ascii_digit c \<Longrightarrow> c \<noteq> quo \<and> c \<noteq> CHR 0x5C" for c
    by (auto simp: is_ascii_digit_def chr_code_def quo_def)
  show n: "plain (nat_to_string n)" for n
    using nat_to_string_digits [of n] d by (auto simp: plain_def list_all_iff)
  show "plain (int_to_string i)"
    using n by (simp add: int_to_string_def)
qed

lemma plain_table [simp]: "plain (table_name_for n)"
  by (simp add: table_name_canonical)

lemma valid_plain:
  assumes "validate_params q = Inr ()"
  shows "plain (rp_exchange q)" "plain (rp_market_type q)" "plain (rp_symbol q)"
proof -
  have alnum: "is_ascii_alphanumeric c \<Longrightarrow> c \<noteq> quo \<and> c \<noteq> CHR 0x5C" for c
    by (auto simp: is_ascii_alphanumeric_def is_ascii_digit_def is_ascii_upper_def
        is_ascii_lower_def chr_code_def quo_def)
  have v: "list_all (\<lambda>c. is_ascii_alphanumeric c \<or> c = CHR ''_'' \<or> c = CHR ''-'') (rp_symbol q)"
    "list_all is_ascii_alphanumeric (rp_exchange q)"
    "rp_market_type q = ''spot'' \<or> rp_market_type q = ''perp''"
    using assms by (auto simp: validate_params_def split: if_splits)
  show "plain (rp_exchange q)" using v(2) alnum by (auto simp: plain_def list_all_iff)
  show "plain (rp_symbol q)" using v(1) alnum by (auto simp: plain_def list_all_iff quo_def)
  show "plain (rp_market_type q)" using v(3) by (auto simp: plain_def quo_def)
qed

lemma valid_filter_literals:
  assumes "validate_params q = Inr ()"
  shows "sql_literals None (range_filter q @ s) =
    [rp_exchange q, rp_market_type q, rp_symbol q] @ sql_literals None s"
  unfolding range_filter_def append_assoc
  by (simp add: valid_plain [OF assms] escape_plain del: append_Cons)

text \<open>C18: No request that passes validation can change the structure of the query: whatever its
  fields are, ClickHouse reads back exactly them as the string literals of the query, besides the
  time zone of the roll-up.\<close>

theorem range_query_injection_free:
  assumes "validate_params q = Inr ()" and "plain db"
  shows "sql_literals None (build_range_sql db q) =
    (let filter = [rp_exchange q, rp_market_type q, rp_symbol q] in
     if rp_interval_seconds q \<in> {30, 60} then filter @ filter
     else [''UTC''] @ filter @ [''UTC''] @ filter)"
proof -
  note f = valid_filter_literals [OF assms(1)]
  have "sql_literals None (direct_sql db (table_name_for n) (range_filter q)) =
      [rp_exchange q, rp_market_type q, rp_symbol q] @ [rp_exchange q, rp_market_type q, rp_symbol q]" for n
    unfolding direct_sql_def using assms(2) by (simp add: f del: append_Cons sql_literals.simps cong: literals_whole)
  moreover have "sql_literals None (rollup_sql db (nat_to_string n) (table_name_for 60) (range_filter q)) =
      [''UTC''] @ [rp_exchange q, rp_market_type q, rp_symbol q] @ [''UTC'']
      @ [rp_exchange q, rp_market_type q, rp_symbol q]" for n
    unfolding rollup_sql_def using assms(2) by (simp add: f del: append_Cons sql_literals.simps cong: literals_whole)
  ultimately show ?thesis by (simp add: build_range_sql_def Let_def)
qed

definition sample_range :: range_params where
  "sample_range = \<lparr>rp_exchange = ''BINANCEF'', rp_market_type = ''perp'', rp_symbol = ''BTCUSDT'',
     rp_interval_seconds = 300, rp_from_ms = 0, rp_to_ms = 600000\<rparr>"

lemma sample_range_valid: "validate_params sample_range = Inr ()"
  by (simp add: validate_params_def sample_range_def chr_defs is_supported_interval_def
      supported_intervals_def)

lemma range_query_injection_free_witness:
  "sql_literals None (build_range_sql ''clusters'' sample_range) =
    (let filter = [''BINANCEF'', ''perp'', ''BTCUSDT''] in
     if (300 :: nat) \<in> {30, 60} then filter @ filter else [''UTC''] @ filter @ [''UTC''] @ filter)"
  using range_query_injection_free [OF sample_range_valid, of "''clusters''"] by (simp add: sample_range_def)

section \<open>Columns\<close>

text \<open>The bucket columns have one length, the window columns another, one window per run of equal
  window starts, and the scales fit a byte.\<close>

definition columns_fit :: "range_response \<Rightarrow> bool" where
  "columns_fit r \<longleftrightarrow>
     rr_n r \<le> max_bars \<and> rr_price_scale r \<le> 255 \<and> rr_qty_scale r \<le> 255 \<and>
     length (rr_window_start_ms r) = rr_n r \<and> length (rr_price r) = rr_n r \<and>
     length (rr_bid_qty r) = rr_n r \<and> length (rr_ask_qty r) = rr_n r \<and> length (rr_trades r) = rr_n r \<and>
     length (rr_open r) = rr_windows_n r \<and> length (rr_close r) = rr_windows_n r \<and>
     length (rr_high r) = rr_windows_n r \<and> length (rr_low r) = rr_windows_n r \<and>
     length (rr_windows r) = rr_windows_n r \<and> rr_windows r = remdups_adj (rr_window_start_ms r)"

definition last_start :: "range_response \<Rightarrow> i64 option" where
  "last_start r = (if rr_window_start_ms r = [] then None else Some (last (rr_window_start_ms r)))"

lemma remdups_adj_snoc:
  "remdups_adj (xs @ [t]) = (if xs \<noteq> [] \<and> last xs = t then remdups_adj xs else remdups_adj xs @ [t])"
  by (cases "xs = []") (auto simp: remdups_adj_append'')

lemma take_scales_fit: "columns_fit r \<Longrightarrow> columns_fit (take_scales J arr r)"
  by (auto simp: take_scales_def columns_fit_def Let_def split: option.split)

lemma take_scales_same [simp]:
  "rr_n (take_scales J arr r) = rr_n r" "last_start (take_scales J arr r) = last_start r"
  by (simp_all add: take_scales_def last_start_def Let_def split: option.split)

lemma read_rows_fit:
  assumes "columns_fit r" "lts = last_start r" "rr_n r < max_bars"
  shows "columns_fit (read_rows J lts r lines)"
  using assms
proof (induction lines arbitrary: lts r)
  case (Cons line lines)
  show ?case
  proof (cases "read_row J line")
    case (Some row)
    obtain arr ts price bid ask trades where row: "row = (arr, ts, price, bid, ask, trades)"
      by (cases row) auto
    define r1 where "r1 = take_scales J arr r"
    define r2 where "r2 = (if lts \<noteq> Some ts then open_range_window J arr ts r1 else r1)"
    define r3 where "r3 = r2\<lparr>rr_window_start_ms := rr_window_start_ms r2 @ [ts],
      rr_price := rr_price r2 @ [price], rr_bid_qty := rr_bid_qty r2 @ [bid],
      rr_ask_qty := rr_ask_qty r2 @ [ask], rr_trades := rr_trades r2 @ [trades], rr_n := rr_n r2 + 1\<rparr>"
    have f: "columns_fit r1" "last_start r1 = lts" "rr_n r1 < max_bars"
      using take_scales_fit [OF Cons.prems(1)] Cons.prems(2,3) by (simp_all add: r1_def)
    then have "columns_fit r3" "last_start r3 = Some ts"
      by (auto simp: r3_def r2_def columns_fit_def open_range_window_def Let_def last_start_def
          remdups_adj_snoc split: if_splits)
    moreover have "read_rows J lts r (line # lines) =
        (if rr_n r3 \<ge> max_bars then r3 else read_rows J (Some ts) r3 lines)"
      by (simp add: Some row Let_def r1_def r2_def r3_def)
    ultimately show ?thesis using Cons.IH [of r3 "Some ts"] by (simp add: not_le)
  qed (use Cons in simp)
qed simp

text \<open>C36: An answer of the endpoint is only given to a valid request over at most ten thousand windows;
  whatever ClickHouse sent, its bucket columns have the same length, at most half a million, and
  its window columns have one entry per run of equal window starts, so that a client can join
  buckets and candles by position.\<close>

theorem range_columns_fit:
  assumes "cluster_range J get now st q = RangeOk cache r" and "rp_to_ms q < 2 ^ 63"
  shows "columns_fit r \<and> validate_params q = Inr () \<and>
    (rp_to_ms q - rp_from_ms q) div (int (rp_interval_seconds q) * 1000) \<le> 10000"
proof (intro conjI)
  have v: "validate_params q = Inr ()" "estimate_max_rows q \<le> max_bars"
    and r: "\<exists>lines. r = read_rows J None (range_response_empty q) lines"
    using assms(1) by (auto simp: cluster_range_def Let_def split: sum.splits if_splits)
  show "validate_params q = Inr ()" by (rule v(1))
  have "columns_fit (range_response_empty q)" "last_start (range_response_empty q) = None"
    "rr_n (range_response_empty q) < max_bars"
    by (simp_all add: columns_fit_def range_response_empty_def last_start_def max_bars_def)
  then show "columns_fit r" using r read_rows_fit [of "range_response_empty q" None] by auto
  have p: "0 \<le> rp_from_ms q" "rp_from_ms q < rp_to_ms q" "rp_interval_seconds q \<in> set supported_intervals"
    using v(1) by (auto simp: validate_params_def is_supported_interval_def split: if_splits)
  show "(rp_to_ms q - rp_from_ms q) div (int (rp_interval_seconds q) * 1000) \<le> 10000"
  proof -
    have iv: "0 < rp_interval_seconds q" "rp_interval_seconds q \<le> 86400"
      using p(3) by (auto simp: supported_intervals_def)
    have "wrap_i64 (rp_to_ms q - rp_from_ms q) = rp_to_ms q - rp_from_ms q"
      using p(1,2) assms(2) by (simp add: in_i64_def)
    moreover have "wrap_u64 (rp_interval_seconds q * 1000) = rp_interval_seconds q * 1000"
      using iv by (simp add: wrap_u64_def)
    ultimately have "min u64_max (nat (rp_to_ms q - rp_from_ms q) div (rp_interval_seconds q * 1000) * 50) \<le> 500000"
      using v(2) p(2) iv by (simp add: estimate_max_rows_def Let_def saturating_mul_u64_def max_bars_def max_def)
    then have "nat (rp_to_ms q - rp_from_ms q) div (rp_interval_seconds q * 1000) \<le> 10000"
      by (auto simp: u64_max_def min_def split: if_splits)
    then have "int (nat (rp_to_ms q - rp_from_ms q) div (rp_interval_seconds q * 1000)) \<le> 10000" by linarith
    then show ?thesis using p(2) by (simp add: zdiv_int)
  qed
qed

text \<open>A ClickHouse with one line, a JSON reader for it.\<close>

definition line_api :: "jv json_api" where
  "line_api = jv_api\<lparr>j_parse := (\<lambda>_. Inr (JArr (map JInt [300000, 5, 1, 2, 3, 2, 3])))\<rparr>"

definition one_line_ch :: ch_get where
  "one_line_ch = (\<lambda>_ _. Inr (True, ''200 OK'', Inr ''[300000,5,1,2,3,2,3]''))"

definition sample_history :: history_state where
  "sample_history = \<lparr>hs_ch_url = ''http://ch:8123/'', hs_ch_database = ''clusters'',
     hs_ch_user = ''default'', hs_ch_password = []\<rparr>"

lemma sample_estimate: "estimate_max_rows sample_range = 100"
  by (simp add: estimate_max_rows_def sample_range_def Let_def wrap_u64_def wrap_i64_def
      saturating_mul_u64_def u64_max_def)

lemma sample_cache: "cache_value sample_range 5000000 = ''public, max-age=86400, immutable''"
  by (simp add: cache_value_def sample_range_def Let_def wrap_i64_def)

lemma sample_answer:
  "cluster_range line_api one_line_ch 5000000 sample_history sample_range =
     RangeOk ''public, max-age=86400, immutable''
       (read_rows line_api None (range_response_empty sample_range) (str_lines ''[300000,5,1,2,3,2,3]''))"
  by (simp add: cluster_range_def sample_range_valid sample_estimate max_bars_def Let_def one_line_ch_def
      sample_cache)

lemma range_columns_fit_witness:
  "columns_fit (read_rows line_api None (range_response_empty sample_range)
     (str_lines ''[300000,5,1,2,3,2,3]''))"
  using range_columns_fit [OF sample_answer] by (simp add: sample_range_def)

section \<open>The cache header\<close>

text \<open>Only what can no longer change is marked immutable: as long as the end of the range is below
  $2^{62}$, an answer marked immutable covers windows that all ended at least one window before
  now; otherwise the answer must not be stored.\<close>

lemma range_immutable_is_past:
  assumes "cluster_range J get now st q = RangeOk cache r" and "rp_to_ms q < 2 ^ 62"
  shows "cache = (if rp_to_ms q + 2 * (int (rp_interval_seconds q) * 1000) < now
                  then ''public, max-age=86400, immutable'' else ''no-store'')"
proof -
  have v: "validate_params q = Inr ()" and c: "cache = cache_value q now"
    using assms(1) by (auto simp: cluster_range_def Let_def split: sum.splits if_splits)
  have p: "0 \<le> rp_to_ms q" "rp_interval_seconds q \<le> 86400"
    using v by (auto simp: validate_params_def is_supported_interval_def supported_intervals_def split: if_splits)
  then show ?thesis using assms(2) by (simp add: c cache_value_def Let_def in_i64_def)
qed

text \<open>Without the bound on the end of the range the sum wraps: a range in the far future is cached.\<close>

lemma future_range_marked_immutable:
  "cache_value (sample_range\<lparr>rp_to_ms := 2 ^ 63 - 1\<rparr>) 1700000000000 = ''public, max-age=86400, immutable''"
  by (simp add: cache_value_def sample_range_def Let_def wrap_i64_def)

end
