(* ===== verification/History_Theorems.thy ===== *)
theory History_Theorems
  imports Range_Query_Theorems Cluster_History_Theorems
begin

text \<open>
  From the stored rows of a stream of trades to the reply of the history endpoint: for every
  supported interval, read directly or rolled up from minutes, the reply tells the footprints that a
  live aggregator of the interval publishes.
\<close>

section \<open>The windows of a stream\<close>

lemma align_div: "0 \<le> x \<Longrightarrow> 0 < W \<Longrightarrow> align W x = x div W * W"
  by (simp add: align_def signed_divide_int_def sgn_if)

lemma all_windows_ok:
  assumes "list_all trade_ok ts"
  shows "windows_ok (all_windows (int n * 1000000000) ts)"
proof -
  let ?W = "int n * 1000000000"
  have aligned: "list_all (log_aligned ?W) (all_windows ?W ts)"
    and sorted: "sorted_wrt (<) (map fst (all_windows ?W ts))"
    using windows_sorted [of ?W None ts] by (simp_all add: all_windows_def open_list_def)
  have "snd wl \<noteq> [] \<and> 1000000 dvd fst wl \<and> list_all trade_ok (snd wl)" if "wl \<in> set (all_windows ?W ts)" for wl
  proof -
    have l: "log_aligned ?W wl" using that aligned by (simp only: list_all_iff)
    have e: "?W = int n * 1000 * 1000000" by simp
    have "\<forall>t \<in> set (snd wl). trade_ok t" by (rule window_bounds(1) [OF that assms])
    then show ?thesis using log_aligned_ms [OF l [unfolded e]] l by (auto simp: log_aligned_def list_all_iff)
  qed
  then show ?thesis using sorted by (auto simp: windows_ok_def)
qed

text \<open>A stream in time order: its windows are the groups of its trades.\<close>

definition in_order :: "trade_print list \<Rightarrow> bool" where
  "in_order ts \<longleftrightarrow> sorted (map tp_ts_ns ts) \<and> (\<forall>t \<in> set ts. 0 \<le> tp_ts_ns t)"

lemma in_order_windows:
  assumes "in_order ts" "0 < n"
  shows "(w, us) \<in> set (all_windows (int n * 1000000000) ts) \<longleftrightarrow>
    us \<noteq> [] \<and> us = filter (\<lambda>t. tp_ts_ns t div (int n * 1000000000) * (int n * 1000000000) = w) ts"
proof -
  let ?W = "int n * 1000000000"
  have W: "0 < ?W" using assms(2) by simp
  have al: "align ?W (tp_ts_ns t) = tp_ts_ns t div ?W * ?W" if "t \<in> set ts" for t
    using that assms(1) W by (intro align_div) (simp_all add: in_order_def)
  have "sorted (map (\<lambda>t. align ?W (tp_ts_ns t)) ts)"
    using assms(1) align_mono [OF W] by (auto simp: in_order_def sorted_wrt_map elim!: sorted_wrt_mono_rel [rotated])
  from all_windows_in_order [OF this]
  have "(w, us) \<in> set (all_windows ?W ts) \<longleftrightarrow>
      w \<in> (\<lambda>t. align ?W (tp_ts_ns t)) ` set ts \<and> us = filter (\<lambda>t. align ?W (tp_ts_ns t) = w) ts"
    by auto
  also have "\<dots> \<longleftrightarrow> us \<noteq> [] \<and> us = filter (\<lambda>t. align ?W (tp_ts_ns t) = w) ts"
    by (auto simp: filter_empty_conv image_iff)
  also have "filter (\<lambda>t. align ?W (tp_ts_ns t) = w) ts = filter (\<lambda>t. tp_ts_ns t div ?W * ?W = w) ts"
    by (rule filter_cong) (simp_all add: al)
  finally show ?thesis .
qed

lemma told_minute:
  assumes "in_order ts"
  shows "told spec (all_windows (int 60 * 1000000000) ts) m us p acc \<longleftrightarrow>
    us = filter (\<lambda>t. minute t = m) ts \<and> book (sp_tick_size spec) us p = Some acc"
proof -
  have "tp_ts_ns t div 60000000000 * 60000000000 = m * 1000000 \<longleftrightarrow> minute t = m" for t :: trade_print
    unfolding minute_def by linarith
  then show ?thesis
    using in_order_windows [OF assms, of 60 "m * 1000000" us] by (auto simp: told_def)
qed

lemma told_rolled:
  assumes "in_order ts" "0 < n"
  shows "told spec (all_windows (int n * 1000000000) ts) m us p acc \<longleftrightarrow> (\<exists>w. m = w * 1000 \<and>
    us = filter (\<lambda>t. rolled n t = w) ts \<and> book (sp_tick_size spec) us p = Some acc)"
proof -
  let ?W = "int n * 1000000000"
  have w: "m * 1000000 = tp_ts_ns t div ?W * ?W \<longleftrightarrow> m = rolled n t * 1000" for t
    unfolding rolled_def by linarith
  have eq: "filter (\<lambda>t. tp_ts_ns t div ?W * ?W = v * 1000 * 1000000) ts = filter (\<lambda>t. rolled n t = v) ts" for v
    by (rule filter_cong) (auto simp: rolled_def)
  note win = in_order_windows [OF assms, of "m * 1000000" us]
  show ?thesis
  proof
    assume t: "told spec (all_windows ?W ts) m us p acc"
    then obtain t where "t \<in> set us" "us = filter (\<lambda>t. tp_ts_ns t div ?W * ?W = m * 1000000) ts"
      using win by (cases us) (auto simp: told_def)
    then have "m = rolled n t * 1000" using w [of t] by auto
    then show "\<exists>w. m = w * 1000 \<and> us = filter (\<lambda>t. rolled n t = w) ts \<and> book (sp_tick_size spec) us p = Some acc"
      using t win eq [of "rolled n t"] unfolding told_def by blast
  next
    assume "\<exists>w. m = w * 1000 \<and> us = filter (\<lambda>t. rolled n t = w) ts \<and> book (sp_tick_size spec) us p = Some acc"
    then obtain v where v: "m = v * 1000" "us = filter (\<lambda>t. rolled n t = v) ts" "book (sp_tick_size spec) us p = Some acc"
      by blast
    have "us \<noteq> []" using v(3) by auto
    moreover have "filter (\<lambda>t. tp_ts_ns t div ?W * ?W = m * 1000000) ts = us"
      unfolding v(1) eq by (rule v(2) [symmetric])
    ultimately show "told spec (all_windows ?W ts) m us p acc" using v(3) by (simp add: told_def win)
  qed
qed

section \<open>Theorems\<close>

definition step_of :: "range_params \<Rightarrow> i64" where
  "step_of q = int (rp_interval_seconds q) * 1000"

text \<open>What a roll-up needs: a stream in time order, a range of whole windows, and totals of the windows
  that fit their columns.\<close>

definition rollable :: "range_params \<Rightarrow> trade_print list \<Rightarrow> bool" where
  "rollable q ts \<longleftrightarrow> in_order ts \<and> step_of q dvd rp_from_ms q \<and> step_of q dvd rp_to_ms q \<and>
     (\<forall>wl \<in> set (all_windows (step_of q * 1000000) ts). fits (snd wl))"

lemma query_rows:
  assumes "validate_params q = Inr ()" and "names q spec" and "symbol_unique spec rows" and "list_all trade_ok ts"
    and "\<And>m p. rp_from_ms q \<le> m \<Longrightarrow> m < rp_to_ms q \<Longrightarrow>
      stored rows (key_at spec m p) = footprint_table spec region (base_interval q) ts m p"
    and "base_interval q \<noteq> rp_interval_seconds q \<Longrightarrow> rollable q ts"
  shows "range_query q rows = footprint_rows spec q (all_windows (step_of q * 1000000) ts)"
proof -
  let ?n = "rp_interval_seconds q"
  have step: "step_of q * 1000000 = int ?n * 1000000000" by (simp add: step_of_def)
  have holds: "holds_windows q spec region (all_windows (int (base_interval q) * 1000000000) ts) rows"
    using assms(5) by (auto simp: holds_windows_def footprint_table_def)
  note ok = all_windows_ok [OF assms(4)]
  show ?thesis
  proof (cases "?n = 30 \<or> ?n = 60")
    case True
    then have "base_interval q = ?n" by (auto simp: base_interval_def)
    then show ?thesis
      using True direct_query_rows [OF assms(2,3) holds ok] by (simp only: range_query_def step if_True)
  next
    case False
    have n: "60 dvd ?n" "0 < ?n" and b: "base_interval q = 60"
      using assms(1) False
      by (auto simp: validate_params_def is_supported_interval_def supported_intervals_def base_interval_def
          split: if_splits)
    have r: "rollable q ts" using assms(6) False b by auto
    have fit: "fits (filter (\<lambda>t. rolled ?n t = w) ts)" for w
    proof (cases "filter (\<lambda>t. rolled ?n t = w) ts = []")
      case True
      then show ?thesis by (simp add: fits_def side_total_def)
    next
      case ne: False
      have "tp_ts_ns t div (int ?n * 1000000000) * (int ?n * 1000000000) = w * 1000000000 \<longleftrightarrow> rolled ?n t = w"
        for t :: trade_print by (simp add: rolled_def)
      then have "(w * 1000000000, filter (\<lambda>t. rolled ?n t = w) ts) \<in> set (all_windows (int ?n * 1000000000) ts)"
        using in_order_windows [of ts ?n "w * 1000000000"] r n(2) ne by (simp add: rollable_def)
      then show ?thesis using r step unfolding rollable_def by (metis snd_conv)
    qed
    have o: "in_order ts" using r by (simp add: rollable_def)
    have "rollup_query ?n q rows = footprint_rows spec q (all_windows (int ?n * 1000000000) ts)"
      by (rule rollup_query_rows [OF assms(2,3) holds [unfolded b] ok ok n told_minute [OF o] told_rolled [OF o n(2)]
            _ assms(4) fit])
        (use o r in \<open>simp_all add: in_order_def rollable_def step_of_def\<close>)
    then show ?thesis using False by (simp only: range_query_def step if_False)
  qed
qed

text \<open>
  C15: The two queries of the history endpoint, the one that reads a table and the one that rolls up
  the minutes, give for every supported interval the footprints a live aggregator of that interval
  publishes, in order of time and price: per window and price bucket its totals, with the open, high,
  low and close of the window. The table has to hold the footprints of the windows of the range, as it
  does once they have closed. The roll-up needs trades in time order and a range of whole windows.
\<close>

theorem history_query_is_footprints:
  assumes "validate_params q = Inr ()" and "names q spec" and "symbol_unique spec rows" and "list_all trade_ok ts"
    and "\<And>m p. rp_from_ms q \<le> m \<Longrightarrow> m < rp_to_ms q \<Longrightarrow>
      stored rows (key_at spec m p) = footprint_table spec region (base_interval q) ts m p"
    and "base_interval q \<noteq> rp_interval_seconds q \<Longrightarrow> rollable q ts"
  shows "range_query q rows = footprint_rows spec q (all_windows (step_of q * 1000000) ts)"
  using assms by (rule query_rows)

section \<open>The reply\<close>

text \<open>A line of the answer that prints a row: eleven values in the order of the columns.\<close>

definition prints :: "'j json_api \<Rightarrow> string \<Rightarrow> range_row \<Rightarrow> bool" where
  "prints J line x \<longleftrightarrow> line \<noteq> [] \<and> (\<exists>v arr. j_parse J line = Inr v \<and> j_array J v = Some arr \<and> length arr = 11 \<and>
     json_i64 J (arr ! 0) = Some (qr_ts_ms x) \<and> json_i64 J (arr ! 1) = Some (qr_price x) \<and>
     json_i64 J (arr ! 2) = Some (qr_bid_qty x) \<and> json_i64 J (arr ! 3) = Some (qr_ask_qty x) \<and>
     json_u32 J (arr ! 4) = Some (qr_trades x) \<and> json_u32 J (arr ! 5) = Some (qr_ps x) \<and>
     json_u32 J (arr ! 6) = Some (qr_qs x) \<and> json_i64 J (arr ! 7) = Some (qr_open x) \<and>
     json_i64 J (arr ! 8) = Some (qr_close x) \<and> json_i64 J (arr ! 9) = Some (qr_high x) \<and>
     json_i64 J (arr ! 10) = Some (qr_low x))"

text \<open>What the loop of the handler does with the rows the lines print.\<close>

definition add_bar :: "range_row \<Rightarrow> range_response \<Rightarrow> range_response" where
  "add_bar x out = out\<lparr>rr_window_start_ms := rr_window_start_ms out @ [qr_ts_ms x], rr_price := rr_price out @ [qr_price x],
     rr_bid_qty := rr_bid_qty out @ [qr_bid_qty x], rr_ask_qty := rr_ask_qty out @ [qr_ask_qty x],
     rr_trades := rr_trades out @ [qr_trades x], rr_n := rr_n out + 1\<rparr>"

definition add_window :: "range_row \<Rightarrow> range_response \<Rightarrow> range_response" where
  "add_window x out = out\<lparr>rr_windows := rr_windows out @ [qr_ts_ms x], rr_open := rr_open out @ [qr_open x],
     rr_close := rr_close out @ [qr_close x], rr_high := rr_high out @ [qr_high x], rr_low := rr_low out @ [qr_low x],
     rr_windows_n := rr_windows_n out + 1\<rparr>"

definition set_scales :: "range_row \<Rightarrow> range_response \<Rightarrow> range_response" where
  "set_scales x out = (if rr_n out = 0
     then out\<lparr>rr_price_scale := min (qr_ps x) 255, rr_qty_scale := min (qr_qs x) 255\<rparr> else out)"

fun collect_rows :: "i64 option \<Rightarrow> range_response \<Rightarrow> range_row list \<Rightarrow> range_response" where
  "collect_rows lts out [] = out"
| "collect_rows lts out (x # xs) = collect_rows (Some (qr_ts_ms x))
     (add_bar x (if lts \<noteq> Some (qr_ts_ms x) then add_window x (set_scales x out) else set_scales x out)) xs"

lemma rr_n_steps [simp]:
  "rr_n (add_bar x out) = rr_n out + 1" "rr_n (add_window x out) = rr_n out" "rr_n (set_scales x out) = rr_n out"
  by (simp_all add: add_bar_def add_window_def set_scales_def)

lemma read_printed:
  assumes "list_all2 (prints J) lines xs" "rr_n out + length xs \<le> max_bars"
  shows "read_rows J lts out lines = collect_rows lts out xs"
  using assms
proof (induction arbitrary: lts out rule: list_all2_induct)
  case (Cons line lines x xs)
  obtain v arr where p: "line \<noteq> []" "j_parse J line = Inr v" "j_array J v = Some arr" "length arr = 11"
      "json_i64 J (arr ! 0) = Some (qr_ts_ms x)" "json_i64 J (arr ! 1) = Some (qr_price x)"
      "json_i64 J (arr ! 2) = Some (qr_bid_qty x)" "json_i64 J (arr ! 3) = Some (qr_ask_qty x)"
      "json_u32 J (arr ! 4) = Some (qr_trades x)" "json_u32 J (arr ! 5) = Some (qr_ps x)"
      "json_u32 J (arr ! 6) = Some (qr_qs x)" "json_i64 J (arr ! 7) = Some (qr_open x)"
      "json_i64 J (arr ! 8) = Some (qr_close x)" "json_i64 J (arr ! 9) = Some (qr_high x)"
      "json_i64 J (arr ! 10) = Some (qr_low x)"
    using Cons.hyps(1) unfolding prints_def by blast
  have row: "read_row J line = Some (arr, qr_ts_ms x, qr_price x, qr_bid_qty x, qr_ask_qty x, qr_trades x)"
    using p(1-9) by (simp add: read_row_def)
  have scales: "take_scales J arr out = set_scales x out"
    using p(4,10,11) by (simp add: take_scales_def set_scales_def)
  have window: "open_range_window J arr (qr_ts_ms x) out' = add_window x out'" for out'
    using p(4,12-15) by (simp add: open_range_window_def add_window_def)
  let ?out = "add_bar x (if lts \<noteq> Some (qr_ts_ms x) then add_window x (set_scales x out) else set_scales x out)"
  have "read_rows J lts out (line # lines) = (if rr_n ?out \<ge> max_bars then ?out else read_rows J (Some (qr_ts_ms x)) ?out lines)"
    by (simp only: read_rows.simps row scales window Let_def option.case prod.case add_bar_def)
  moreover have n: "rr_n ?out = rr_n out + 1" by simp
  moreover have "xs = [] \<and> lines = []" if "rr_n ?out \<ge> max_bars"
  proof -
    have "length xs = 0" using that n Cons.prems length_Cons [of x xs] by linarith
    then show ?thesis using Cons.hyps(2) by simp
  qed
  moreover have "read_rows J (Some (qr_ts_ms x)) ?out lines = collect_rows (Some (qr_ts_ms x)) ?out xs"
    using Cons.prems by (intro Cons.IH) (simp only: n, simp)
  ultimately show ?case by auto
qed simp

text \<open>The reply that tells some windows, without the loop.\<close>

definition footprint_response :: "symbol_spec \<Rightarrow> range_params \<Rightarrow> window_log list \<Rightarrow> range_response" where
  "footprint_response spec q wls =
     (let xs = concat (map (window_rows spec) wls); candle = (\<lambda>wl. ohlc_of (snd wl)) in
      \<lparr>rr_interval_seconds = rp_interval_seconds q, rr_symbol = rp_symbol q, rr_exchange = rp_exchange q,
       rr_market_type = rp_market_type q,
       rr_price_scale = (if wls = [] then 0 else sp_price_scale spec),
       rr_qty_scale = (if wls = [] then 0 else sp_qty_scale spec),
       rr_n = length xs, rr_window_start_ms = map qr_ts_ms xs, rr_price = map qr_price xs,
       rr_bid_qty = map qr_bid_qty xs, rr_ask_qty = map qr_ask_qty xs, rr_trades = map qr_trades xs,
       rr_windows_n = length wls, rr_windows = map (\<lambda>wl. fst wl div 1000000) wls,
       rr_open = map (\<lambda>wl. fst (candle wl)) wls, rr_close = map (\<lambda>wl. snd (snd (snd (candle wl)))) wls,
       rr_high = map (\<lambda>wl. fst (snd (candle wl))) wls, rr_low = map (\<lambda>wl. fst (snd (snd (candle wl)))) wls\<rparr>)"

lemma collect_append: "collect_rows lts out (xs @ ys) =
    collect_rows (if xs = [] then lts else Some (qr_ts_ms (last xs))) (collect_rows lts out xs) ys"
  by (induction lts out xs rule: collect_rows.induct) auto

lemma collect_same:
  assumes "\<forall>x \<in> set xs. qr_ts_ms x = m" "0 < rr_n out"
  shows "collect_rows (Some m) out xs = out\<lparr>
     rr_window_start_ms := rr_window_start_ms out @ map qr_ts_ms xs, rr_price := rr_price out @ map qr_price xs,
     rr_bid_qty := rr_bid_qty out @ map qr_bid_qty xs, rr_ask_qty := rr_ask_qty out @ map qr_ask_qty xs,
     rr_trades := rr_trades out @ map qr_trades xs, rr_n := rr_n out + length xs\<rparr>"
  using assms by (induction xs arbitrary: out) (simp_all add: add_bar_def set_scales_def)

lemma footprint_response_snoc:
  assumes "snd wl \<noteq> []" "wls = [] \<or> fst (last wls) div 1000000 < fst wl div 1000000"
    and "sp_price_scale spec \<le> 255" "sp_qty_scale spec \<le> 255" and "wls = [] \<or> concat (map (window_rows spec) wls) \<noteq> []"
  shows "collect_rows (if wls = [] then None else Some (fst (last wls) div 1000000)) (footprint_response spec q wls)
      (window_rows spec wl) = footprint_response spec q (wls @ [wl])"
proof -
  have "bucket_prices (sp_tick_size spec) (snd wl) \<noteq> []"
    using assms(1) by (metis set_bucket_prices dom_book image_is_empty set_empty)
  then obtain p ps where ps: "bucket_prices (sp_tick_size spec) (snd wl) = p # ps"
    by (cases "bucket_prices (sp_tick_size spec) (snd wl)") auto
  define x where "x = window_range_row spec (fst wl div 1000000) (ohlc_of (snd wl)) p
      (the (book (sp_tick_size spec) (snd wl) p))"
  obtain xs where xs: "window_rows spec wl = x # xs" by (simp add: window_rows_def ps x_def)
  have ts: "\<forall>y \<in> set (x # xs). qr_ts_ms y = fst wl div 1000000"
    unfolding xs [symmetric] by (auto simp: window_rows_def)
  have x: "qr_ts_ms x = fst wl div 1000000" "qr_ps x = sp_price_scale spec" "qr_qs x = sp_qty_scale spec"
    "qr_open x = fst (ohlc_of (snd wl))" "qr_high x = fst (snd (ohlc_of (snd wl)))"
    "qr_low x = fst (snd (snd (ohlc_of (snd wl))))" "qr_close x = snd (snd (snd (ohlc_of (snd wl))))"
    by (simp_all add: x_def window_range_row_def case_prod_beta)
  show ?thesis
    using assms(2-5) ts x
    by (cases "wls = []")
      (simp_all add: xs collect_same footprint_response_def Let_def add_bar_def add_window_def set_scales_def min_def)
qed

lemma collect_footprints:
  assumes "windows_ok wls" "sp_price_scale spec \<le> 255" "sp_qty_scale spec \<le> 255"
  shows "collect_rows None (range_response_empty q) (concat (map (window_rows spec) (filter (in_time q) wls))) =
    footprint_response spec q (filter (in_time q) wls)"
proof -
  have ok: "windows_ok (filter (in_time q) wls)"
    using assms(1) by (auto simp: windows_ok_def sorted_wrt_map sorted_wrt_filter)
  have ne: "window_rows spec wl \<noteq> []" if "snd wl \<noteq> []" for wl
    using that by (auto simp: window_rows_def) (metis dom_book image_is_empty set_bucket_prices set_empty list.set(1))
  have "collect_rows None (range_response_empty q) (concat (map (window_rows spec) ws)) = footprint_response spec q ws"
    if "windows_ok ws" for ws
    using that
  proof (induction ws rule: rev_induct)
    case Nil
    then show ?case by (simp add: footprint_response_def range_response_empty_def Let_def)
  next
    case (snoc wl ws)
    have ok: "windows_ok ws" "snd wl \<noteq> []" using snoc.prems by (auto simp: windows_ok_def sorted_wrt_append)
    let ?xs = "concat (map (window_rows spec) ws)"
    have last: "ws \<noteq> [] \<Longrightarrow> ?xs \<noteq> [] \<and> qr_ts_ms (last ?xs) = fst (last ws) div 1000000"
    proof -
      assume "ws \<noteq> []"
      then obtain vs w where ws: "ws = vs @ [w]" by (cases ws rule: rev_cases) auto
      then have "window_rows spec w \<noteq> []" using ne ok(1) by (auto simp: windows_ok_def)
      moreover from this have "last (window_rows spec w) \<in> set (window_rows spec w)" by simp
      then have "qr_ts_ms (last (window_rows spec w)) = fst w div 1000000" by (auto simp: window_rows_def)
      ultimately show ?thesis by (simp add: ws)
    qed
    have less: "ws = [] \<or> fst (last ws) div 1000000 < fst wl div 1000000"
    proof (cases ws rule: rev_cases)
      case (snoc vs w)
      then have "fst w < fst wl" "1000000 dvd fst w" "1000000 dvd fst wl"
        using snoc.prems by (auto simp: windows_ok_def sorted_wrt_append)
      then show ?thesis by (auto simp: snoc elim!: dvdE)
    qed simp
    have "(if ?xs = [] then None else Some (qr_ts_ms (last ?xs)))
        = (if ws = [] then None else Some (fst (last ws) div 1000000))"
      using last by (cases "ws = []") auto
    then show ?case
      using footprint_response_snoc [OF ok(2) less assms(2,3), of q] snoc.IH [OF ok(1)] last
      by (auto simp: collect_append)
  qed
  then show ?thesis using ok by blast
qed

text \<open>
  C16: From stored trades to the reply: when ClickHouse answers the query, over a table that holds the
  footprints of the windows of a stream in the range, with the rows it asks for, the history endpoint replies with the footprints
  of the windows of the range: per bucket its window, price and totals, per window its candle, in
  order, and with the scales of the instrument.
\<close>

theorem history_answers_footprints:
  assumes "validate_params q = Inr ()" and "names q spec" and "symbol_unique spec rows" and "list_all trade_ok ts"
    and "\<And>m p. rp_from_ms q \<le> m \<Longrightarrow> m < rp_to_ms q \<Longrightarrow>
      stored rows (key_at spec m p) = footprint_table spec region (base_interval q) ts m p"
    and "base_interval q \<noteq> rp_interval_seconds q \<Longrightarrow> rollable q ts"
    and "get (trim_end_matches CHR ''/'' (hs_ch_url st) @ ''/?query='' @ urlencode (build_range_sql (hs_ch_database st) q))
        (if hs_ch_user st \<noteq> [] then Some (hs_ch_user st, hs_ch_password st) else None) = Inr (True, status, Inr body)"
    and "list_all2 (prints J) (str_lines body) (range_query q rows)"
    and "estimate_max_rows q \<le> max_bars" and "length (range_query q rows) \<le> max_bars"
    and "sp_price_scale spec \<le> 255" and "sp_qty_scale spec \<le> 255"
  shows "cluster_range J get now st q = RangeOk (cache_value q now)
    (footprint_response spec q (filter (in_time q) (all_windows (step_of q * 1000000) ts)))"
proof -
  have rows: "range_query q rows = footprint_rows spec q (all_windows (step_of q * 1000000) ts)"
    by (rule query_rows [OF assms(1-6)])
  have ok: "windows_ok (all_windows (step_of q * 1000000) ts)"
    using all_windows_ok [OF assms(4), of "rp_interval_seconds q"] by (simp add: step_of_def mult.assoc)
  have "rr_n (range_response_empty q) = 0" by (simp add: range_response_empty_def)
  then have "read_rows J None (range_response_empty q) (str_lines body) =
      collect_rows None (range_response_empty q) (range_query q rows)"
    using assms(10) by (intro read_printed [OF assms(8)]) simp
  also have "\<dots> = footprint_response spec q (filter (in_time q) (all_windows (step_of q * 1000000) ts))"
    unfolding rows footprint_rows_def by (rule collect_footprints [OF ok assms(11,12)])
  finally show ?thesis using assms(1,7,9) by (simp add: cluster_range_def Let_def)
qed

section \<open>Trades out of order\<close>

text \<open>Why the roll-up asks for order: a trade that is late for its minute is in no row of the table of
  minutes, but the aggregator of a longer interval still counts it.\<close>

lemma late_for_its_minute:
  "concat (map snd (all_windows (int 60 * 1000000000) [sample_trade 60100 12341 7 Ask, sample_trade 59900 12347 5 Bid]))
     = [sample_trade 60100 12341 7 Ask]"
  "concat (map snd (all_windows (int 300 * 1000000000) [sample_trade 60100 12341 7 Ask, sample_trade 59900 12347 5 Bid]))
     = [sample_trade 60100 12341 7 Ask, sample_trade 59900 12347 5 Bid]"
  by (simp_all add: sample_trade_def all_windows_def spec_ingest_def Let_def align_def signed_divide_int_def open_list_def)

section \<open>Witnesses\<close>

text \<open>Two minutes of an instrument with a trade each, in the same price bucket, and their rows.\<close>

definition rolled_spec :: symbol_spec where
  "rolled_spec = \<lparr>sp_exchange = BinanceF, sp_market_type = Perp, sp_quote = Usdt, sp_symbol = ''BTCUSDT'',
     sp_price_scale = 2, sp_qty_scale = 3, sp_tick_size = 10, sp_step_size = 1\<rparr>"

definition rolled_trades :: "trade_print list" where
  "rolled_trades = [sample_trade 100 12347 5 Bid, sample_trade 60100 12341 7 Ask]"

definition rolled_table :: "cluster_row list" where
  "rolled_table =
     [window_row rolled_spec ''tokyo'' 0 (12347, 12347, 12347, 12347) 12340 \<lparr>ca_bid_qty = 5, ca_ask_qty = 0, ca_trades = 1\<rparr>,
      window_row rolled_spec ''tokyo'' 60000 (12341, 12341, 12341, 12341) 12340 \<lparr>ca_bid_qty = 0, ca_ask_qty = 7, ca_trades = 1\<rparr>]"

lemmas rolled_simps = rolled_trades_def sample_trade_def all_windows_def spec_ingest_def Let_def align_def
  signed_divide_int_def open_list_def

lemma rolled_minutes:
  "all_windows (int 60 * 1000000000) rolled_trades =
     [(0, [sample_trade 100 12347 5 Bid]), (60000000000, [sample_trade 60100 12341 7 Ask])]"
  by (simp add: rolled_simps)

lemma rolled_windows: "all_windows (step_of sample_range * 1000000) rolled_trades = [(0, rolled_trades)]"
  by (simp add: rolled_simps step_of_def sample_range_def)

lemma one_book:
  "book 10 [sample_trade t p q g] k = (if k = align 10 p then Some (totals [sample_trade t p q g]) else None)"
  by (simp add: book_def in_bucket_def sample_trade_def)

lemma rolled_holds:
  "stored rolled_table (key_at rolled_spec m p) =
     footprint_table rolled_spec ''tokyo'' (base_interval sample_range) rolled_trades m p"
proof -
  have b: "base_interval sample_range = 60" by (simp add: base_interval_def sample_range_def)
  have t: "sp_tick_size rolled_spec = 10" by (simp add: rolled_spec_def)
  have al: "align 10 12347 = 12340" "align 10 12341 = 12340" by (simp_all add: align_def signed_divide_int_def)
  have tot: "totals [sample_trade 100 12347 5 Bid] = \<lparr>ca_bid_qty = 5, ca_ask_qty = 0, ca_trades = 1\<rparr>"
    "totals [sample_trade 60100 12341 7 Ask] = \<lparr>ca_bid_qty = 0, ca_ask_qty = 7, ca_trades = 1\<rparr>"
    by (simp_all add: totals_def side_total_def sample_trade_def u32_max_def)
  have o: "ohlc_of [sample_trade 100 12347 5 Bid] = (12347, 12347, 12347, 12347)"
    "ohlc_of [sample_trade 60100 12341 7 Ask] = (12341, 12341, 12341, 12341)"
    by (simp_all add: ohlc_of_def sample_trade_def)
  show ?thesis
    unfolding footprint_table_def b rolled_minutes t
    by (auto simp: rolled_table_def stored_def one_book al tot o)
qed

lemma rolled_conditions:
  "names sample_range rolled_spec" "symbol_unique rolled_spec rolled_table" "list_all trade_ok rolled_trades"
  "rollable sample_range rolled_trades"
proof -
  show "names sample_range rolled_spec"
    by (simp add: names_def rolled_spec_def spec_stream_def sample_range_def)
  show "symbol_unique rolled_spec rolled_table"
    by (simp add: symbol_unique_def rolled_table_def window_row_def rolled_spec_def spec_stream_def)
  show "list_all trade_ok rolled_trades"
    by (simp add: rolled_trades_def sample_trade_def trade_ok_def trade_in_range_def in_i64_def)
  show "rollable sample_range rolled_trades"
    unfolding rollable_def rolled_windows
    by (simp add: in_order_def step_of_def sample_range_def rolled_trades_def sample_trade_def fits_def
        side_total_def u32_max_def)
qed

lemma rolled_rows:
  "footprint_rows rolled_spec sample_range [(0, rolled_trades)] =
     [\<lparr>qr_ts_ms = 0, qr_price = 12340, qr_bid_qty = 5, qr_ask_qty = 7, qr_trades = 2, qr_ps = 2, qr_qs = 3,
       qr_open = 12347, qr_close = 12341, qr_high = 12347, qr_low = 12341\<rparr>]"
proof -
  have p: "bucket_prices 10 rolled_trades = [12340]"
    by (simp add: bucket_prices_def rolled_trades_def sample_trade_def align_def signed_divide_int_def)
  have b: "book 10 rolled_trades 12340 = Some \<lparr>ca_bid_qty = 5, ca_ask_qty = 7, ca_trades = 2\<rparr>"
    by (simp add: book_def in_bucket_def rolled_trades_def sample_trade_def align_def signed_divide_int_def
        totals_def side_total_def u32_max_def)
  have o: "ohlc_of rolled_trades = (12347, 12347, 12341, 12341)"
    by (simp add: ohlc_of_def rolled_trades_def sample_trade_def)
  have s: "sp_tick_size rolled_spec = 10" "sp_price_scale rolled_spec = 2" "sp_qty_scale rolled_spec = 3"
    by (simp_all add: rolled_spec_def)
  have i: "in_time sample_range (0, rolled_trades)" by (simp add: in_time_def sample_range_def)
  show ?thesis by (simp add: footprint_rows_def i window_rows_def s p b o window_range_row_def)
qed

lemma history_query_is_footprints_witness:
  "range_query sample_range rolled_table =
     [\<lparr>qr_ts_ms = 0, qr_price = 12340, qr_bid_qty = 5, qr_ask_qty = 7, qr_trades = 2, qr_ps = 2, qr_qs = 3,
       qr_open = 12347, qr_close = 12341, qr_high = 12347, qr_low = 12341\<rparr>]"
  using history_query_is_footprints [OF sample_range_valid rolled_conditions(1-3) rolled_holds] rolled_conditions(4)
  by (simp add: rolled_windows rolled_rows)

text \<open>A ClickHouse that answers with the line of this row.\<close>

definition rolled_api :: "jv json_api" where
  "rolled_api = jv_api\<lparr>j_parse := (\<lambda>_. Inr (JArr (map JInt [0, 12340, 5, 7, 2, 2, 3, 12347, 12341, 12347, 12341])))\<rparr>"

lemma rolled_prints:
  "list_all2 (prints rolled_api) (str_lines ''[0,12340,5,7,2,2,3,12347,12341,12347,12341]'')
     (range_query sample_range rolled_table)"
proof -
  have l: "str_lines ''[0,12340,5,7,2,2,3,12347,12341,12347,12341]'' = [''[0,12340,5,7,2,2,3,12347,12341,12347,12341]'']"
    by code_simp
  have "range_query sample_range rolled_table = footprint_rows rolled_spec sample_range [(0, rolled_trades)]"
    using query_rows [OF sample_range_valid rolled_conditions(1-3) rolled_holds] rolled_conditions(4)
    by (simp add: rolled_windows)
  then show ?thesis
    by (simp add: l rolled_rows prints_def rolled_api_def jv_api_def json_i64_def json_u32_def u32_max_def in_i64_def)
qed

lemma history_answers_footprints_witness:
  "cluster_range rolled_api (\<lambda>_ _. Inr (True, ''200 OK'', Inr ''[0,12340,5,7,2,2,3,12347,12341,12347,12341]''))
     5000000 sample_history sample_range =
   RangeOk ''public, max-age=86400, immutable''
     (footprint_response rolled_spec sample_range [(0, rolled_trades)])"
proof -
  have "length (range_query sample_range rolled_table) = 1"
    using query_rows [OF sample_range_valid rolled_conditions(1-3) rolled_holds] rolled_conditions(4)
    by (simp add: rolled_windows rolled_rows)
  moreover have "filter (in_time sample_range) [(0, rolled_trades)] = [(0, rolled_trades)]"
    by (simp add: in_time_def sample_range_def)
  ultimately show ?thesis
    using history_answers_footprints [OF sample_range_valid rolled_conditions(1-3) rolled_holds _ _ rolled_prints,
        of "\<lambda>_ _. Inr (True, ''200 OK'', Inr ''[0,12340,5,7,2,2,3,12347,12341,12347,12341]'')" sample_history "''200 OK''" 5000000]
      rolled_conditions(4)
    by (simp add: rolled_windows sample_estimate max_bars_def rolled_spec_def sample_cache)
qed

end
