(* ===== verification/Stream_Cli.thy ===== *)
theory Stream_Cli
  imports Stream_Server
begin

text \<open>
  The reference client \<open>crates/cluster-api/examples/stream_cli.rs\<close> and the server it calls
  (\<open>serve_with_auth\<close> of \<open>stream_server.rs\<close>). The environment is a map from names to values; whether a
  text can be a metadata value (\<open>parse\<close> at \<open>MetadataValue\<close>), whether \<open>connect\<close> succeeds, the call
  and the messages of the stream are arguments. The banner printed before the connection and the
  compression are left out; the dash of the last line is written in ASCII.
\<close>

section \<open>The request\<close>

type_synonym environment = "string \<Rightarrow> string option"

definition env_or :: "environment \<Rightarrow> string \<Rightarrow> string \<Rightarrow> string" where
  "env_or env name otherwise = unwrap_or (env name) otherwise"

definition cli_symbols :: "environment \<Rightarrow> proto_key list" where
  "cli_symbols env =
     (let exchange = env_or env ''EXCHANGE'' ''BINANCEF'';
          market_type = env_or env ''MARKET_TYPE'' ''PERP'';
          symbols_csv = env_or env ''SYMBOL'' ''BTCUSDT''
      in map (\<lambda>s. \<lparr>pr_exchange = exchange, pr_market_type = market_type, pr_symbol = s\<rparr>)
           (filter (\<lambda>s. s \<noteq> []) (map trim (split_on CHR '','' symbols_csv))))"

definition cli_interval :: "environment \<Rightarrow> nat" where
  "cli_interval env =
     unwrap_or (Option.bind (env ''INTERVAL'') (\<lambda>s. res_ok (parse_u32 s))) 60"

definition cli_token :: "environment \<Rightarrow> string option" where
  "cli_token env = (case env ''CLUSTER_TOKEN'' of Some t \<Rightarrow> if t \<noteq> [] then Some t else None | None \<Rightarrow> None)"

section \<open>The frames\<close>

datatype cli_output = Out string | ErrOut string

definition proto_key_default :: proto_key where
  "proto_key_default = \<lparr>pr_exchange = [], pr_market_type = [], pr_symbol = []\<rparr>"

definition cli_print :: "proto_frame \<Rightarrow> cli_output" where
  "cli_print frame =
     (let key = (case pf_key frame of Some k \<Rightarrow> k | None \<Rightarrow> proto_key_default) in
      case pf_body frame of
        Some (SnapshotBody s) \<Rightarrow>
          Out (''['' @ pr_symbol key @ ''] SNAPSHOT window='' @ int_to_string (ps_window_start_ns s)
            @ '' seq='' @ int_to_string (ps_sequence s)
            @ '' buckets='' @ int_to_string (int (length (ps_clusters s))))
      | Some (DiffBody d) \<Rightarrow>
          Out (''['' @ pr_symbol key @ ''] DIFF window='' @ int_to_string (pd_window_start_ns d)
            @ '' seq='' @ int_to_string (pd_sequence d)
            @ '' upserts='' @ int_to_string (int (length (pd_upserts d)))
            @ '' removes='' @ int_to_string (int (length (pd_removes d))))
      | None \<Rightarrow> ErrOut (''['' @ pr_symbol key @ ''] frame with no body - protocol violation''))"

text \<open>What \<open>stream.message()\<close> yields; an empty list of messages is a stream that stays silent.\<close>

datatype stream_message = Message proto_frame | EndOfStream | StreamFailed grpc_status

datatype cli_error =
    NoSymbols
  | ConnectFailed
  | InvalidToken
  | CallRejected grpc_status
  | RecvFailed grpc_status

datatype cli_result = Listening | Exited | Failed cli_error

fun cli_loop :: "stream_message list \<Rightarrow> cli_output list \<times> cli_result" where
  "cli_loop [] = ([], Listening)"
| "cli_loop (Message frame # ms) = (let (out, r) = cli_loop ms in (cli_print frame # out, r))"
| "cli_loop (EndOfStream # ms) = ([Out ''server closed stream; exiting''], Exited)"
| "cli_loop (StreamFailed e # ms) = ([], Failed (RecvFailed e))"

section \<open>The client and the server\<close>

text \<open>\<open>call\<close> takes the state of the server, the \<open>authorization\<close> value and the request.\<close>

definition cli_main ::
  "(string \<Rightarrow> bool) \<Rightarrow> ('s \<Rightarrow> string option \<Rightarrow> subscribe_request \<Rightarrow> 's \<times> (grpc_status + 'r))
   \<Rightarrow> ('r \<Rightarrow> stream_message list) \<Rightarrow> bool \<Rightarrow> environment \<Rightarrow> 's \<Rightarrow> 's \<times> cli_output list \<times> cli_result" where
  "cli_main valid_metadata call messages connected env s =
     (let symbols = cli_symbols env in
      if symbols = [] then (s, [], Failed NoSymbols)
      else if \<not> connected then (s, [], Failed ConnectFailed)
      else
        let req = \<lparr>sr_symbols = symbols, sr_interval_seconds = cli_interval env\<rparr>;
            header = map_option (\<lambda>t. ''Bearer '' @ t) (cli_token env)
        in if header \<noteq> None \<and> \<not> valid_metadata (the header) then (s, [], Failed InvalidToken)
           else case call s header req of
             (s', Inl e) \<Rightarrow> (s', [], Failed (CallRejected e))
           | (s', Inr stream) \<Rightarrow> (s', cli_loop (messages stream)))"

definition serve_with_auth ::
  "('ch, 'rx) broadcast_api \<Rightarrow> auth_state \<Rightarrow> 'ch cluster_bus \<Rightarrow> string option \<Rightarrow> subscribe_request
   \<Rightarrow> 'ch cluster_bus \<times> (grpc_status + (proto_key \<times> 'rx) list)" where
  "serve_with_auth B auth bus header req =
     (case grpc_auth_interceptor auth header of
        Inl e \<Rightarrow> (bus, Inl e)
      | Inr () \<Rightarrow> stream_subscribe B bus req)"

end
