(* ===== verification/Api_Theorems.thy ===== *)
theory Api_Theorems
  imports Stream_Server
begin

text \<open>
  What the server side guarantees: with authentication on, data is only reachable with one of the
  tokens; the shared CPU peak is the maximum of all samples whatever the interleaving; the keys
  of the stream round-trip, and a subscription opens exactly the channels it names.
\<close>

section \<open>Tokens\<close>

lemma word_of_chr_inject: "(word_of_nat (chr_code c) :: byte) = word_of_nat (chr_code d) \<longleftrightarrow> c = d"
proof -
  have "unat (word_of_nat (chr_code c) :: byte) = chr_code c" for c
    by (simp add: chr_code_def unat_of_nat take_bit_nat_def)
  then show ?thesis by (metis char_eq_iff_code)
qed

lemma as_bytes_inject: "as_bytes a = as_bytes b \<longleftrightarrow> a = b"
proof -
  have "inj (\<lambda>c. word_of_nat (chr_code c) :: byte)" by (simp add: inj_def word_of_chr_inject)
  then show ?thesis by (simp add: as_bytes_def inj_map_eq_map)
qed

lemma or_eq_zero: "or a b = 0 \<longleftrightarrow> a = 0 \<and> (b :: byte) = 0"
  by (auto simp: bit_eq_iff bit_or_iff)

lemma ct_fold_zero:
  "fold (\<lambda>(x, y) diff. or diff (xor x y)) zs d = (0 :: byte) \<longleftrightarrow> d = 0 \<and> (\<forall>(x, y) \<in> set zs. x = y)"
proof (induction zs arbitrary: d)
  case (Cons z zs)
  have "xor x y = (0 :: byte) \<longleftrightarrow> x = y" for x y
    by (metis xor_self_eq xor.assoc xor.left_neutral xor.right_neutral)
  then show ?case by (cases z) (auto simp: Cons.IH or_eq_zero)
qed simp

text \<open>The constant-time comparison is equality.\<close>

lemma ct_eq_iff: "ct_eq a b \<longleftrightarrow> a = b"
proof (cases "length a = length b")
  case True
  then have "(\<forall>(x, y) \<in> set (zip a b). x = y) \<longleftrightarrow> a = b"
    by (induction a b rule: list_induct2) auto
  then show ?thesis using True by (simp add: ct_eq_def ct_fold_zero)
qed (auto simp: ct_eq_def)

lemma auth_accepts_iff: "auth_accepts st t \<longleftrightarrow> (if au_enabled st then t \<in> set (au_tokens st) else True)"
  by (auto simp: auth_accepts_def list_ex_iff ct_eq_iff as_bytes_inject)

lemma extract_bearer_iff: "extract_bearer h = Some t \<longleftrightarrow> h = Some (''Bearer '' @ t)"
  by (cases h) (auto simp: extract_bearer_def strip_prefix_Some)

definition presents_token :: "auth_state \<Rightarrow> string option \<Rightarrow> bool" where
  "presents_token st header \<longleftrightarrow> header \<in> (\<lambda>t. Some (''Bearer '' @ t)) ` set (au_tokens st)"

lemma bearer_check:
  "(case extract_bearer h of None \<Rightarrow> False | Some t \<Rightarrow> t \<in> set (au_tokens st)) \<longleftrightarrow> presents_token st h"
proof (cases "extract_bearer h")
  case None
  then have "h \<noteq> Some (''Bearer '' @ t)" for t using extract_bearer_iff [of h t] by auto
  then show ?thesis using None by (auto simp: presents_token_def)
next
  case (Some t)
  then have "h = Some (''Bearer '' @ t)" by (simp only: extract_bearer_iff)
  then show ?thesis using Some by (auto simp: presents_token_def)
qed

lemma public_routes: "is_public_path path \<Longrightarrow> route path \<noteq> Some SystemMetrics \<and> route path \<noteq> Some ClusterRange"
  by (auto simp: route_def is_public_path_def starts_with_def)

text \<open>C23: With authentication on, a gRPC call is let through, and a REST request reaches the metrics
  or the history, exactly when its header is the word Bearer and one of the configured tokens;
  with authentication off they always do.\<close>

theorem data_needs_token:
  "(grpc_auth_interceptor st header = Inr ()) = (if au_enabled st then presents_token st header else True) \<and>
   (rest_router st ''/v1/system/metrics'' header = Handled SystemMetrics) =
     (if au_enabled st then presents_token st header else True) \<and>
   (rest_router st ''/v1/clusters/range'' header = Handled ClusterRange) =
     (if au_enabled st then presents_token st header else True) \<and>
   {path. au_enabled st \<and> \<not> presents_token st header \<and>
      rest_router st path header \<in> {Handled SystemMetrics, Handled ClusterRange}} = {}"
proof (intro conjI)
  have m: "rest_auth_middleware st path header \<longleftrightarrow>
      (if is_public_path path then True else if au_enabled st then presents_token st header else True)" for path
    using bearer_check [where h = header and st = st] by (simp add: rest_auth_middleware_def auth_accepts_iff split: option.splits)
  have priv: "\<not> is_public_path ''/v1/system/metrics''" "\<not> is_public_path ''/v1/clusters/range''"
    by (simp_all add: is_public_path_def starts_with_def)
  show "(grpc_auth_interceptor st header = Inr ()) = (if au_enabled st then presents_token st header else True)"
    using bearer_check [where h = header and st = st]
    by (auto simp: grpc_auth_interceptor_def auth_accepts_iff split: option.splits)
  show "(rest_router st ''/v1/system/metrics'' header = Handled SystemMetrics) =
     (if au_enabled st then presents_token st header else True)"
    by (simp add: rest_router_def m priv route_def)
  show "(rest_router st ''/v1/clusters/range'' header = Handled ClusterRange) =
     (if au_enabled st then presents_token st header else True)"
    by (simp add: rest_router_def m priv route_def)
  show "{path. au_enabled st \<and> \<not> presents_token st header \<and>
      rest_router st path header \<in> {Handled SystemMetrics, Handled ClusterRange}} = {}"
    using public_routes by (auto simp: rest_router_def m split: option.splits if_splits)
qed

section \<open>The peak\<close>

fun sample_of :: "peak_request \<Rightarrow> nat" where
  "sample_of (Fresh c) = c"
| "sample_of (Comparing c p) = c"
| "sample_of (Finished c) = c"

fun request_ok :: "nat list \<Rightarrow> peak_request \<Rightarrow> bool" where
  "request_ok hist (Fresh c) = True"
| "request_ok hist (Comparing c p) = (p \<in> set hist)"
| "request_ok hist (Finished c) = (c \<le> last hist)"

fun is_finished :: "peak_request \<Rightarrow> bool" where
  "is_finished (Finished c) = True"
| "is_finished _ = False"

definition peak_inv :: "peak_state \<Rightarrow> bool" where
  "peak_inv s \<longleftrightarrow> pk_history s \<noteq> [] \<and> sorted_wrt (<) (pk_history s) \<and>
     set (pk_history s) \<subseteq> insert 0 (set (map sample_of (pk_requests s))) \<and>
     0 \<in> set (pk_history s) \<and>
     (\<forall>r \<in> set (pk_requests s). request_ok (pk_history s) r)"

lemma sorted_le_last: "sorted_wrt (<) xs \<Longrightarrow> x \<in> set xs \<Longrightarrow> x \<le> last (xs :: nat list)"
  by (induction xs) (auto simp: less_imp_le)

lemma samples_update:
  "i < length rs \<Longrightarrow> sample_of r = sample_of (rs ! i) \<Longrightarrow> map sample_of (rs[i := r]) = map sample_of rs"
  by (metis list_update_id map_update)

lemma request_ok_extend:
  "request_ok hist r \<Longrightarrow> last hist < c \<Longrightarrow> request_ok (hist @ [c]) r"
  by (cases r) auto

lemma peak_step_inv: "peak_step s t \<Longrightarrow> peak_inv s \<Longrightarrow> peak_inv t"
proof (induction rule: peak_step.induct)
  case (arrive s c)
  then show ?case by (auto simp: peak_inv_def)
next
  case (load i s c p)
  then show ?case using samples_update [of i "pk_requests s" "Comparing c p"]
    by (auto simp: peak_inv_def dest!: set_update_subset_insert [THEN subsetD])
next
  case (leave i s c p)
  have "pk_requests s ! i \<in> set (pk_requests s)" using leave(1) by (rule nth_mem)
  then have "request_ok (pk_history s) (Comparing c p)"
    using leave(2,4) by (metis peak_inv_def)
  then have "c \<le> last (pk_history s)"
    using leave(3,4) sorted_le_last [of "pk_history s" p] by (auto simp: peak_inv_def)
  then show ?case using leave samples_update [of i "pk_requests s" "Finished c"]
    by (auto simp: peak_inv_def dest!: set_update_subset_insert [THEN subsetD])
next
  case (exchange i s c p)
  have less: "x < c" if "x \<in> set (pk_history s)" for x
    using sorted_le_last [of "pk_history s" x] that exchange(3-5) by (auto simp: peak_inv_def)
  have "c \<in> set (map sample_of (pk_requests s))"
    using exchange(1,2) by (metis imageI list.set_map nth_mem sample_of.simps(2))
  then show ?case
    using exchange samples_update [of i "pk_requests s" "Finished c"] less request_ok_extend [of "pk_history s"]
    by (auto simp: peak_inv_def sorted_wrt_append dest!: set_update_subset_insert [THEN subsetD])
next
  case (retry i s c p q)
  then show ?case using samples_update [of i "pk_requests s" "Comparing c q"]
    by (auto simp: peak_inv_def dest!: set_update_subset_insert [THEN subsetD])
qed

text \<open>C38: However the requests interleave and whatever stale values their loads and failed exchanges
  read, the shared CPU peak only grows, and once the requests are done it is the largest sample.\<close>

theorem cpu_peak_is_maximum:
  assumes "peak_step\<^sup>*\<^sup>* peak_init s" and "list_all is_finished (pk_requests s)"
  shows "sorted_wrt (<) (pk_history s) \<and>
    last (pk_history s) = Max (insert 0 (set (map sample_of (pk_requests s))))"
proof -
  have "peak_inv peak_init" by (simp add: peak_inv_def peak_init_def)
  with assms(1) have inv: "peak_inv s" by induction (auto intro: peak_step_inv)
  have "sample_of r \<le> last (pk_history s)" if "r \<in> set (pk_requests s)" for r
  proof -
    have "request_ok (pk_history s) r" "is_finished r"
      using that inv assms(2) by (auto simp: peak_inv_def list_all_iff)
    then show ?thesis by (cases r) simp_all
  qed
  moreover have "last (pk_history s) \<in> insert 0 (set (map sample_of (pk_requests s)))"
    using inv last_in_set [of "pk_history s"] unfolding peak_inv_def by blast
  ultimately have "Max (insert 0 (set (map sample_of (pk_requests s)))) = last (pk_history s)"
    by (intro Max_eqI) auto
  then show ?thesis using inv by (simp add: peak_inv_def)
qed

text \<open>Two requests race: the second reads the peak before the first one writes it, fails and retries.\<close>

lemma sample_race:
  "peak_step\<^sup>*\<^sup>* peak_init \<lparr>pk_history = [0, 40, 70], pk_requests = [Finished 40, Finished 70]\<rparr>"
proof -
  have "peak_step\<^sup>*\<^sup>* peak_init \<lparr>pk_history = [0], pk_requests = [Fresh 40]\<rparr>"
    using peak_step.arrive [of peak_init 40] by (simp add: peak_init_def r_into_rtranclp)
  also have "peak_step \<dots> \<lparr>pk_history = [0], pk_requests = [Fresh 40, Fresh 70]\<rparr>"
    using peak_step.arrive [of "\<lparr>pk_history = [0], pk_requests = [Fresh 40]\<rparr>" 70] by simp
  also have "peak_step \<dots> \<lparr>pk_history = [0], pk_requests = [Comparing 40 0, Fresh 70]\<rparr>"
    using peak_step.load [of 0 "\<lparr>pk_history = [0], pk_requests = [Fresh 40, Fresh 70]\<rparr>" 40 0] by simp
  also have "peak_step \<dots> \<lparr>pk_history = [0], pk_requests = [Comparing 40 0, Comparing 70 0]\<rparr>"
    using peak_step.load [of 1 "\<lparr>pk_history = [0], pk_requests = [Comparing 40 0, Fresh 70]\<rparr>" 70 0] by simp
  also have "peak_step \<dots> \<lparr>pk_history = [0, 40], pk_requests = [Finished 40, Comparing 70 0]\<rparr>"
    using peak_step.exchange [of 0 "\<lparr>pk_history = [0], pk_requests = [Comparing 40 0, Comparing 70 0]\<rparr>" 40 0]
    by simp
  also have "peak_step \<dots> \<lparr>pk_history = [0, 40], pk_requests = [Finished 40, Comparing 70 40]\<rparr>"
    using peak_step.retry [of 1 "\<lparr>pk_history = [0, 40], pk_requests = [Finished 40, Comparing 70 0]\<rparr>" 70 0 40]
    by simp
  also have "peak_step \<dots> \<lparr>pk_history = [0, 40, 70], pk_requests = [Finished 40, Finished 70]\<rparr>"
    using peak_step.exchange [of 1 "\<lparr>pk_history = [0, 40], pk_requests = [Finished 40, Comparing 70 40]\<rparr>" 70 40]
    by simp
  finally show ?thesis .
qed

lemma cpu_peak_is_maximum_witness: "last [0, 40, 70] = Max (insert 0 (set [40, 70 :: nat]))"
  using cpu_peak_is_maximum [OF sample_race] by simp

section \<open>The stream\<close>

lemma parse_exchange_iff: "parse_exchange s = Some e \<longleftrightarrow> s = wire_id e"
  by (cases e) (auto simp: parse_exchange_def)

lemma parse_market_type_iff: "parse_market_type s = Some m \<longleftrightarrow> s = market_type_wire m"
  by (cases m) (auto simp: parse_market_type_def market_type_wire_def)

text \<open>The keys of the wire round-trip: a key is accepted exactly when it is the wire form of a domain
  key with a nonempty symbol.\<close>

lemma key_accepted_iff:
  "symbol_key_from_proto p = Inr k \<longleftrightarrow> p = proto_key_from_domain k \<and> sk_symbol k \<noteq> []"
proof
  assume "symbol_key_from_proto p = Inr k"
  then show "p = proto_key_from_domain k \<and> sk_symbol k \<noteq> []"
    by (cases p) (auto simp: symbol_key_from_proto_def proto_key_from_domain_def symbol_key_new_def
        parse_exchange_iff parse_market_type_iff split: if_splits)
next
  assume "p = proto_key_from_domain k \<and> sk_symbol k \<noteq> []"
  moreover have "parse_exchange (wire_id e) = Some e" "parse_market_type (market_type_wire m) = Some m" for e m
    by (simp_all only: parse_exchange_iff parse_market_type_iff)
  ultimately show "symbol_key_from_proto p = Inr k"
    by (cases k) (simp add: symbol_key_from_proto_def proto_key_from_domain_def symbol_key_new_def)
qed

text \<open>What a channel becomes after \<open>n\<close> more subscriptions.\<close>

definition subscribed :: "('ch, 'rx) broadcast_api \<Rightarrow> nat \<Rightarrow> 'ch \<Rightarrow> 'ch" where
  "subscribed B n ch = ((\<lambda>c. fst (bc_subscribe B c)) ^^ n) ch"

lemma subscribe_loop_ok:
  assumes "subscribe_loop B iv bus syms = (bus', Inr streams)"
  shows "map fst streams = syms \<and> (\<forall>k. channel_of B bus' k =
    subscribed B (length (filter (\<lambda>p. symbol_key_from_proto p = Inr (st_symbol k) \<and> st_interval_seconds k = iv) syms))
      (channel_of B bus k))"
  using assms
proof (induction syms arbitrary: bus streams)
  case (Cons p syms)
  obtain sk where sk: "symbol_key_from_proto p = Inr sk" using Cons.prems by (cases "symbol_key_from_proto p") auto
  define key where "key = stream_key_new sk iv"
  obtain bus1 rx where s: "subscribe B bus key = (bus1, rx)" by fastforce
  obtain rest where r: "subscribe_loop B iv bus1 syms = (bus', Inr rest)"
      "streams = (proto_key_from_domain sk, rx) # rest"
    using Cons.prems by (auto simp: sk key_def [symmetric] s split: prod.splits)
  have ch: "channel_of B bus1 k = (if k = key then fst (bc_subscribe B (channel_of B bus key)) else channel_of B bus k)" for k
    using subscribe_channel [of B bus key k] s by simp
  have hit: "symbol_key_from_proto p = Inr (st_symbol k) \<and> st_interval_seconds k = iv \<longleftrightarrow> k = key" for k
    by (cases k) (auto simp: sk key_def stream_key_new_def)
  have step: "subscribed B (Suc n) c = subscribed B n (fst (bc_subscribe B c))" for n c
    by (simp add: subscribed_def funpow_Suc_right del: funpow.simps)
  have "proto_key_from_domain sk = p" using sk key_accepted_iff [of p sk] by simp
  then show ?case
    using Cons.IH [OF r(1)] r(2) by (simp add: ch hit step)
qed (simp add: subscribed_def)

text \<open>A subscription is accepted only for 1 to 1024 valid keys; it then has one stream per key, in
  order, and has subscribed to the channel of every named key at the chosen interval (a minute when
  none is given) exactly as often as the key is named, and to no other channel.\<close>

lemma subscribe_opens_named_channels:
  assumes "stream_subscribe B bus req = (bus', Inr streams)"
  shows "sr_symbols req \<noteq> [] \<and> length (sr_symbols req) \<le> 1024 \<and> map fst streams = sr_symbols req \<and>
    channel_of B bus' k = subscribed B
      (length (filter (\<lambda>p. symbol_key_from_proto p = Inr (st_symbol k) \<and>
         st_interval_seconds k = (if sr_interval_seconds req = 0 then 60 else sr_interval_seconds req))
         (sr_symbols req))) (channel_of B bus k)"
  using assms subscribe_loop_ok [of B "if sr_interval_seconds req = 0 then 60 else sr_interval_seconds req" bus
      "sr_symbols req" bus' streams]
  by (simp add: stream_subscribe_def Let_def not_less split: if_splits)

text \<open>A hub that counts: a channel is the number of its subscribers, a receiver its number.\<close>

definition counting_hub :: "(nat, nat) broadcast_api" where
  "counting_hub = \<lparr>bc_channel = (\<lambda>_. 0), bc_send = (\<lambda>ch _. ch), bc_subscribe = (\<lambda>ch. (ch + 1, ch))\<rparr>"

end
