(* ===== verification/Stream_Cli_Theorems.thy ===== *)
theory Stream_Cli_Theorems
  imports Stream_Cli Api_Theorems
begin

text \<open>
  The reference client against the server: from its environment over the bearer check and
  \<open>Subscribe\<close> to the lines it prints.
\<close>

section \<open>Subscriptions\<close>

definition client_names :: "environment \<Rightarrow> string list" where
  "client_names env = filter (\<lambda>s. s \<noteq> []) (map trim (split_on CHR '','' (env_or env ''SYMBOL'' ''BTCUSDT'')))"

lemma names_nonempty: "list_all (\<lambda>s. s \<noteq> []) (client_names env)"
  by (simp add: client_names_def list_all_iff)

text \<open>When the exchange and the market of the environment have these names, its keys are those of
  the symbols it lists.\<close>

definition asks_for :: "environment \<Rightarrow> exchange \<Rightarrow> market_type \<Rightarrow> bool" where
  "asks_for env e m \<longleftrightarrow>
     env_or env ''EXCHANGE'' ''BINANCEF'' = wire_id e \<and> env_or env ''MARKET_TYPE'' ''PERP'' = market_type_wire m"

lemma client_keys:
  assumes "asks_for env e m"
  shows "cli_symbols env = map (\<lambda>s. proto_key_from_domain (symbol_key_new e m s)) (client_names env)"
  using assms by (simp add: cli_symbols_def client_names_def asks_for_def proto_key_from_domain_def symbol_key_new_def)

lemma valid_key: "s \<noteq> [] \<Longrightarrow> symbol_key_from_proto (proto_key_from_domain (symbol_key_new e m s)) = Inr (symbol_key_new e m s)"
  by (simp add: key_accepted_iff symbol_key_new_def)

lemma key_named: "symbol_key_new e m s = k \<longleftrightarrow> sk_exchange k = e \<and> sk_market_type k = m \<and> s = sk_symbol k"
  by (cases k) (auto simp: symbol_key_new_def)

lemma subscribe_loop_total:
  "list_all (\<lambda>s. s \<noteq> []) names \<Longrightarrow> \<exists>bus' streams. subscribe_loop B iv bus
     (map (\<lambda>s. proto_key_from_domain (symbol_key_new e m s)) names) = (bus', Inr streams)"
proof (induction names arbitrary: bus)
  case (Cons s names)
  obtain bus1 rx where "subscribe B bus (stream_key_new (symbol_key_new e m s) iv) = (bus1, rx)" by fastforce
  then show ?case using Cons.IH [of bus1] Cons.prems by (auto simp: valid_key)
qed simp

lemma named_count:
  assumes "asks_for env e m"
  shows "length (filter (\<lambda>p. symbol_key_from_proto p = Inr (st_symbol k) \<and> st_interval_seconds k = iv) (cli_symbols env))
    = (if sk_exchange (st_symbol k) = e \<and> sk_market_type (st_symbol k) = m \<and> st_interval_seconds k = iv
       then count_list (client_names env) (sk_symbol (st_symbol k)) else 0)"
proof -
  have count: "list_all (\<lambda>s. s \<noteq> []) names \<Longrightarrow>
      length (filter (\<lambda>p. symbol_key_from_proto p = Inr (st_symbol k) \<and> st_interval_seconds k = iv)
        (map (\<lambda>s. proto_key_from_domain (symbol_key_new e m s)) names))
      = (if sk_exchange (st_symbol k) = e \<and> sk_market_type (st_symbol k) = m \<and> st_interval_seconds k = iv
         then count_list names (sk_symbol (st_symbol k)) else 0)" for names
    by (induction names) (auto simp: valid_key key_named simp del: length_filter_map)
  show ?thesis unfolding client_keys [OF assms] by (rule count [OF names_nonempty])
qed

section \<open>Messages\<close>

text \<open>What \<open>select_all\<close> may make of the streams: all their items, each stream in its order.\<close>

fun interleavings :: "'a list list \<Rightarrow> 'a list set" where
  "interleavings [] = {[]}"
| "interleavings (xs # xss) = (\<Union>ys \<in> interleavings xss. shuffles xs ys)"

lemma interleavings_set: "ms \<in> interleavings xss \<Longrightarrow> f \<in> set ms \<Longrightarrow> \<exists>xs \<in> set xss. f \<in> set xs"
proof (induction xss arbitrary: ms)
  case (Cons xs xss)
  then obtain ys where ys: "ys \<in> interleavings xss" "ms \<in> shuffles xs ys" by auto
  then show ?case using Cons.IH [OF ys(1)] Cons.prems(2) set_shuffles [OF ys(2)] by auto
qed simp

lemma concat_interleaves: "concat xss \<in> interleavings xss"
proof (induction xss)
  case (Cons xs xss)
  have "xs @ concat xss \<in> shuffles xs (concat xss)" by (induction xs) (auto simp: Cons_in_shuffles_iff)
  then show ?case using Cons by auto
qed simp

text \<open>The streams of a subscription, when receiver \<open>rx\<close> yields \<open>items rx\<close> until the server stops.\<close>

definition merged :: "('rx \<Rightarrow> bus_item list) \<Rightarrow> (proto_key \<times> 'rx) list \<Rightarrow> proto_frame list set" where
  "merged items streams = interleavings (map (\<lambda>(key, rx). stream_items key (items rx)) streams)"

lemma cli_loop_prints: "cli_loop (map Message ms @ [EndOfStream]) = (map cli_print ms @ [Out ''server closed stream; exiting''], Exited)"
  by (induction ms) simp_all

lemma stream_items_complete: "f \<in> set (stream_items key items) \<Longrightarrow> pf_key f = Some key \<and> pf_body f \<noteq> None"
  by (auto simp: stream_items_def map_filter_def frame_to_proto_def split: bus_item.splits)

lemma merged_complete:
  assumes "ms \<in> merged items streams" "f \<in> set ms"
  shows "\<exists>key \<in> fst ` set streams. pf_key f = Some key \<and> pf_body f \<noteq> None"
proof -
  obtain key rx where "(key, rx) \<in> set streams" "f \<in> set (stream_items key (items rx))"
    using interleavings_set [OF assms(1) [unfolded merged_def] assms(2)] by auto
  then show ?thesis using stream_items_complete [of f key] by force
qed

lemma print_complete: "pf_key f = Some key \<Longrightarrow> pf_body f \<noteq> None \<Longrightarrow> \<exists>l. cli_print f = Out (''['' @ pr_symbol key @ '']'' @ l)"
  by (auto simp: cli_print_def Let_def split: proto_body.split)

section \<open>The client\<close>

text \<open>
  C17: A client of the stream gets what it asks for. When its environment names an exchange, a market
  and 1 to 1024 symbols, and the server wants no token or one that the environment holds, then the
  call is accepted; the hub gains, at the interval of the environment, one subscription per symbol
  listed and no other; and the client prints one line per frame its receivers yield, in an order that
  keeps the order of each symbol, each headed by a listed symbol, until the server ends the stream.
\<close>

theorem client_follows_symbols:
  assumes "asks_for env e m" and "client_names env \<noteq> []" and "length (client_names env) \<le> 1024"
    and "au_enabled auth \<Longrightarrow> \<exists>t \<in> set (au_tokens auth). cli_token env = Some t"
    and "\<And>t. cli_token env = Some t \<Longrightarrow> valid_metadata (''Bearer '' @ t)"
    and "\<And>streams. \<exists>ms \<in> merged items streams. messages streams = map Message ms @ [EndOfStream]"
  shows "\<exists>bus' streams ms.
    cli_main valid_metadata (serve_with_auth B auth) messages True env bus
      = (bus', map cli_print ms @ [Out ''server closed stream; exiting''], Exited) \<and>
    map fst streams = cli_symbols env \<and> ms \<in> merged items streams \<and>
    (\<forall>k. channel_of B bus' k = subscribed B
      (if sk_exchange (st_symbol k) = e \<and> sk_market_type (st_symbol k) = m \<and>
          st_interval_seconds k = (if cli_interval env = 0 then 60 else cli_interval env)
       then count_list (client_names env) (sk_symbol (st_symbol k)) else 0) (channel_of B bus k)) \<and>
    (\<forall>f \<in> set ms. \<exists>s \<in> set (client_names env). \<exists>l. cli_print f = Out (''['' @ s @ '']'' @ l))"
proof -
  let ?header = "map_option (\<lambda>t. ''Bearer '' @ t) (cli_token env)"
  let ?req = "\<lparr>sr_symbols = cli_symbols env, sr_interval_seconds = cli_interval env\<rparr>"
  have keys: "cli_symbols env = map (\<lambda>s. proto_key_from_domain (symbol_key_new e m s)) (client_names env)"
    by (rule client_keys [OF assms(1)])
  from subscribe_loop_total [OF names_nonempty] obtain bus' streams where sub: "stream_subscribe B bus ?req = (bus', Inr streams)"
    using assms(2,3) by (fastforce simp: stream_subscribe_def Let_def keys not_less)
  have "au_enabled auth \<Longrightarrow> presents_token auth ?header" using assms(4) by (force simp: presents_token_def)
  then have pass: "grpc_auth_interceptor auth ?header = Inr ()"
    using bearer_check [where h = ?header and st = auth]
    by (auto simp: grpc_auth_interceptor_def auth_accepts_iff split: option.splits)
  have call: "serve_with_auth B auth bus ?header ?req = (bus', Inr streams)"
    by (simp only: serve_with_auth_def pass sub sum.case old.unit.case)
  obtain ms where ms: "ms \<in> merged items streams" "messages streams = map Message ms @ [EndOfStream]"
    using assms(6) by blast
  have header: "\<not> (?header \<noteq> None \<and> \<not> valid_metadata (the ?header))" 
    using assms(5) by (cases "cli_token env") (simp_all del: append.simps)
  have asked: "cli_symbols env \<noteq> []" using assms(2) keys by simp
  have run: "cli_main valid_metadata (serve_with_auth B auth) messages True env bus
      = (bus', map cli_print ms @ [Out ''server closed stream; exiting''], Exited)"
    by (simp only: cli_main_def Let_def asked header call ms(2) cli_loop_prints if_False not_True_eq_False
        prod.case sum.case)
  have opened: "map fst streams = cli_symbols env" "channel_of B bus' k = subscribed B
      (if sk_exchange (st_symbol k) = e \<and> sk_market_type (st_symbol k) = m \<and>
          st_interval_seconds k = (if cli_interval env = 0 then 60 else cli_interval env)
       then count_list (client_names env) (sk_symbol (st_symbol k)) else 0) (channel_of B bus k)" for k
    using subscribe_opens_named_channels [OF sub, of k] by (simp_all only: named_count [OF assms(1)] subscribe_request.simps)
  have "\<exists>s \<in> set (client_names env). \<exists>l. cli_print f = Out (''['' @ s @ '']'' @ l)" if f: "f \<in> set ms" for f
  proof -
    obtain key where key: "key \<in> set (map fst streams)" "pf_key f = Some key" "pf_body f \<noteq> None"
      using merged_complete [OF ms(1) f] by auto
    from key(1) obtain s where "s \<in> set (client_names env)" "pr_symbol key = s"
      unfolding opened(1) keys by (auto simp: proto_key_from_domain_def symbol_key_new_def)
    then show ?thesis using print_complete [OF key(2,3)] by blast
  qed
  then show ?thesis using run opened ms(1) by blast
qed

section \<open>Witness\<close>

text \<open>Two symbols of OKX at five minutes, a server that wants a token, and one diff per receiver.\<close>

definition sample_env :: environment where
  "sample_env = [''EXCHANGE'' \<mapsto> ''OKX'', ''MARKET_TYPE'' \<mapsto> ''SPOT'', ''SYMBOL'' \<mapsto> '' BTC-USDT,,ETH-USDT '',
     ''INTERVAL'' \<mapsto> ''300'', ''CLUSTER_TOKEN'' \<mapsto> ''secret'']"

definition sample_items :: "nat \<Rightarrow> bus_item list" where
  "sample_items rx = [RecvLagged 3, RecvFrame (Diff \<lparr>ad_window_start_ns = 0, ad_sequence = int rx,
     ad_upserts = [], ad_removes = []\<rparr>)]"

definition in_turn :: "(proto_key \<times> nat) list \<Rightarrow> stream_message list" where
  "in_turn streams =
     map Message (concat (map (\<lambda>(key, rx). stream_items key (sample_items rx)) streams)) @ [EndOfStream]"

lemma sample_env_names:
  "asks_for sample_env Okx Spot" "client_names sample_env = [''BTC-USDT'', ''ETH-USDT'']"
  "cli_token sample_env = Some ''secret''" "cli_interval sample_env = 300"
  by (simp_all add: asks_for_def sample_env_def env_or_def market_type_wire_def client_names_def cli_token_def
      cli_interval_def str_defs)

lemma client_follows_symbols_witness:
  "\<exists>bus' out streams. cli_main (\<lambda>_. True) (serve_with_auth counting_hub (auth_new [''other'', ''secret''] True)) in_turn
      True sample_env bus_new = (bus', out, Exited) \<and> map fst (streams :: (proto_key \<times> nat) list) = cli_symbols sample_env \<and>
    channel_of counting_hub bus' (stream_key_new (symbol_key_new Okx Spot ''ETH-USDT'') 300) = 1"
proof -
  have T: "\<exists>ms \<in> merged sample_items streams. in_turn streams = map Message ms @ [EndOfStream]" for streams
    unfolding merged_def in_turn_def using concat_interleaves by blast
  have "\<exists>bus' streams ms. cli_main (\<lambda>_. True) (serve_with_auth counting_hub (auth_new [''other'', ''secret''] True))
        in_turn True sample_env bus_new = (bus', map cli_print ms @ [Out ''server closed stream; exiting''], Exited) \<and>
      map fst streams = cli_symbols sample_env \<and> ms \<in> merged sample_items streams \<and>
      (\<forall>k. channel_of counting_hub bus' k = subscribed counting_hub
        (if sk_exchange (st_symbol k) = Okx \<and> sk_market_type (st_symbol k) = Spot \<and>
            st_interval_seconds k = (if cli_interval sample_env = 0 then 60 else cli_interval sample_env)
         then count_list (client_names sample_env) (sk_symbol (st_symbol k)) else 0) (channel_of counting_hub bus_new k)) \<and>
      (\<forall>f \<in> set ms. \<exists>s \<in> set (client_names sample_env). \<exists>l. cli_print f = Out (''['' @ s @ '']'' @ l))"
    by (rule client_follows_symbols [OF sample_env_names(1) _ _ _ _ T])
      (simp_all add: sample_env_names(2,3) auth_new_def)
  then obtain bus' ms and streams :: "(proto_key \<times> nat) list" where
      run: "cli_main (\<lambda>_. True) (serve_with_auth counting_hub (auth_new [''other'', ''secret''] True)) in_turn True sample_env bus_new
        = (bus', map cli_print ms @ [Out ''server closed stream; exiting''], Exited)"
      and keys: "map fst streams = cli_symbols sample_env"
      and ch: "\<forall>k. channel_of counting_hub bus' k = subscribed counting_hub
        (if sk_exchange (st_symbol k) = Okx \<and> sk_market_type (st_symbol k) = Spot \<and>
            st_interval_seconds k = (if cli_interval sample_env = 0 then 60 else cli_interval sample_env)
         then count_list (client_names sample_env) (sk_symbol (st_symbol k)) else 0) (channel_of counting_hub bus_new k)"
    by (elim exE conjE)
  have "channel_of counting_hub bus' (stream_key_new (symbol_key_new Okx Spot ''ETH-USDT'') 300) = 1"
    using ch by (simp add: sample_env_names stream_key_new_def symbol_key_new_def subscribed_def counting_hub_def
        channel_of_def bus_new_def bus_with_capacity_def)
  then show ?thesis using run keys by blast
qed

end
