(* ===== verification/Session_Theorems.thy ===== *)
theory Session_Theorems
  imports Sessions
begin

text \<open>
  What the sessions guarantee: the Binance gap counter is exactly the number of skipped trade ids,
  every trade a session parses goes to the channel of the instrument its frame names and is counted
  once by its fate, and the instrument a session subscribes is the one its frames are routed by.
\<close>

section \<open>Gaps\<close>

text \<open>The trades of a session as \<open>detect_gap\<close> sees them: the clock, the symbol and the id.\<close>

definition gap_run :: "(nat \<times> string \<times> nat) list \<Rightarrow> 'q session \<Rightarrow> 'q session" where
  "gap_run evs s = fold (\<lambda>(now, y, i). detect_gap y i now) evs s"

text \<open>The ids seen, those between the first and the last of their symbol, and those in between that
  never came.\<close>

definition seen_ids :: "(nat \<times> string \<times> nat) list \<Rightarrow> (string \<times> nat) set" where
  "seen_ids evs = set (map snd evs)"

definition missed_ids :: "(nat \<times> string \<times> nat) list \<Rightarrow> (string \<times> nat) set" where
  "missed_ids evs =
     {(s, i). (s, i) \<notin> seen_ids evs \<and> (\<exists>a. (s, a) \<in> seen_ids evs \<and> a < i) \<and> (\<exists>b. (s, b) \<in> seen_ids evs \<and> i < b)}"

definition ids_increase :: "(nat \<times> string \<times> nat) list \<Rightarrow> bool" where
  "ids_increase evs \<longleftrightarrow> sorted_wrt (\<lambda>(_, s, i) (_, t, j). s = t \<longrightarrow> i < j) evs"

text \<open>The state after a run: the last id of every symbol and the number of missed ids.\<close>

definition gap_inv :: "(nat \<times> string \<times> nat) list \<Rightarrow> 'q session \<Rightarrow> bool" where
  "gap_inv evs s \<longleftrightarrow>
     (\<forall>y. case map_of (sn_gap_state s) y of
        None \<Rightarrow> y \<notin> fst ` seen_ids evs
      | Some m \<Rightarrow> (y, m) \<in> seen_ids evs \<and> (\<forall>a. (y, a) \<in> seen_ids evs \<longrightarrow> a \<le> m)) \<and>
     finite (missed_ids evs) \<and>
     ss_trades_missing (sn_stats s) = min u64_max (card (missed_ids evs))"

lemma detect_gap_state:
  "map_of (sn_gap_state (detect_gap y i now s)) k =
     (if k = y then (case map_of (sn_gap_state s) y of None \<Rightarrow> Some i | Some m \<Rightarrow> Some (max m i))
      else map_of (sn_gap_state s) k)"
  by (auto simp: detect_gap_def Let_def bump_def update_conv' split: option.splits)

lemma detect_gap_missing:
  assumes "i < u64_max" and "\<And>m. map_of (sn_gap_state s) y = Some m \<Longrightarrow> m < i"
  shows "ss_trades_missing (sn_stats (detect_gap y i now s)) =
    min u64_max (ss_trades_missing (sn_stats s) +
      (case map_of (sn_gap_state s) y of None \<Rightarrow> 0 | Some m \<Rightarrow> i - m - 1))
    \<or> map_of (sn_gap_state s) y = None \<and> sn_stats (detect_gap y i now s) = sn_stats s
    \<or> (\<exists>m. map_of (sn_gap_state s) y = Some m \<and> i = Suc m) \<and> sn_stats (detect_gap y i now s) = sn_stats s"
proof (cases "map_of (sn_gap_state s) y")
  case None
  then show ?thesis by (simp add: detect_gap_def)
next
  case (Some m)
  then have "m < i" using assms(2) by simp
  then have "wrap_u64 (Suc m) = Suc m" using assms(1) by (simp add: wrap_u64_def u64_max_def)
  moreover have "wrapping_sub_u64 (wrapping_sub_u64 i m) (Suc 0) = i - m - 1" if "Suc m < i"
    using that assms(1) by (simp add: wrapping_sub_u64_def u64_max_def nat_diff_distrib' of_nat_diff)
  ultimately show ?thesis
    using \<open>m < i\<close> Some
    by (cases "Suc m < i") (auto simp: detect_gap_def Let_def bump_def saturating_add_u64_def split: option.splits)
qed

text \<open>A new largest id of a symbol misses the ids between the one before and itself.\<close>

lemma missed_ids_step:
  assumes m: "(y, m) \<in> seen_ids evs" "\<forall>a. (y, a) \<in> seen_ids evs \<longrightarrow> a \<le> m" "m < i"
    and seen: "seen_ids evs' = insert (y, i) (seen_ids evs)"
  shows "missed_ids evs' = missed_ids evs \<union> (\<lambda>j. (y, j)) ` {Suc m..<i}"
    and "missed_ids evs \<inter> (\<lambda>j. (y, j)) ` {Suc m..<i} = {}"
proof -
  have "(t, j) \<in> missed_ids evs' \<longleftrightarrow> (t, j) \<in> missed_ids evs \<union> (\<lambda>j. (y, j)) ` {Suc m..<i}" for t j
  proof (cases "t = y")
    case False
    then show ?thesis unfolding missed_ids_def seen by auto
  next
    case True
    have old: "(y, j) \<in> missed_ids evs \<longleftrightarrow> (y, j) \<notin> seen_ids evs \<and> (\<exists>a. (y, a) \<in> seen_ids evs \<and> a < j) \<and> j < m"
      unfolding missed_ids_def using m(1,2) by (auto dest: order_less_le_trans)
    have new: "(y, j) \<in> missed_ids evs' \<longleftrightarrow> (y, j) \<notin> seen_ids evs \<and> (\<exists>a. (y, a) \<in> seen_ids evs \<and> a < j) \<and> j < i"
      unfolding missed_ids_def seen using m by auto
    show ?thesis
    proof (cases "j \<le> m")
      case True
      then have "j < m \<or> (y, j) \<in> seen_ids evs" using m(1) by (cases "j = m") auto
      then show ?thesis using \<open>t = y\<close> old new True m(3) by auto
    next
      case False
      then have "(y, j) \<notin> seen_ids evs" and "m < j" using m(2) by auto
      moreover from this(2) have "\<exists>a. (y, a) \<in> seen_ids evs \<and> a < j" using m(1) by blast
      ultimately show ?thesis using \<open>t = y\<close> old new False by auto
    qed
  qed
  then show "missed_ids evs' = missed_ids evs \<union> (\<lambda>j. (y, j)) ` {Suc m..<i}" by auto
  show "missed_ids evs \<inter> (\<lambda>j. (y, j)) ` {Suc m..<i} = {}"
    unfolding missed_ids_def using m by fastforce
qed

lemma gap_inv_step:
  assumes inv: "gap_inv evs s" and i: "i < u64_max"
    and new: "\<And>a. (y, a) \<in> seen_ids evs \<Longrightarrow> a < i"
  shows "gap_inv (evs @ [(now, y, i)]) (detect_gap y i now s)"
proof -
  let ?evs = "evs @ [(now, y, i)]" and ?s = "detect_gap y i now s"
  have seen: "seen_ids ?evs = insert (y, i) (seen_ids evs)" by (simp add: seen_ids_def)
  have st: "case map_of (sn_gap_state s) k of
        None \<Rightarrow> k \<notin> fst ` seen_ids evs
      | Some m \<Rightarrow> (k, m) \<in> seen_ids evs \<and> (\<forall>a. (k, a) \<in> seen_ids evs \<longrightarrow> a \<le> m)" for k
    using inv by (simp add: gap_inv_def)
  have fin: "finite (missed_ids evs)" and cnt: "ss_trades_missing (sn_stats s) = min u64_max (card (missed_ids evs))"
    using inv by (simp_all add: gap_inv_def)
  have state: "case map_of (sn_gap_state ?s) k of
        None \<Rightarrow> k \<notin> fst ` seen_ids ?evs
      | Some m \<Rightarrow> (k, m) \<in> seen_ids ?evs \<and> (\<forall>a. (k, a) \<in> seen_ids ?evs \<longrightarrow> a \<le> m)" for k
    using st [of k] st [of y] new
    by (fastforce simp: detect_gap_state seen max_def split: option.splits)
  show ?thesis
  proof (cases "map_of (sn_gap_state s) y")
    case None
    then have "y \<notin> fst ` seen_ids evs" using st [of y] by simp
    then have "missed_ids ?evs = missed_ids evs"
      unfolding missed_ids_def seen by (auto simp: image_iff)
    moreover have "sn_stats ?s = sn_stats s" using None by (simp add: detect_gap_def)
    ultimately show ?thesis using state fin cnt by (simp add: gap_inv_def)
  next
    case (Some m)
    have m: "(y, m) \<in> seen_ids evs" "\<forall>a. (y, a) \<in> seen_ids evs \<longrightarrow> a \<le> m" "m < i"
      using st [of y] Some new by auto
    note eq = missed_ids_step [OF m seen]
    have "card ((\<lambda>j. (y, j)) ` {Suc m..<i}) = i - m - 1" by (simp add: card_image inj_on_def)
    then have card: "card (missed_ids ?evs) = card (missed_ids evs) + (i - m - 1)"
      unfolding eq(1) using fin eq(2) by (simp add: card_Un_disjoint)
    have "ss_trades_missing (sn_stats ?s) = min u64_max (ss_trades_missing (sn_stats s) + (i - m - 1))"
      using detect_gap_missing [OF i, of s y now] Some m(3) cnt by auto
    then have "ss_trades_missing (sn_stats ?s) = min u64_max (card (missed_ids ?evs))"
      using cnt card by (simp add: min_def)
    then show ?thesis using state fin eq(1) by (simp add: gap_inv_def)
  qed
qed

lemma gap_inv_run:
  assumes "ids_increase evs" and "list_all (\<lambda>(_, _, i). i < u64_max) evs"
  shows "gap_inv evs (gap_run evs (session_start q))"
  using assms
proof (induction evs rule: rev_induct)
  case Nil
  then show ?case
    by (simp add: gap_inv_def gap_run_def session_start_def seen_ids_def missed_ids_def stats_default_def)
next
  case (snoc e evs)
  obtain now y i where e: "e = (now, y, i)" by (cases e) auto
  have "a < i" if "(y, a) \<in> seen_ids evs" for a
    using that snoc.prems(1) by (auto simp: e ids_increase_def sorted_wrt_append seen_ids_def)
  then have "gap_inv (evs @ [(now, y, i)]) (detect_gap y i now (gap_run evs (session_start q)))"
    using snoc by (intro gap_inv_step) (auto simp: e ids_increase_def sorted_wrt_append)
  then show ?case by (simp add: gap_run_def e)
qed

text \<open>
  C24: while the ids of every symbol increase, the number of missing trades a Binance session reports
  is exactly the number of ids that lie between two ids of their symbol and never came, over all
  interleavings of symbols, up to the saturation of the counter.
\<close>

theorem gap_count_exact:
  assumes "ids_increase evs" and "list_all (\<lambda>(_, _, i). i < u64_max) evs"
  shows "ss_trades_missing (sn_stats (gap_run evs (session_start q))) = min u64_max (card (missed_ids evs))"
  using gap_inv_run [OF assms, of q] unfolding gap_inv_def by blast

lemma gap_count_exact_witness:
  "min u64_max (card (missed_ids [(0, ''BTCUSDT'', 7), (0, ''ETHUSDT'', 1), (0, ''BTCUSDT'', 10)])) = 2"
  using gap_count_exact [of "[(0, ''BTCUSDT'', 7), (0, ''ETHUSDT'', 1), (0, ''BTCUSDT'', 10)]" "()"]
  by (simp add: ids_increase_def u64_max_def gap_run_def session_start_def detect_gap_def bump_def
      wrap_u64_def wrapping_sub_u64_def saturating_add_u64_def stats_default_def Let_def)

section \<open>Where trades go\<close>

text \<open>A channel that keeps a log of what it was handed and of the answer, which may depend on all
  that happened before.\<close>

type_synonym send_log = "(nat \<times> trade_print \<times> send_outcome) list"

definition logged :: "(send_log \<Rightarrow> nat \<Rightarrow> trade_print \<Rightarrow> send_outcome) \<Rightarrow> send_log sender" where
  "logged answer log sink t = (log @ [(sink, t, answer log sink t)], answer log sink t)"

definition fate_count :: "send_outcome \<Rightarrow> send_log \<Rightarrow> nat" where
  "fate_count o1 log = length (filter (\<lambda>(_, _, o2). o2 = o1) log)"

text \<open>The counters are those of the log, and every entry is a trade that may go to its channel.\<close>

definition accounted :: "(nat \<Rightarrow> trade_print \<Rightarrow> bool) \<Rightarrow> send_log session \<Rightarrow> bool" where
  "accounted R s \<longleftrightarrow>
     ss_trades_emitted (sn_stats s) = wrap_u64 (fate_count Sent (sn_queues s)) \<and>
     ss_trades_dropped_backpressure (sn_stats s) = wrap_u64 (fate_count SendFull (sn_queues s)) \<and>
     ss_trades_dropped_closed (sn_stats s) = wrap_u64 (fate_count SendClosed (sn_queues s)) \<and>
     (\<forall>(sink, t, _) \<in> set (sn_queues s). R sink t)"

lemma inc_wrap [simp]: "inc (wrap_u64 n) = wrap_u64 (Suc n)"
  by (simp add: inc_def wrap_u64_def mod_Suc_eq)

lemma accounted_start [simp]: "accounted R (session_start [])"
  by (simp add: accounted_def session_start_def stats_default_def fate_count_def wrap_u64_def)

lemma accounted_bump [simp]:
  "accounted R (bump (ss_parse_errors_update f) s) = accounted R s"
  "accounted R (bump (ss_frames_undecodable_update f) s) = accounted R s"
  "accounted R (bump (ss_pongs_sent_update f) s) = accounted R s"
  "accounted R (bump (ss_gaps_detected_update f) s) = accounted R s"
  "accounted R (bump (ss_trades_missing_update f) s) = accounted R s"
  "accounted R (s\<lparr>sn_gap_state := g\<rparr>) = accounted R s"
  "accounted R (s\<lparr>sn_last_gap_warn := w\<rparr>) = accounted R s"
  by (simp_all add: accounted_def bump_def)

lemma accounted_gap [simp]: "accounted R (detect_gap y i now s) = accounted R s"
  by (simp add: detect_gap_def Let_def split: option.split)

lemma accounted_emit:
  "accounted R s \<Longrightarrow> R (rt_sink route) t \<Longrightarrow> accounted R (emit_trade (logged answer) route t s)"
  by (cases "answer (sn_queues s) (rt_sink route) t")
    (auto simp: emit_trade_def logged_def accounted_def bump_def fate_count_def)

lemma accounted_fold:
  "accounted R s \<Longrightarrow> (\<And>t. t \<in> set ts \<Longrightarrow> R (rt_sink route) t)
     \<Longrightarrow> accounted R (fold (emit_trade (logged answer) route) ts s)"
  by (induction ts arbitrary: s) (simp_all add: accounted_emit)

text \<open>A trade may go to the channel of a route if a frame names the route's key and parses, with the
  route's specification, to a list with that trade.\<close>

definition origin ::
  "routing \<Rightarrow> ('v \<Rightarrow> string option) \<Rightarrow> ('v \<Rightarrow> symbol_spec \<Rightarrow> (exchange_error + trade_print list) option)
   \<Rightarrow> nat \<Rightarrow> trade_print \<Rightarrow> bool" where
  "origin routing key parse sink t \<longleftrightarrow>
     (\<exists>v k route ts. key v = Some k \<and> map_of routing k = Some route \<and>
        parse v (rt_spec route) = Some (Inr ts) \<and> t \<in> set ts \<and> sink = rt_sink route)"

lemma originI:
  "key v = Some k \<Longrightarrow> map_of routing k = Some route \<Longrightarrow> parse v (rt_spec route) = Some (Inr ts) \<Longrightarrow>
     t \<in> set ts \<Longrightarrow> origin routing key parse (rt_sink route) t"
  unfolding origin_def by blast

lemma accounted_route_frame:
  assumes "accounted (origin routing key parse) s"
    and "route_frame (logged answer) routing (key v) (parse v) s = Some s'"
  shows "accounted (origin routing key parse) s'"
proof (cases "key v")
  case None
  then show ?thesis using assms by (simp add: route_frame_def)
next
  case (Some k)
  show ?thesis
  proof (cases "map_of routing k")
    case None
    then show ?thesis using assms Some by (simp add: route_frame_def)
  next
    case (Some route)
    then obtain r where r: "parse v (rt_spec route) = Some r" "s' = emit_parsed (logged answer) route r s"
      using assms(2) \<open>key v = Some k\<close> by (auto simp: route_frame_def)
    then show ?thesis
      using assms(1) Some \<open>key v = Some k\<close>
      by (cases r) (auto simp: emit_parsed_def intro!: accounted_fold originI)
  qed
qed

lemma accounted_with_json:
  assumes "accounted R s" and "with_json J raw k s = Some s'"
    and "\<And>v s'. k v s = Some s' \<Longrightarrow> accounted R s'"
  shows "accounted R s'"
  using assms by (auto simp: with_json_def split: sum.splits)

text \<open>What a pair of handlers promises to the loop around it.\<close>

locale session_handlers =
  fixes p :: "send_log session_profile" and R :: "nat \<Rightarrow> trade_print \<Rightarrow> bool"
  assumes text_accounts: "accounted R s \<Longrightarrow> pf_on_text p now t s = Some (s', r) \<Longrightarrow> accounted R s'"
    and binary_accounts: "accounted R s \<Longrightarrow> pf_on_binary p now b s = Some (s', r) \<Longrightarrow> accounted R s'"
begin

lemma step_accounts: "accounted R s \<Longrightarrow> pump_step p s e = Some (s', d) \<Longrightarrow> accounted R s'"
  by (auto simp: pump_step_def Let_def split: ws_event.splits ws_message.splits if_splits
      dest: text_accounts binary_accounts)

lemma pump_accounts: "accounted R s \<Longrightarrow> pump p s es = Some (s', d) \<Longrightarrow> accounted R s'"
proof (induction es arbitrary: s)
  case (Cons e es)
  then show ?case
    by (auto split: option.splits session_end.splits prod.splits dest: step_accounts)
qed simp

end

section \<open>The ten kinds of session\<close>

datatype venue =
  VBinance | VAster | VBybit | VBitget | VOkx | VKucoin | VHyperliquid | VMexcSpot | VMexcFutures | VBingx

record 'j venue_env =
  ve_json :: "'j json_api"
  ve_okx :: ct_map
  ve_kucoin :: ct_map
  ve_mexc :: ct_map
  ve_inflate :: "byte list \<Rightarrow> string option"

fun venue_profile :: "'j venue_env \<Rightarrow> 'q sender \<Rightarrow> routing \<Rightarrow> venue \<Rightarrow> 'q session_profile" where
  "venue_profile V s rt VBinance = binance_profile (ve_json V) s rt"
| "venue_profile V s rt VAster = aster_profile (ve_json V) s rt"
| "venue_profile V s rt VBybit = bybit_profile (ve_json V) s rt"
| "venue_profile V s rt VBitget = bitget_profile (ve_json V) s rt"
| "venue_profile V s rt VOkx = okx_profile (ve_json V) (ve_okx V) s rt"
| "venue_profile V s rt VKucoin = kucoin_profile (ve_json V) (ve_kucoin V) s rt"
| "venue_profile V s rt VHyperliquid = hyperliquid_profile (ve_json V) s rt"
| "venue_profile V s rt VMexcSpot = mexc_spot_profile s rt"
| "venue_profile V s rt VMexcFutures = mexc_futures_profile (ve_json V) (ve_mexc V) s rt"
| "venue_profile V s rt VBingx = bingx_profile (ve_json V) (ve_inflate V) s rt"

definition single :: "exchange_error + trade_print option \<Rightarrow> exchange_error + trade_print list" where
  "single r = rbind r (\<lambda>t. Inr (case t of None \<Rightarrow> [] | Some t \<Rightarrow> [t]))"

fun venue_origin :: "'j venue_env \<Rightarrow> routing \<Rightarrow> venue \<Rightarrow> nat \<Rightarrow> trade_print \<Rightarrow> bool" where
  "venue_origin V rt VBinance = origin rt (\<lambda>v. map_option to_uppercase (binance_peek_symbol (ve_json V) v))
     (\<lambda>v spec. Some (single (binance_parse_value (ve_json V) v spec)))"
| "venue_origin V rt VAster = origin rt (\<lambda>v. map_option to_uppercase (binance_peek_symbol (ve_json V) v))
     (\<lambda>v spec. Some (single (binance_parse_value (ve_json V) v spec)))"
| "venue_origin V rt VBybit = origin rt (\<lambda>v. map_option to_uppercase (bybit_peek_symbol (ve_json V) v))
     (\<lambda>v spec. Some (bybit_parse_value (ve_json V) v spec))"
| "venue_origin V rt VBitget = origin rt (bitget_peek_symbol (ve_json V))
     (\<lambda>v spec. Some (bitget_parse_value (ve_json V) v spec))"
| "venue_origin V rt VOkx = origin rt (okx_peek_symbol (ve_json V)) (okx_parse_value (ve_json V) (ve_okx V))"
| "venue_origin V rt VKucoin =
     origin rt (kucoin_peek_symbol (ve_json V)) (kucoin_parse_value (ve_json V) (ve_kucoin V))"
| "venue_origin V rt VHyperliquid = origin rt (hyperliquid_peek_symbol (ve_json V))
     (\<lambda>v spec. Some (hyperliquid_parse_value (ve_json V) v spec))"
| "venue_origin V rt VMexcSpot =
     origin rt mexc_spot_peek_symbol (\<lambda>v spec. Some (mexc_spot_parse_value v spec))"
| "venue_origin V rt VMexcFutures =
     origin rt (mexc_futures_peek_symbol (ve_json V)) (mexc_futures_parse_value (ve_json V) (ve_mexc V))"
| "venue_origin V rt VBingx = origin rt (bingx_peek_symbol (ve_json V))
     (\<lambda>v spec. Some (bingx_parse_value (ve_json V) v spec))"

text \<open>The frame functions of the ten kinds, which the profiles wrap.\<close>

lemma binance_frame_accounts:
  assumes "accounted (venue_origin V rt VBinance) s"
  shows "binance_handle_payload (ve_json V) (logged answer) rt now raw s = Some s'
      \<Longrightarrow> accounted (venue_origin V rt VBinance) s'"
    and "aster_handle_payload (ve_json V) (logged answer) rt raw s = Some s'
      \<Longrightarrow> accounted (venue_origin V rt VBinance) s'"
  using assms
  by (auto simp: binance_handle_payload_def aster_handle_payload_def with_json_def single_def
      split: sum.splits option.splits intro!: accounted_emit originI)

lemma json_frame_accounts:
  assumes "accounted (origin rt key parse) s"
    and "with_json J raw (\<lambda>v. route_frame (logged answer) rt (key v) (parse v)) s = Some s'"
  shows "accounted (origin rt key parse) s'"
  using assms by (auto simp: with_json_def split: sum.splits dest: accounted_route_frame [OF assms(1)])

lemma bybit_frame_accounts:
  "accounted (venue_origin V rt VBybit) s \<Longrightarrow>
     bybit_handle_payload (ve_json V) (logged answer) rt raw s = Some s' \<Longrightarrow> accounted (venue_origin V rt VBybit) s'"
  unfolding bybit_handle_payload_def venue_origin.simps by (rule json_frame_accounts)

lemma bitget_frame_accounts:
  "accounted (venue_origin V rt VBitget) s \<Longrightarrow>
     bitget_handle_payload (ve_json V) (logged answer) rt raw s = Some s' \<Longrightarrow> accounted (venue_origin V rt VBitget) s'"
  unfolding bitget_handle_payload_def venue_origin.simps by (rule json_frame_accounts)

lemma okx_frame_accounts:
  "accounted (venue_origin V rt VOkx) s \<Longrightarrow>
     okx_handle_payload (ve_json V) (ve_okx V) (logged answer) rt raw s = Some s' \<Longrightarrow> accounted (venue_origin V rt VOkx) s'"
  unfolding okx_handle_payload_def venue_origin.simps by (rule json_frame_accounts)

lemma hyperliquid_frame_accounts:
  "accounted (venue_origin V rt VHyperliquid) s \<Longrightarrow>
     hyperliquid_handle (ve_json V) (logged answer) rt raw s = Some s' \<Longrightarrow> accounted (venue_origin V rt VHyperliquid) s'"
  unfolding hyperliquid_handle_def venue_origin.simps by (rule json_frame_accounts)

lemma mexc_futures_frame_accounts:
  "accounted (venue_origin V rt VMexcFutures) s \<Longrightarrow>
     mexc_futures_frame (ve_json V) (ve_mexc V) (logged answer) rt raw s = Some s' \<Longrightarrow> accounted (venue_origin V rt VMexcFutures) s'"
  unfolding mexc_futures_frame_def venue_origin.simps by (rule json_frame_accounts)

lemma kucoin_frame_accounts:
  assumes "accounted (venue_origin V rt VKucoin) s"
    and "kucoin_handle_payload (ve_json V) (ve_kucoin V) (logged answer) rt raw s = Some s'"
  shows "accounted (venue_origin V rt VKucoin) s'"
  using assms
  by (auto simp: kucoin_handle_payload_def with_json_def split: sum.splits if_splits
      dest: accounted_route_frame [OF assms(1) [unfolded venue_origin.simps]])

lemma mexc_spot_frame_accounts:
  assumes "accounted (venue_origin V rt VMexcSpot) s"
    and "mexc_spot_frame (logged answer) rt raw s = Some s'"
  shows "accounted (venue_origin V rt VMexcSpot) s'"
  using assms
  by (auto simp: mexc_spot_frame_def dest: accounted_route_frame [OF assms(1) [unfolded venue_origin.simps]])

lemma bingx_frame_accounts:
  assumes "accounted (venue_origin V rt VBingx) s"
    and "bingx_process_frame (ve_json V) (logged answer) rt t s = Some (s', r)"
  shows "accounted (venue_origin V rt VBingx) s'"
  using assms
  by (auto simp: bingx_process_frame_def split: sum.splits option.splits
      dest: accounted_route_frame [OF assms(1) [unfolded venue_origin.simps]])

lemma no_reply_Some [simp]: "no_reply m = Some (s', r) \<longleftrightarrow> m = Some s' \<and> r = None"
  by (cases m) (auto simp: no_reply_def)

lemmas profile_defs = binance_profile_def aster_profile_def bybit_profile_def bitget_profile_def
  okx_profile_def kucoin_profile_def hyperliquid_profile_def mexc_spot_profile_def
  mexc_futures_profile_def bingx_profile_def

lemmas frame_accounts = binance_frame_accounts bybit_frame_accounts bitget_frame_accounts okx_frame_accounts
  kucoin_frame_accounts hyperliquid_frame_accounts mexc_spot_frame_accounts mexc_futures_frame_accounts
  bingx_frame_accounts

lemma aster_origin: "venue_origin V rt VAster = venue_origin V rt VBinance"
  by simp

lemma venue_handlers: "session_handlers (venue_profile V (logged answer) rt v) (venue_origin V rt v)"
proof
  show "accounted (venue_origin V rt v) s'"
    if "accounted (venue_origin V rt v) s" "pf_on_text (venue_profile V (logged answer) rt v) now t s = Some (s', r)"
    for s now t s' r
    using that
    by (cases v)
      (auto simp: profile_defs aster_origin simp del: venue_origin.simps split: if_splits dest: frame_accounts)
  show "accounted (venue_origin V rt v) s'"
    if "accounted (venue_origin V rt v) s" "pf_on_binary (venue_profile V (logged answer) rt v) now b s = Some (s', r)"
    for s now b s' r
    using that
    by (cases v)
      (auto simp: profile_defs aster_origin simp del: venue_origin.simps split: if_splits option.splits
        dest: frame_accounts)
qed

interpretation venue: session_handlers "venue_profile V (logged answer) rt v" "venue_origin V rt v"
  for V answer rt v
  by (rule venue_handlers)

text \<open>
  C8: in a session with any exchange, whatever the socket delivers and the channels answer, every
  trade handed over goes to the channel of an instrument whose key the frame names and is one its
  specification parses from that frame, and it is counted once, as emitted, dropped because the
  channel was full, or dropped because it was closed.
\<close>

theorem session_accounts_trades:
  assumes "pump (venue_profile V (logged answer) rt v) (session_start []) es = Some (s, e)"
  shows "ss_trades_emitted (sn_stats s) = wrap_u64 (fate_count Sent (sn_queues s)) \<and>
    ss_trades_dropped_backpressure (sn_stats s) = wrap_u64 (fate_count SendFull (sn_queues s)) \<and>
    ss_trades_dropped_closed (sn_stats s) = wrap_u64 (fate_count SendClosed (sn_queues s)) \<and>
    fate_count Sent (sn_queues s) + fate_count SendFull (sn_queues s) + fate_count SendClosed (sn_queues s)
      = length (sn_queues s) \<and>
    (\<forall>(sink, t, _) \<in> set (sn_queues s). venue_origin V rt v sink t)"
proof -
  have "fate_count Sent q + fate_count SendFull q + fate_count SendClosed q = length q" for q
  proof (induction q)
    case (Cons a q)
    then show ?case by (cases a; cases "snd (snd a)") (auto simp: fate_count_def)
  qed (simp add: fate_count_def)
  then show ?thesis
    using venue.pump_accounts [OF accounted_start assms] by (simp add: accounted_def)
qed

definition hl_deal :: jv where
  "hl_deal = JObj [(''channel'', JStr ''trades''),
     (''data'', JArr [JObj [(''coin'', JStr ''BTC''), (''side'', JStr ''B''), (''px'', JStr ''100''),
        (''sz'', JStr ''2''), (''time'', JInt 5), (''tid'', JInt 9)]])]"

definition hl_env :: "jv venue_env" where
  "hl_env = \<lparr>ve_json = jv_api\<lparr>j_parse_bytes := (\<lambda>_. Inr hl_deal)\<rparr>, ve_okx = [], ve_kucoin = [],
     ve_mexc = [], ve_inflate = (\<lambda>_. None)\<rparr>"

definition hl_routing :: routing where
  "hl_routing = [(''BTC'', \<lparr>rt_spec = \<lparr>sp_exchange = HyperliquidF, sp_market_type = Perp, sp_quote = Usdc,
     sp_symbol = ''BTCUSDC'', sp_price_scale = 0, sp_qty_scale = 0, sp_tick_size = 1, sp_step_size = 1\<rparr>,
     rt_sink = 3\<rparr>)]"

definition hl_run :: "(send_log session \<times> session_end) option" where
  "hl_run = pump (venue_profile hl_env (logged (\<lambda>_ _ _. Sent)) hl_routing VHyperliquid) (session_start [])
     [Received (WsBinary []) 0 True, StreamEnd]"

lemma hl_trade:
  "hyperliquid_peek_symbol (ve_json hl_env) hl_deal = Some ''BTC''"
  "case hyperliquid_parse_value (ve_json hl_env) hl_deal (rt_spec (snd (hd hl_routing))) of Inr [t] \<Rightarrow> True | _ \<Rightarrow> False"
  by code_simp+

lemma hl_run_result:
  "\<exists>s. hl_run = Some (s, Ended) \<and> map fst (sn_queues s) = [3] \<and> ss_trades_emitted (sn_stats s) = 1"
proof -
  obtain t where "hyperliquid_parse_value (ve_json hl_env) hl_deal (rt_spec (snd (hd hl_routing))) = Inr [t]"
    using hl_trade(2) by (auto split: sum.splits list.splits)
  moreover have "j_parse_bytes (ve_json hl_env) [] = Inr hl_deal" by (simp add: hl_env_def)
  ultimately show ?thesis
    using hl_trade(1)
    by (simp add: hl_run_def pump_step_def hyperliquid_profile_def hyperliquid_handle_def with_json_def
        route_frame_def emit_parsed_def emit_trade_def logged_def bump_def inc_def wrap_u64_def
        session_start_def stats_default_def hl_routing_def no_reply_def)
qed

lemma session_accounts_trades_witness:
  "\<exists>s. hl_run = Some (s, Ended) \<and> fate_count Sent (sn_queues s) + fate_count SendFull (sn_queues s)
     + fate_count SendClosed (sn_queues s) = 1 \<and> ss_trades_emitted (sn_stats s) = wrap_u64 (fate_count Sent (sn_queues s))"
proof -
  obtain s where p: "hl_run = Some (s, Ended)" and q: "map fst (sn_queues s) = [3]"
    using hl_run_result by auto
  have "length (sn_queues s) = 1" using arg_cong [OF q, of length] by simp
  then show ?thesis using session_accounts_trades [OF p [unfolded hl_run_def]] p by auto
qed

section \<open>Subscriptions and routing\<close>

text \<open>A canonical symbol: upper-case letters and digits, then the quote.\<close>

definition canonical :: "string \<Rightarrow> string \<Rightarrow> bool" where
  "canonical b q \<longleftrightarrow> list_all (\<lambda>c. is_ascii_upper c \<or> is_ascii_digit c) b \<and> (q = ''USDT'' \<or> q = ''USDC'')"

text \<open>The frames of a subscription, by what the subscribe message asked for.\<close>

definition binance_names :: "'j json_api \<Rightarrow> string \<Rightarrow> 'j \<Rightarrow> bool" where
  "binance_names J y v \<longleftrightarrow> get_string J (binance_data J v) ''e'' = Some ''aggTrade'' \<and>
     (\<exists>s. get_string J (binance_data J v) ''s'' = Some s \<and> to_lowercase s = to_lowercase y)"

definition okx_names :: "'j json_api \<Rightarrow> bool \<Rightarrow> string \<Rightarrow> 'j \<Rightarrow> bool" where
  "okx_names J is_swap y v \<longleftrightarrow>
     Option.bind (j_get J v ''arg'') (\<lambda>a. get_string J a ''instId'') = okx_to_inst_id y is_swap \<and>
     okx_to_inst_id y is_swap \<noteq> None \<and>
     Option.bind (j_get J v ''arg'') (\<lambda>a. get_string J a ''channel'') = Some ''trades''"

definition bingx_names :: "'j json_api \<Rightarrow> string \<Rightarrow> 'j \<Rightarrow> bool" where
  "bingx_names J y v \<longleftrightarrow> get_string J v ''dataType'' = Some (bingx_venue_symbol y @ ''@trade'')"

definition kucoin_names :: "'j json_api \<Rightarrow> bool \<Rightarrow> string \<Rightarrow> 'j \<Rightarrow> bool" where
  "kucoin_names J futures u v \<longleftrightarrow> get_string J v ''type'' = Some ''message'' \<and>
     get_string J v ''topic'' = Some (kucoin_exec_topic_prefix futures @ u)"

lemma upper_id: "list_all (\<lambda>c. is_ascii_upper c \<or> is_ascii_digit c) s \<Longrightarrow> to_uppercase s = s"
  by (induction s) (auto simp: to_uppercase_def upper_char_def is_ascii_lower_def is_ascii_upper_def is_ascii_digit_def)

lemma upper_lower_char: "upper_char (lower_char c) = upper_char c"
proof (cases "is_ascii_upper c")
  case True
  then have "chr_code (char_of (chr_code c + 32) :: char) = chr_code c + 32"
    by (simp add: is_ascii_upper_def)
  then show ?thesis
    using True by (auto simp: lower_char_def upper_char_def is_ascii_lower_def is_ascii_upper_def) (simp add: chr_code_def)
qed (simp add: lower_char_def)

lemma upper_of_lower:
  assumes "to_lowercase s = to_lowercase y"
  shows "to_uppercase s = to_uppercase y"
proof -
  have "to_uppercase (to_lowercase z) = to_uppercase z" for z
    by (simp add: to_uppercase_def to_lowercase_def upper_lower_char)
  then show ?thesis using assms by metis
qed

lemma canonical_no_dash: "list_all (\<lambda>c. is_ascii_upper c \<or> is_ascii_digit c) b \<Longrightarrow> CHR ''-'' \<notin> set b \<and> CHR 0x40 \<notin> set b
    \<and> CHR 0x3A \<notin> set b"
  by (auto simp: list_all_iff is_ascii_upper_def is_ascii_digit_def chr_code_def)

lemma replace_char_none: "c \<notin> set s \<Longrightarrow> replace_char c [] s = s"
  by (induction s) (auto simp: replace_char_def)

lemma replace_char_append: "replace_char c r (s @ t) = replace_char c r s @ replace_char c r t"
  by (simp add: replace_char_def)

lemma replace_char_cons: "replace_char c r (c # s) = r @ replace_char c r s"
  by (simp add: replace_char_def)

lemma str_replace_skip:
  "CHR ''-'' \<notin> set b \<Longrightarrow> str_replace (CHR ''-'' # p) r (b @ s) = b @ str_replace (CHR ''-'' # p) r s"
  by (induction b) (auto simp: str_replace.simps [of _ _ "_ # _"] starts_with_def)

lemma canonical_split:
  assumes "canonical b q"
  shows "to_uppercase (b @ q) = b @ q" and "ends_with (b @ q) q" and "length q = 4"
    and "CHR ''-'' \<notin> set (b @ q)" and "CHR 0x40 \<notin> set (b @ q)" and "CHR 0x3A \<notin> set (b @ q)"
    and "to_uppercase b = b"
proof -
  have b: "list_all (\<lambda>c. is_ascii_upper c \<or> is_ascii_digit c) b" and q: "q = ''USDT'' \<or> q = ''USDC''"
    using assms by (simp_all add: canonical_def)
  have "list_all (\<lambda>c. is_ascii_upper c \<or> is_ascii_digit c) (b @ q)"
    using b q by (auto simp: is_ascii_upper_def chr_code_def)
  then show "to_uppercase (b @ q) = b @ q" by (rule upper_id)
  show "to_uppercase b = b" using b by (rule upper_id)
  show "length q = 4" using q by auto
  show "CHR ''-'' \<notin> set (b @ q)" "CHR 0x40 \<notin> set (b @ q)" "CHR 0x3A \<notin> set (b @ q)"
    using canonical_no_dash [OF b] q by auto
  show "ends_with (b @ q) q" by (auto simp: ends_with_conv)
qed

lemma ends_with_other: "ends_with (b @ ''USDC'') ''USDT'' = False"
  by (simp add: ends_with_def)

lemma okx_symbol_roundtrip:
  assumes "canonical b q"
  shows "map_option okx_normalize_inst_id (okx_to_inst_id (b @ q) is_swap) = Some (b @ q)"
proof -
  note c = canonical_split [OF assms]
  have b: "CHR ''-'' \<notin> set b" using c(4) by simp
  have q: "q = ''USDT'' \<or> q = ''USDC''" using assms by (simp add: canonical_def)
  have id: "okx_to_inst_id (b @ q) is_swap = Some (if is_swap then b @ ''-'' @ q @ ''-SWAP'' else b @ ''-'' @ q)"
    using q c(1,2) by (auto simp: okx_to_inst_id_def Let_def ends_with_other)
  have "str_replace ''-SWAP'' [] (''-'' @ q @ ''-SWAP'') = ''-'' @ q" "str_replace ''-SWAP'' [] (''-'' @ q) = ''-'' @ q"
    using q by (auto simp: str_replace.simps starts_with_def)
  then have "str_replace ''-SWAP'' [] (if is_swap then b @ ''-'' @ q @ ''-SWAP'' else b @ ''-'' @ q) = b @ ''-'' @ q"
    using str_replace_skip [OF b, of "''SWAP''" "[]"] by simp
  moreover have "replace_char CHR ''-'' [] (b @ ''-'' @ q) = b @ q"
    using c(4) by (simp add: replace_char_append replace_char_cons replace_char_none)
  ultimately show ?thesis using id c(1) by (simp add: okx_normalize_inst_id_def)
qed

lemma bingx_symbol_roundtrip:
  assumes "canonical b q"
  shows "to_uppercase (replace_char CHR ''-'' [] (hd (split_on CHR ''@'' (bingx_venue_symbol (b @ q) @ ''@trade'')))) = b @ q
    \<and> CHR ''@'' \<notin> set (bingx_venue_symbol (b @ q))"
proof -
  note c = canonical_split [OF assms]
  have v: "bingx_venue_symbol (b @ q) = b @ ''-'' @ q"
    using assms c(1,2) by (auto simp: canonical_def bingx_venue_symbol_def to_bingx_symbol_def Let_def ends_with_other)
  have at: "CHR ''@'' \<notin> set (b @ ''-'' @ q)" using c(5) by simp
  have "split_on CHR ''@'' ((b @ ''-'' @ q) @ CHR ''@'' # ''trade'') = (b @ ''-'' @ q) # split_on CHR ''@'' ''trade''"
    using at by (rule split_on_app)
  then show ?thesis
    using c(1,4) v at by (simp add: replace_char_append replace_char_cons replace_char_none)
qed

lemma contains_prefix: "starts_with s p \<Longrightarrow> str_contains s p"
  by (cases s) (auto simp: starts_with_def)

lemma contains_at: "str_contains (a @ p @ z) p"
  by (induction a) (simp_all add: contains_prefix)

lemma kucoin_key:
  assumes "CHR '':'' \<notin> set u" and "kucoin_names J futures u v"
  shows "kucoin_peek_symbol J v = Some u"
proof -
  have con: "str_contains (kucoin_exec_topic_prefix futures @ u) ''/execution''
     \<or> str_contains (kucoin_exec_topic_prefix futures @ u) ''/market/match''"
    using contains_at [of "''/contractMarket''" "''/execution''" "'':'' @ u"]
      contains_at [of "[]" "''/market/match''" "'':'' @ u"]
    by (simp add: kucoin_exec_topic_prefix_def)
  have "last (split_on CHR '':'' (kucoin_exec_topic_prefix futures @ u)) = u"
    using split_on_app [of "CHR '':''" "if futures then ''/contractMarket/execution'' else ''/market/match''" u]
      split_on_no [OF assms(1)]
    by (simp add: kucoin_exec_topic_prefix_def)
  then show ?thesis using assms(2) con by (simp add: kucoin_names_def kucoin_peek_symbol_def)
qed

text \<open>
  C25: the frames of a subscription are routed to the instrument that was subscribed: for a canonical
  symbol, what Binance, Aster, OKX, BingX and KuCoin answer to the instrument name the subscription
  sends is looked up under the very key the session registered for the symbol.
\<close>

theorem subscription_routes_back:
  assumes "canonical b q"
  shows "(binance_names J (b @ q) v \<longrightarrow> map_option to_uppercase (binance_peek_symbol J v) = Some (to_uppercase (b @ q)))
    \<and> (okx_names J is_swap (b @ q) v \<longrightarrow> okx_peek_symbol J v = Some (to_uppercase (b @ q)))
    \<and> (bingx_names J (b @ q) v \<longrightarrow> bingx_peek_symbol J v = Some (to_uppercase (b @ q)))
    \<and> (\<exists>u. kucoin_venue_symbol futures (b @ q) = Some u \<and>
         (kucoin_names J futures u v \<longrightarrow> kucoin_peek_symbol J v = Some u))"
proof (intro conjI impI)
  note c = canonical_split [OF assms]
  show "map_option to_uppercase (binance_peek_symbol J v) = Some (to_uppercase (b @ q))"
    if "binance_names J (b @ q) v"
    using that by (auto simp: binance_names_def binance_peek_symbol_def Let_def intro: upper_of_lower)
  show "okx_peek_symbol J v = Some (to_uppercase (b @ q))" if "okx_names J is_swap (b @ q) v"
    using that okx_symbol_roundtrip [OF assms, of is_swap] c(1)
    by (auto simp: okx_names_def okx_peek_symbol_def)
  show "bingx_peek_symbol J v = Some (to_uppercase (b @ q))" if "bingx_names J (b @ q) v"
    using that bingx_symbol_roundtrip [OF assms] c(1) contains_at [of "bingx_venue_symbol (b @ q)" "''@trade''" "[]"]
    by (simp add: bingx_names_def bingx_peek_symbol_def)
  have q: "q = ''USDT'' \<or> q = ''USDC''" using assms by (simp add: canonical_def)
  define u where "u = (if futures then (if b = ''BTC'' then ''XBT'' else b) @ q @ ''M'' else b @ ''-'' @ q)"
  have "kucoin_venue_symbol futures (b @ q) = Some u"
  proof (cases "q = ''USDT''")
    case True
    then have "ends_with (b @ q) ''USDT''" using c(2) by simp
    then show ?thesis
      unfolding u_def kucoin_venue_symbol_def to_kucoin_symbol_def Let_def c(1)
      using True c(3) by (simp del: append_Cons)
  next
    case False
    then have e: "q = ''USDC''" using q by blast
    then have "\<not> ends_with (b @ q) ''USDT''" "ends_with (b @ q) ''USDC''" using c(2) ends_with_other by simp_all
    then show ?thesis
      unfolding u_def kucoin_venue_symbol_def to_kucoin_symbol_def Let_def c(1)
      using e c(3) by (simp del: append_Cons)
  qed
  moreover have "CHR '':'' \<notin> set u" using c(6) by (simp add: u_def)
  ultimately show "\<exists>u. kucoin_venue_symbol futures (b @ q) = Some u \<and>
         (kucoin_names J futures u v \<longrightarrow> kucoin_peek_symbol J v = Some u)"
    by (intro exI [of _ u] conjI impI) (simp_all add: kucoin_key)
qed

lemma subscription_routes_back_witness:
  "okx_peek_symbol jv_api (JObj [(''arg'', JObj [(''channel'', JStr ''trades''), (''instId'', JStr ''BTC-USDT-SWAP'')])])
     = Some ''BTCUSDT''"
proof -
  have c: "canonical ''BTC'' ''USDT''" by (simp add: canonical_def is_ascii_upper_def chr_code_def)
  have "okx_names jv_api True (''BTC'' @ ''USDT'')
     (JObj [(''arg'', JObj [(''channel'', JStr ''trades''), (''instId'', JStr ''BTC-USDT-SWAP'')])])"
    by code_simp
  then show ?thesis
    using subscription_routes_back [OF c, of jv_api _ True] canonical_split(1) [OF c] by auto
qed

end
