(* ===== verification/Table_Theorems.thy ===== *)
theory Table_Theorems
  imports Store_Theorems Ch_Sink_Theorems
begin

text \<open>
  What a table holds after a writer sent its rows at least once: an insert that failed for the writer
  may have reached the table all the same, in whole or in part, and is sent again with more rows
  behind it. Keys are overwritten by the row inserted last, so the retries leave no trace.
\<close>

section \<open>What an attempt does to the table\<close>

text \<open>The rows an attempt put into the table: all of its batch when it was acknowledged, otherwise any
  of them, in any order.\<close>

definition effect :: "flush_attempt \<Rightarrow> cluster_row list \<Rightarrow> bool" where
  "effect a rows \<longleftrightarrow> (if fa_ok a then rows = fa_rows a else set rows \<subseteq> set (fa_rows a))"

definition of_key :: "row_key \<Rightarrow> cluster_row list \<Rightarrow> cluster_row list" where
  "of_key k rows = filter (\<lambda>r. row_key r = k) rows"

lemma of_key_simps [simp]:
  "of_key k [] = []" "of_key k (xs @ ys) = of_key k xs @ of_key k ys"
  by (simp_all add: of_key_def)

lemma stored_of_key: "stored (of_key k rows) k = stored rows k"
  unfolding of_key_def by (rule stored_filter) simp

lemma stored_None: "of_key k rows = [] \<Longrightarrow> stored rows k = None"
  by (metis stored_of_key stored_Nil)

lemma of_key_subset: "set rows \<subseteq> set batch \<Longrightarrow> of_key k batch = [] \<Longrightarrow> of_key k rows = []"
  by (auto simp: of_key_def filter_empty_conv)

text \<open>As long as no row of a key was dropped, the table agrees with what was acknowledged on the key,
  unless rows of the key are still in the buffer.\<close>

definition replayed :: "row_key \<Rightarrow> cluster_row list \<Rightarrow> writer_state \<Rightarrow> bool" where
  "replayed k ins st \<longleftrightarrow>
     length (of_key k (rows_acked st @ wr_batch st)) \<le> length (of_key k ins) \<and>
     (length (of_key k (rows_acked st @ wr_batch st)) = length (of_key k ins) \<longrightarrow>
        of_key k (rows_acked st @ wr_batch st) = of_key k ins \<and>
        (of_key k (wr_batch st) = [] \<longrightarrow>
           (\<forall>fx. list_all2 effect (wr_attempts st) fx \<longrightarrow> stored (concat fx) k = stored (rows_acked st) k)))"

lemma effects_snoc:
  "list_all2 effect (as @ [a]) fx \<Longrightarrow> \<exists>gx g. fx = gx @ [g] \<and> list_all2 effect as gx \<and> effect a g"
  unfolding list_all2_append1 list_all2_Cons1 by auto

lemma replayed_flush:
  assumes "replayed k ins st"
  shows "replayed k ins (try_flush row_json cfg env st)"
proof -
  define a where "a = \<lparr>fa_start = fe_now env, fa_end = fe_after env, fa_rows = wr_batch st,
    fa_ok = (flush_once row_json cfg (fe_post env) (wr_batch st) = Inr ())\<rparr>"
  let ?st = "try_flush row_json cfg env st"
  have att: "wr_attempts ?st = wr_attempts st @ [a]"
    and batch: "wr_batch ?st = (if fa_ok a then [] else wr_batch st)"
    by (cases "flush_once row_json cfg (fe_post env) (wr_batch st)"; simp add: try_flush_def Let_def a_def)+
  have rows: "fa_rows a = wr_batch st" by (simp add: a_def)
  have acked: "rows_acked ?st = rows_acked st @ (if fa_ok a then wr_batch st else [])"
    by (simp add: rows_acked_def att rows)
  have same: "rows_acked ?st @ wr_batch ?st = rows_acked st @ wr_batch st" by (simp add: acked batch)
  have "stored (concat fx) k = stored (rows_acked ?st) k"
    if effects: "list_all2 effect (wr_attempts ?st) fx" and done_k: "of_key k (wr_batch ?st) = []"
      and full: "length (of_key k (rows_acked st @ wr_batch st)) = length (of_key k ins)" for fx
  proof -
    obtain gx g where fx: "fx = gx @ [g]" and gx: "list_all2 effect (wr_attempts st) gx" and g: "effect a g"
      using effects_snoc [OF effects [unfolded att]] by blast
    show ?thesis
    proof (cases "of_key k (wr_batch st) = []")
      case True
      then have "stored (concat gx) k = stored (rows_acked st) k"
        using assms full gx by (simp add: replayed_def)
      moreover have "stored g k = None" "stored (wr_batch st) k = None"
        using g True of_key_subset [of g "wr_batch st" k] by (auto simp: effect_def rows stored_None split: if_splits)
      ultimately show ?thesis by (simp add: fx stored_append acked map_add_def)
    next
      case False
      then have ok: "fa_ok a" "g = wr_batch st" using done_k g by (auto simp: batch effect_def rows split: if_splits)
      have "k \<in> row_key ` set (wr_batch st)" using False by (auto simp: of_key_def filter_empty_conv)
      then obtain r where "stored (wr_batch st) k = Some r"
        by (cases "stored (wr_batch st) k") (auto simp: stored_def map_of_eq_None_iff image_image)
      then show ?thesis using ok by (simp add: fx stored_append acked map_add_def)
    qed
  qed
  then show ?thesis using assms unfolding replayed_def same by blast
qed

lemma replayed_push:
  assumes "replayed k ins st"
  shows "replayed k (ins @ [row]) (push_row cfg now row st)"
proof -
  let ?st = "push_row cfg now row st" and ?b = "wr_batch st @ [row]"
  define n where "n = (if length ?b > cc_max_buffer_rows cfg then length ?b - cc_max_buffer_rows cfg else 0)"
  have batch: "wr_batch ?st = drop n ?b"
    by (simp add: push_row_def Let_def n_def del: drop_append)
  have att: "wr_attempts ?st = wr_attempts st" "rows_acked ?st = rows_acked st"
    by (simp_all add: push_row_def Let_def rows_acked_def)
  have split: "of_key k ?b = of_key k (take n ?b) @ of_key k (drop n ?b)"
    by (metis append_take_drop_id of_key_simps(2))
  have le: "length (of_key k (rows_acked st)) + length (of_key k ?b) \<le> length (of_key k (ins @ [row]))"
    using assms by (simp add: replayed_def)
  show ?thesis
  proof (cases "of_key k (take n ?b) = [] \<and>
      length (of_key k (rows_acked st)) + length (of_key k ?b) = length (of_key k (ins @ [row]))")
    case True
    then have kept: "of_key k (drop n ?b) = of_key k ?b" using split by simp
    have len: "length (of_key k (rows_acked st @ wr_batch st)) = length (of_key k ins)"
      using True by simp
    show ?thesis using assms len kept unfolding replayed_def batch att by simp
  next
    case False
    have "length (of_key k ?b) = length (of_key k (take n ?b)) + length (of_key k (drop n ?b))"
      using split by (metis length_append)
    then have "length (of_key k (rows_acked st)) + length (of_key k (drop n ?b)) < length (of_key k (ins @ [row]))"
      using False le unfolding length_0_conv [symmetric] by linarith
    then have "length (of_key k (rows_acked ?st @ wr_batch ?st)) < length (of_key k (ins @ [row]))"
      by (simp only: batch att of_key_simps(2) length_append)
    then show ?thesis by (simp add: replayed_def)
  qed
qed

lemma replayed_step:
  assumes "replayed k ins st"
  shows "replayed k (ins @ rows_in [e]) (writer_step row_json cfg st e)"
proof (cases e)
  case (RowReceived r now env)
  then show ?thesis
    using replayed_push [OF assms, of r cfg now]
      replayed_flush [of k "ins @ [r]" "push_row cfg now r st" row_json cfg env]
    by (simp add: Let_def)
qed (use assms replayed_flush in \<open>auto simp: Let_def\<close>)

lemma replayed_run:
  "replayed k ins st \<Longrightarrow> replayed k (ins @ rows_in es) (writer_run row_json cfg st es)"
proof (induction es arbitrary: ins st)
  case (Cons e es)
  show ?case
  proof (cases e)
    case (RowReceived r now env)
    then show ?thesis
      using Cons.IH [OF replayed_step [OF Cons.prems, of e row_json cfg]] by simp
  next
    case (RowsClosed env)
    then show ?thesis using replayed_flush [OF Cons.prems] Cons.prems by simp
  next
    case (FlushTick env)
    then show ?thesis
      using Cons.IH [OF replayed_flush [OF Cons.prems]] Cons.IH [OF Cons.prems] by simp
  qed
qed simp

lemma replayed_start: "replayed k [] (writer_start cfg now)"
  by (simp add: replayed_def writer_start_def rows_acked_def)

text \<open>What a table holds under a key after a run that had every row of the key acknowledged.\<close>

lemma table_after_run:
  assumes "list_all2 effect (wr_attempts (writer_run row_json cfg (writer_start cfg now) es)) fx"
    and "of_key k (rows_acked (writer_run row_json cfg (writer_start cfg now) es)) = of_key k (rows_in es)"
  shows "stored (concat fx) k = stored (rows_in es) k"
proof -
  let ?st = "writer_run row_json cfg (writer_start cfg now) es"
  have r: "replayed k (rows_in es) ?st"
    using replayed_run [OF replayed_start, where es = es and row_json = row_json and cfg = cfg] by simp
  have "of_key k (wr_batch ?st) = []" using r assms(2) by (simp add: replayed_def)
  then have "stored (concat fx) k = stored (rows_acked ?st) k"
    using r assms by (simp add: replayed_def)
  also have "\<dots> = stored (rows_in es) k" by (metis stored_of_key assms(2))
  finally show ?thesis .
qed

section \<open>Theorems\<close>

text \<open>C34: Sending rows again does no harm: whatever part of the batches whose insert failed for the
  writer reached the table all the same, once every row of a key has been acknowledged the table
  holds under the key the last row the writer was given for it, as if each row had been inserted
  exactly once and in order.\<close>

theorem retries_idempotent:
  fixes cfg :: ch_writer_config and row_json :: "cluster_row \<Rightarrow> string + string" and now :: nat
  defines "st es \<equiv> writer_run row_json cfg (writer_start cfg now) es"
  assumes "list_all2 effect (wr_attempts (st es)) fx"
    and "of_key k (rows_acked (st es)) = of_key k (rows_in es)"
  shows "stored (concat fx) k = stored (rows_in es) k"
  using table_after_run assms by metis

section \<open>Witnesses\<close>

text \<open>The first insert times out, having written its second row only; the second one succeeds.\<close>

definition retried_feed :: "writer_event list" where
  "retried_feed = [RowReceived (sample_row 1) 0 (env_at True 0),
     RowReceived ((sample_row 1)\<lparr>cr_trades := 4\<rparr>) 1 (env_at False 1), FlushTick (env_at True 4007)]"

lemma retried_run:
  "wr_attempts (writer_run sample_json sample_cfg (writer_start sample_cfg 0) retried_feed) =
     [\<lparr>fa_start = 1, fa_end = 6, fa_rows = [sample_row 1, (sample_row 1)\<lparr>cr_trades := 4\<rparr>], fa_ok = False\<rparr>,
      \<lparr>fa_start = 4007, fa_end = 4012, fa_rows = [sample_row 1, (sample_row 1)\<lparr>cr_trades := 4\<rparr>], fa_ok = True\<rparr>]"
  by (simp add: retried_feed_def env_at_def sample_cfg_def ch_writer_config_default_def writer_start_def
      push_row_def try_flush_def flush_once_def serialize_jsoneachrow_def sample_json_def backoff_max_def Let_def)

lemma retries_idempotent_witness:
  "stored (concat [[(sample_row 1)\<lparr>cr_trades := 4\<rparr>], [sample_row 1, (sample_row 1)\<lparr>cr_trades := 4\<rparr>]])
     (row_key (sample_row 1)) = stored (rows_in retried_feed) (row_key (sample_row 1))"
  by (rule retries_idempotent [where row_json = sample_json and cfg = sample_cfg and now = 0])
    (simp_all add: retried_run effect_def rows_acked_def, simp_all add: retried_feed_def)

end
