(* ===== verification/Supervisor_Theorems.thy ===== *)
theory Supervisor_Theorems
  imports Supervisor Adapter_Common
begin

text \<open>
  What the supervisor of an exchange guarantees: the symbols it runs are the wanted ones, routes
  are published exactly when they change, no instrument can stop it from starting, the reconnect
  pauses double up to their bound; and why a shutdown with running symbols never ends.
\<close>

section \<open>Ranking\<close>

lemma set_insert_desc [simp]: "set (insert_desc key x xs) = insert x (set xs)"
  by (induction xs) auto

lemma length_insert_desc [simp]: "length (insert_desc key x xs) = Suc (length xs)"
  by (induction xs) auto

lemma sorted_insert_desc:
  "sorted_wrt (\<lambda>a b. key b \<le> key a) xs \<Longrightarrow> sorted_wrt (\<lambda>a b. key b \<le> key a) (insert_desc key x xs)"
  by (induction xs) (auto intro: order_trans)

lemma set_sort_desc [simp]: "set (sort_desc key xs) = set xs"
  and length_sort_desc [simp]: "length (sort_desc key xs) = length xs"
  and sorted_sort_desc: "sorted_wrt (\<lambda>a b. key b \<le> key a) (sort_desc key xs)"
  by (induction xs) (auto simp: sort_desc_def sorted_insert_desc)

lemma distinct_insert_desc: "distinct (insert_desc key x xs) \<longleftrightarrow> x \<notin> set xs \<and> distinct xs"
  by (induction xs) auto

lemma distinct_sort_desc [simp]: "distinct (sort_desc key xs) = distinct xs"
  by (induction xs) (auto simp: sort_desc_def distinct_insert_desc set_sort_desc [unfolded sort_desc_def])

lemma sorted_wrt_take_drop:
  "sorted_wrt P xs \<Longrightarrow> x \<in> set (take n xs) \<Longrightarrow> y \<in> set (drop n xs) \<Longrightarrow> P x y"
  by (metis append_take_drop_id sorted_wrt_append)

lemma set_rank_specs [simp]: "set (rank_specs z cfg ranker specs) = set specs"
  and length_rank_specs [simp]: "length (rank_specs z cfg ranker specs) = length specs"
  by (simp_all add: rank_specs_def split: rank_by.split option.split sum.split)

section \<open>Keys and handles\<close>

lemma map_of_fold_delete:
  "map_of (fold AList.delete ks al) k = (if k \<in> set ks then None else map_of al k)"
  by (induction ks arbitrary: al) (auto simp: delete_conv')

lemma set_fold_delete: "set (fold AList.delete ks al) = {p \<in> set al. fst p \<notin> set ks}"
  by (induction ks arbitrary: al) (auto simp: AList.delete_eq)

lemma distinct_fold_delete:
  "distinct (map f al) \<Longrightarrow> distinct (map f (fold AList.delete ks al))"
proof (induction ks arbitrary: al)
  case (Cons k ks)
  have "distinct (map f (AList.delete k al))"
    using Cons.prems by (simp add: AList.delete_eq distinct_map_filter)
  then show ?case using Cons.IH by simp
qed simp

lemma fold_delete_id: "(\<forall>k \<in> set ks. k \<notin> fst ` set al) \<Longrightarrow> fold AList.delete ks al = al"
  by (induction ks) (auto simp: delete_id)

text \<open>The tasks a cycle aborts, by the symbols it removes.\<close>

fun aborts :: "(symbol_key \<times> symbol_handle) list \<Rightarrow> symbol_key list \<Rightarrow> (nat \<times> stream_key) list" where
  "aborts hs [] = []"
| "aborts hs (k # ks) =
     (case map_of hs k of None \<Rightarrow> [] | Some sh \<Rightarrow> fanout_tasks sh) @ aborts (AList.delete k hs) ks"

lemma fold_remove_symbol:
  "fold remove_symbol ks sv =
     sv\<lparr>sv_handles := fold AList.delete ks (sv_handles sv), sv_aborted := sv_aborted sv @ aborts (sv_handles sv) ks\<rparr>"
proof (induction ks arbitrary: sv)
  case (Cons k ks)
  show ?case
  proof (cases "map_of (sv_handles sv) k")
    case None
    then have "AList.delete k (sv_handles sv) = sv_handles sv" by (simp add: delete_id map_of_eq_None_iff)
    moreover have "remove_symbol k sv = sv" using None by (simp add: remove_symbol_def)
    ultimately show ?thesis using None by (simp add: Cons.IH)
  next
    case (Some sh)
    then have "remove_symbol k sv = sv\<lparr>sv_handles := AList.delete k (sv_handles sv),
        sv_aborted := sv_aborted sv @ fanout_tasks sh\<rparr>"
      by (simp add: remove_symbol_def)
    then show ?thesis using Some by (simp add: Cons.IH)
  qed
qed simp

lemma set_aborts:
  "set (aborts hs ks) = {t. \<exists>k \<in> set ks. \<exists>sh. map_of hs k = Some sh \<and> t \<in> set (fanout_tasks sh)}"
proof (induction hs ks rule: aborts.induct)
  case (2 hs k ks)
  show ?case by (cases "map_of hs k") (auto simp: 2 delete_conv' split: if_splits, (metis option.distinct(1) option.inject)+)
qed simp

text \<open>What every cycle keeps: one handle per symbol under the symbol's own key, a trade channel of
  its own, routes that are the handles, and no aborted task among those of a running symbol.\<close>

definition sup_inv :: "'ch supervisor \<Rightarrow> bool" where
  "sup_inv sv \<longleftrightarrow>
     distinct (map fst (sv_handles sv)) \<and>
     list_all (\<lambda>(k, sh). spec_key (sh_spec sh) = k \<and> sh_trade_tx sh < sv_next_channel sv) (sv_handles sv) \<and>
     distinct (map (\<lambda>(_, sh). sh_trade_tx sh) (sv_handles sv)) \<and>
     list_all (\<lambda>(c, _). c < sv_next_channel sv \<and> c \<notin> (\<lambda>(_, sh). sh_trade_tx sh) ` set (sv_handles sv))
       (sv_aborted sv) \<and>
     sv_routes sv = route_list (sv_handles sv)"

text \<open>The part of it that holds inside a cycle, before the routes are published.\<close>

definition handles_ok ::
  "(symbol_key \<times> symbol_handle) list \<Rightarrow> nat \<Rightarrow> (nat \<times> stream_key) list \<Rightarrow> bool" where
  "handles_ok hs n ab \<longleftrightarrow>
     distinct (map fst hs) \<and>
     list_all (\<lambda>(k, sh). spec_key (sh_spec sh) = k \<and> sh_trade_tx sh < n) hs \<and>
     distinct (map (\<lambda>(_, sh). sh_trade_tx sh) hs) \<and>
     list_all (\<lambda>(c, _). c < n \<and> c \<notin> (\<lambda>(_, sh). sh_trade_tx sh) ` set hs) ab"

lemma sup_inv_handles: "sup_inv sv \<longleftrightarrow>
  handles_ok (sv_handles sv) (sv_next_channel sv) (sv_aborted sv) \<and> sv_routes sv = route_list (sv_handles sv)"
  by (simp add: sup_inv_def handles_ok_def)

lemma sup_inv_new: "sup_inv (supervisor_new ex mt bus region icfg cfg writers)"
  by (simp add: sup_inv_def supervisor_new_def route_list_def)

lemma distinct_map_inj: "distinct (map f xs) \<Longrightarrow> x \<in> set xs \<Longrightarrow> y \<in> set xs \<Longrightarrow> f x = f y \<Longrightarrow> x = y"
  by (metis distinct_map inj_onD)

lemma handles_ok_remove:
  assumes "handles_ok hs n ab" "map_of hs k = Some sh"
  shows "handles_ok (AList.delete k hs) n (ab @ fanout_tasks sh)"
proof -
  have sh: "(k, sh) \<in> set hs" using assms(2) by (rule map_of_SomeD)
  have "sh_trade_tx sh' \<noteq> sh_trade_tx sh" if "(k', sh') \<in> set hs" "k' \<noteq> k" for k' sh'
    using distinct_map_inj [of "\<lambda>(_, sh). sh_trade_tx sh" hs "(k', sh')" "(k, sh)"] assms(1) sh that
    by (auto simp: handles_ok_def)
  then have "list_all (\<lambda>(c, _). c < n \<and> c \<notin> (\<lambda>(_, sh). sh_trade_tx sh) ` set (AList.delete k hs)) (fanout_tasks sh)"
    using assms(1) sh by (fastforce simp: handles_ok_def fanout_tasks_def list_all_iff AList.delete_eq)
  moreover have "list_all (\<lambda>(c, _). c < n \<and> c \<notin> (\<lambda>(_, sh). sh_trade_tx sh) ` set (AList.delete k hs)) ab"
    using assms(1) by (fastforce simp: handles_ok_def list_all_iff AList.delete_eq)
  moreover have "list_all (\<lambda>(k, sh). spec_key (sh_spec sh) = k \<and> sh_trade_tx sh < n) (AList.delete k hs)"
    using assms(1) by (simp add: handles_ok_def list_all_iff AList.delete_eq)
  ultimately show ?thesis
    using assms(1) distinct_fold_delete [of fst hs "[k]"] distinct_fold_delete [of "\<lambda>(_, sh). sh_trade_tx sh" hs "[k]"]
    by (simp add: handles_ok_def)
qed

lemma handles_ok_aborts:
  "handles_ok hs n ab \<Longrightarrow> handles_ok (fold AList.delete ks hs) n (ab @ aborts hs ks)"
proof (induction ks arbitrary: hs ab)
  case (Cons k ks)
  show ?case
  proof (cases "map_of hs k")
    case None
    then have "AList.delete k hs = hs" by (simp add: delete_id map_of_eq_None_iff)
    then show ?thesis using Cons None by simp
  next
    case (Some sh)
    then show ?thesis using Cons.IH [OF handles_ok_remove [OF Cons.prems Some]] by simp
  qed
qed simp

lemma update_new: "k \<notin> fst ` set al \<Longrightarrow> AList.update k v al = al @ [(k, v)]"
  by (induction al) auto

lemma handles_ok_add:
  assumes "handles_ok hs n ab" and "k \<notin> fst ` set hs" and "spec_key (sh_spec sh) = k" and "sh_trade_tx sh = n"
  shows "handles_ok (AList.update k sh hs) (Suc n) ab"
  using assms by (fastforce simp: handles_ok_def update_new list_all_iff)

section \<open>Starting symbols\<close>

text \<open>What no operation of a supervisor changes.\<close>

definition settings ::
  "'ch supervisor \<Rightarrow> exchange \<times> market_type \<times> string \<times> ingest_config \<times> perp_config \<times> nat list" where
  "settings sv = (sv_exchange sv, sv_market_type sv, sv_region sv, sv_ingest sv, sv_cfg sv, sv_writers sv)"

lemma settings_update [simp]:
  "settings (sv\<lparr>sv_handles := hs\<rparr>) = settings sv"
  "settings (sv\<lparr>sv_handles := hs, sv_aborted := ab\<rparr>) = settings sv"
  "settings (sv\<lparr>sv_routes := rs, sv_routes_version := v\<rparr>) = settings sv"
  "settings (sv\<lparr>sv_bus := b, sv_next_channel := n\<rparr>) = settings sv"
  by (simp_all add: settings_def)

lemma settings_eqD:
  assumes "settings sv = settings sv'"
  shows "sv_ingest sv = sv_ingest sv'" "sv_writers sv = sv_writers sv'" "sv_cfg sv = sv_cfg sv'"
  using assms by (simp_all add: settings_def)

lemma wanted_symbols_settings:
  "settings sv = settings sv' \<Longrightarrow> wanted_symbols z ranker sv = wanted_symbols z ranker sv'"
  by (intro ext) (simp add: settings_def wanted_symbols_def)

lemma spawn_symbol_result:
  assumes "spawn_symbol B sv spec = Some (sv1, h)"
  shows "sh_spec h = spec \<and> sh_trade_tx h = sv_next_channel sv \<and> sv_handles sv1 = sv_handles sv
    \<and> sv_next_channel sv1 = Suc (sv_next_channel sv) \<and> sv_routes sv1 = sv_routes sv
    \<and> sv_routes_version sv1 = sv_routes_version sv \<and> sv_aborted sv1 = sv_aborted sv
    \<and> settings sv1 = settings sv"
  using assms by (auto simp: spawn_symbol_def bind_eq_Some_conv split: if_splits)

lemma add_symbols_result:
  assumes "add_symbols B sv n specs = Some (sv', m)"
    and "handles_ok (sv_handles sv) (sv_next_channel sv) (sv_aborted sv)"
  shows "handles_ok (sv_handles sv') (sv_next_channel sv') (sv_aborted sv')
    \<and> sv_aborted sv' = sv_aborted sv
    \<and> fst ` set (sv_handles sv') = fst ` set (sv_handles sv) \<union> spec_key ` set specs
    \<and> (\<forall>k h. map_of (sv_handles sv) k = Some h \<longrightarrow> map_of (sv_handles sv') k = Some h)
    \<and> sv_routes sv' = sv_routes sv \<and> sv_routes_version sv' = sv_routes_version sv
    \<and> settings sv' = settings sv
    \<and> n \<le> m \<and> (m = n \<longrightarrow> sv_handles sv' = sv_handles sv)
    \<and> (n < m \<longrightarrow> \<not> spec_key ` set specs \<subseteq> fst ` set (sv_handles sv))"
  using assms
proof (induction specs arbitrary: sv n)
  case (Cons spec specs)
  show ?case
  proof (cases "map_of (sv_handles sv) (spec_key spec) = None")
    case False
    then have in': "spec_key spec \<in> fst ` set (sv_handles sv)" by (simp add: map_of_eq_None_iff)
    have "add_symbols B sv n specs = Some (sv', m)" using Cons.prems(1) False by (simp add: Let_def)
    from Cons.IH [OF this Cons.prems(2)] in' show ?thesis by auto
  next
    case True
    then obtain sv1 h where sp: "spawn_symbol B sv spec = Some (sv1, h)"
      using Cons.prems(1) by (auto simp: bind_eq_Some_conv)
    let ?sv2 = "sv1\<lparr>sv_handles := AList.update (spec_key spec) h (sv_handles sv1)\<rparr>"
    have *: "add_symbols B ?sv2 (Suc n) specs = Some (sv', m)" using Cons.prems(1) True sp by simp
    note r = spawn_symbol_result [OF sp]
    have new: "spec_key spec \<notin> fst ` set (sv_handles sv)" using True by (simp add: map_of_eq_None_iff)
    have "handles_ok (sv_handles ?sv2) (sv_next_channel ?sv2) (sv_aborted ?sv2)"
      using handles_ok_add [OF Cons.prems(2) new] r by simp
    note IH = Cons.IH [OF * this]
    have "map_of (sv_handles sv') k = Some v" if "map_of (sv_handles sv) k = Some v" for k v
    proof -
      have "k \<noteq> spec_key spec" using True that by auto
      then have "map_of (sv_handles ?sv2) k = Some v" using r that by (simp add: update_conv')
      then show ?thesis using IH by blast
    qed
    moreover have "\<not> spec_key ` set (spec # specs) \<subseteq> fst ` set (sv_handles sv)" using new by simp
    ultimately show ?thesis using IH r by (auto simp del: image_subset_iff simp: dom_update image_Un)
  qed
qed simp

section \<open>Which symbols run\<close>

lemma reconcile_Some:
  "reconcile_once B z fetched ranker sv = Some (sv', r) \<longleftrightarrow>
     (case fetched of
        Inl e \<Rightarrow> sv' = sv \<and> r = Inl (''fetch_symbols: '' @ exchange_error_display e)
      | Inr specs \<Rightarrow> r = Inr () \<and>
          (\<exists>sv2 added.
             let wanted = wanted_symbols z ranker sv specs;
                 gone = filter (\<lambda>k. k \<notin> spec_key ` set wanted) (map fst (sv_handles sv)) in
             add_symbols B (fold remove_symbol gone sv) 0 wanted
               = Some (sv2, added)
             \<and> sv' = (if gone \<noteq> [] \<or> added > 0
                    then sv2\<lparr>sv_routes := route_list (sv_handles sv2),
                             sv_routes_version := sv_routes_version sv2 + 1\<rparr>
                    else sv2)))"
  by (cases fetched) (auto simp: reconcile_once_def Let_def bind_eq_Some_conv)

lemma handles_gone:
  "map_of (fold AList.delete (filter (\<lambda>k. k \<notin> K) (map fst hs)) hs) k =
     (if k \<in> K then map_of hs k else None)"
  by (auto simp: map_of_fold_delete map_of_eq_None_iff)

lemma keys_gone:
  "fst ` set (fold AList.delete (filter (\<lambda>k. k \<notin> K) (map fst hs)) hs) = fst ` set hs \<inter> K"
  by (force simp: set_fold_delete)

lemma reconcile_tracks:
  assumes "sup_inv sv" and "reconcile_once B z fetched ranker sv = Some (sv', r)"
  shows "sup_inv sv' \<and> settings sv' = settings sv \<and>
    (case fetched of
       Inl e \<Rightarrow> sv' = sv \<and> isl r
     | Inr specs \<Rightarrow>
         r = Inr () \<and>
         sv_routes_version sv' = sv_routes_version sv +
           (if fst ` set (sv_handles sv) = spec_key ` set (wanted_symbols z ranker sv specs) then 0 else 1) \<and>
         fst ` set (sv_handles sv') = spec_key ` set (wanted_symbols z ranker sv specs) \<and>
         (\<forall>k \<in> spec_key ` set (wanted_symbols z ranker sv specs).
            \<forall>h. map_of (sv_handles sv) k = Some h \<longrightarrow> map_of (sv_handles sv') k = Some h) \<and>
         set (sv_aborted sv') = set (sv_aborted sv) \<union>
           (\<Union>(k, sh) \<in> {p \<in> set (sv_handles sv). fst p \<notin> spec_key ` set (wanted_symbols z ranker sv specs)}.
              set (fanout_tasks sh)))"
proof (cases fetched)
  case (Inl e)
  then show ?thesis using assms by (simp add: reconcile_Some)
next
  case (Inr specs)
  define W where "W = wanted_symbols z ranker sv specs"
  define gone where "gone = filter (\<lambda>k. k \<notin> spec_key ` set W) (map fst (sv_handles sv))"
  define sv1 where "sv1 = fold remove_symbol gone sv"
  have s1: "sv_handles sv1 = fold AList.delete gone (sv_handles sv)"
      "sv_aborted sv1 = sv_aborted sv @ aborts (sv_handles sv) gone"
      "sv_next_channel sv1 = sv_next_channel sv" "sv_routes sv1 = sv_routes sv"
      "sv_routes_version sv1 = sv_routes_version sv" "settings sv1 = settings sv"
    by (simp_all add: sv1_def fold_remove_symbol)
  obtain sv2 added where add: "add_symbols B sv1 0 W = Some (sv2, added)" and r: "r = Inr ()"
    and sv': "sv' = (if gone \<noteq> [] \<or> added > 0
                     then sv2\<lparr>sv_routes := route_list (sv_handles sv2),
                              sv_routes_version := sv_routes_version sv2 + 1\<rparr> else sv2)"
    using assms(2) Inr by (auto simp: reconcile_Some Let_def W_def gone_def sv1_def)
  have ok1: "handles_ok (sv_handles sv1) (sv_next_channel sv1) (sv_aborted sv1)"
    using assms(1) by (simp add: s1 sup_inv_handles handles_ok_aborts)
  note res = add_symbols_result [OF add ok1]
  have ok2: "handles_ok (sv_handles sv2) (sv_next_channel sv2) (sv_aborted sv2)" using res by blast
  have h': "sv_handles sv' = sv_handles sv2" and n': "sv_next_channel sv' = sv_next_channel sv2"
    and ab': "sv_aborted sv' = sv_aborted sv2"
    using sv' by simp_all
  have routes: "sv_routes sv' = route_list (sv_handles sv2)"
    using sv' res assms(1) by (cases "gone = [] \<and> added = 0") (auto simp: s1 sup_inv_handles)
  have keys: "fst ` set (sv_handles sv1) = fst ` set (sv_handles sv) \<inter> spec_key ` set W"
    unfolding s1 gone_def by (simp add: keys_gone)
  have kept: "map_of (sv_handles sv1) k = map_of (sv_handles sv) k" if "k \<in> spec_key ` set W" for k
    using that unfolding s1 gone_def by (simp add: handles_gone)
  have gone: "gone = [] \<longleftrightarrow> fst ` set (sv_handles sv) \<subseteq> spec_key ` set W"
    by (force simp: gone_def filter_empty_conv)
  have idle: "gone = [] \<and> added = 0 \<longleftrightarrow> fst ` set (sv_handles sv) = spec_key ` set W"
  proof -
    have "added = 0 \<longleftrightarrow> spec_key ` set W \<subseteq> fst ` set (sv_handles sv1)"
      using res by (metis Un_upper2 gr0I less_irrefl)
    then show ?thesis using gone unfolding keys by blast
  qed
  have version: "sv_routes_version sv' = sv_routes_version sv +
      (if fst ` set (sv_handles sv) = spec_key ` set W then 0 else 1)"
    using sv' res by (simp add: idle [symmetric] s1)
  have aborted: "set (sv_aborted sv') = set (sv_aborted sv) \<union>
      (\<Union>(k, sh) \<in> {p \<in> set (sv_handles sv). fst p \<notin> spec_key ` set W}. set (fanout_tasks sh))"
  proof -
    have "map_of (sv_handles sv) k = Some sh \<longleftrightarrow> (k, sh) \<in> set (sv_handles sv)" for k sh
      using assms(1) by (simp add: sup_inv_def)
    then have "set (aborts (sv_handles sv) gone) =
        (\<Union>(k, sh) \<in> {p \<in> set (sv_handles sv). fst p \<notin> spec_key ` set W}. set (fanout_tasks sh))"
      by (force simp: set_aborts gone_def)
    then show ?thesis using res by (simp add: ab' s1)
  qed
  have "settings sv2 = settings sv" using res by (simp add: s1)
  then have "settings sv' = settings sv" using sv' by simp
  then show ?thesis
    using version res routes keys kept r Inr aborted ok2
    by (simp add: sup_inv_handles h' n' ab' W_def [symmetric])
qed

text \<open>
  C6: after a discovery cycle the symbols that have tasks are exactly the wanted ones, a symbol that
  was running and is still wanted keeps its very tasks and channel, the handles stay one per symbol
  under its own key with a channel of its own, and the routes the session reads are the handles; the
  tasks from the hub to the writers that are aborted are those of the symbols that stop, never one
  of a running symbol; a failed listing changes nothing.
\<close>

theorem reconcile_tracks_listing:
  assumes "sup_inv sv" and "reconcile_once B z fetched ranker sv = Some (sv', r)"
  shows "sup_inv sv' \<and>
    (case fetched of
       Inl e \<Rightarrow> sv' = sv \<and> isl r
     | Inr specs \<Rightarrow>
         r = Inr () \<and>
         fst ` set (sv_handles sv') = spec_key ` set (wanted_symbols z ranker sv specs) \<and>
         (\<forall>k \<in> spec_key ` set (wanted_symbols z ranker sv specs).
            \<forall>h. map_of (sv_handles sv) k = Some h \<longrightarrow> map_of (sv_handles sv') k = Some h) \<and>
         set (sv_aborted sv') = set (sv_aborted sv) \<union>
           (\<Union>(k, sh) \<in> {p \<in> set (sv_handles sv). fst p \<notin> spec_key ` set (wanted_symbols z ranker sv specs)}.
              set (fanout_tasks sh)))"
proof (cases fetched)
  case (Inl e)
  then show ?thesis using reconcile_tracks [OF assms] by auto
next
  case (Inr specs)
  then show ?thesis using reconcile_tracks [OF assms] by simp
qed

text \<open>
  C32: what a cycle wants passed every filter of the configuration, is at most \<open>top_n\<close> symbols of
  the filtered listing, and when symbols are ranked by volume no symbol left out traded more than a
  chosen one.
\<close>

theorem wanted_symbols_largest:
  assumes "pc_rank_by (sv_cfg sv) = Volume24h"
  shows "set (wanted_symbols z (Some (Inr volumes)) sv specs) \<subseteq>
      {s \<in> set specs. sp_exchange s = sv_exchange sv \<and> sp_market_type s = sv_market_type sv
         \<and> sp_quote s \<in> set (wanted_quotes (pc_include_quotes (sv_cfg sv)))
         \<and> sp_symbol s \<notin> set (pc_deny (sv_cfg sv))
         \<and> (pc_allow (sv_cfg sv) = [] \<or> sp_symbol s \<in> set (pc_allow (sv_cfg sv)))}
    \<and> length (wanted_symbols z (Some (Inr volumes)) sv specs) =
        (let m = length (filter_symbols specs (sv_cfg sv) (sv_exchange sv) (sv_market_type sv))
         in case pc_top_n (sv_cfg sv) of None \<Rightarrow> m | Some n \<Rightarrow> min n m)
    \<and> (\<forall>s \<in> set (wanted_symbols z (Some (Inr volumes)) sv specs).
        \<forall>t \<in> set (filter_symbols specs (sv_cfg sv) (sv_exchange sv) (sv_market_type sv)).
          t \<in> set (wanted_symbols z (Some (Inr volumes)) sv specs) \<or>
          (case map_of volumes (sp_symbol t) of None \<Rightarrow> z | Some v \<Rightarrow> v)
            \<le> (case map_of volumes (sp_symbol s) of None \<Rightarrow> z | Some v \<Rightarrow> v))"
proof -
  define key where "key = (\<lambda>s :: symbol_spec. case map_of volumes (sp_symbol s) of None \<Rightarrow> z | Some v \<Rightarrow> v)"
  define F where "F = filter_symbols specs (sv_cfg sv) (sv_exchange sv) (sv_market_type sv)"
  have W: "wanted_symbols z (Some (Inr volumes)) sv specs =
     (case pc_top_n (sv_cfg sv) of Some n \<Rightarrow> take n (sort_desc key F) | None \<Rightarrow> sort_desc key F)"
    using assms by (simp add: wanted_symbols_def rank_specs_def key_def F_def Let_def split: option.split)
  have sub: "set (wanted_symbols z (Some (Inr volumes)) sv specs) \<subseteq> set F"
    by (auto simp: W split: option.splits dest: in_set_takeD)
  have F: "set F \<subseteq> {s \<in> set specs. sp_exchange s = sv_exchange sv \<and> sp_market_type s = sv_market_type sv
         \<and> sp_quote s \<in> set (wanted_quotes (pc_include_quotes (sv_cfg sv)))
         \<and> sp_symbol s \<notin> set (pc_deny (sv_cfg sv))
         \<and> (pc_allow (sv_cfg sv) = [] \<or> sp_symbol s \<in> set (pc_allow (sv_cfg sv)))}"
    by (auto simp: F_def filter_symbols_def Let_def split: if_splits option.splits)
  have less: "t \<in> set (wanted_symbols z (Some (Inr volumes)) sv specs) \<or> key t \<le> key s"
    if "s \<in> set (wanted_symbols z (Some (Inr volumes)) sv specs)" and "t \<in> set F" for s t
  proof (cases "pc_top_n (sv_cfg sv)")
    case None
    then show ?thesis using that by (simp add: W)
  next
    case (Some n)
    have "t \<in> set (take n (sort_desc key F)) \<or> t \<in> set (drop n (sort_desc key F))"
      using that(2) by (metis Un_iff append_take_drop_id set_append set_sort_desc)
    then show ?thesis
      using sorted_wrt_take_drop [OF sorted_sort_desc, of s n key F t] that(1) Some by (auto simp: W)
  qed
  show ?thesis
    using sub F less by (auto simp: W F_def [symmetric] key_def Let_def split: option.split)
qed

section \<open>No symbol stops the supervisor\<close>

text \<open>One aggregator per timeframe, under the stream of that timeframe, with its window and tick.\<close>

definition aggs_paired :: "nat list \<Rightarrow> symbol_spec \<Rightarrow> (stream_key \<times> aggregator) list \<Rightarrow> bool" where
  "aggs_paired tfs spec aggs \<longleftrightarrow>
     map fst aggs = map (stream_key_new (spec_key spec)) tfs \<and>
     list_all (\<lambda>(k, a). ag_window_ns a = int (st_interval_seconds k) * 1000000000
       \<and> ag_bucket_step a = sp_tick_size spec \<and> ag_key a = spec_key spec) aggs"

definition handles_paired :: "'ch supervisor \<Rightarrow> bool" where
  "handles_paired sv \<longleftrightarrow>
     list_all (\<lambda>(_, sh). aggs_paired (ic_timeframes_secs (sv_ingest sv)) (sh_spec sh) (sh_aggregators sh)
        \<and> sh_ch_fanouts sh = map fst (sh_aggregators sh)) (sv_handles sv)"

definition spawnable :: "ingest_config \<Rightarrow> nat list \<Rightarrow> nat list \<Rightarrow> bool" where
  "spawnable icfg writers tfs \<longleftrightarrow>
     0 < ic_diff_interval_ms icfg \<and> channel_bound_ok (ic_trade_channel_bound icfg) \<and>
     list_all (\<lambda>tf. 0 < tf \<and> tf \<le> u32_max \<and> tf \<in> set writers) tfs"

lemma validate_timeframes_loop_ok:
  "validate_timeframes_loop seen tfs = Inr () \<longleftrightarrow>
     list_all (\<lambda>tf. 30 \<le> tf) tfs \<and> distinct tfs \<and> set tfs \<inter> set seen = {}"
  by (induction tfs arbitrary: seen) auto

lemma validate_timeframes_ok:
  "validate_timeframes c = Inr () \<longleftrightarrow>
     ic_timeframes_secs c \<noteq> [] \<and> list_all (\<lambda>tf. 30 \<le> tf) (ic_timeframes_secs c)
     \<and> distinct (ic_timeframes_secs c)"
  by (simp add: validate_timeframes_def validate_timeframes_loop_ok)

lemma spawn_timeframes_total:
  assumes "spawnable icfg writers tfs" and "0 < sp_tick_size spec"
  shows "\<exists>bus' aggs. spawn_timeframes B icfg writers spec bus tfs = Some (bus', aggs)
     \<and> aggs_paired tfs spec aggs"
  using assms(1)
proof (induction tfs arbitrary: bus)
  case Nil
  then show ?case by (simp add: aggs_paired_def)
next
  case (Cons tf tfs)
  have tf: "0 < tf" "tf \<le> u32_max" "tf \<in> set writers"
    and c: "0 < ic_diff_interval_ms icfg" "channel_bound_ok (ic_trade_channel_bound icfg)"
    and sp: "spawnable icfg writers tfs"
    using Cons.prems by (auto simp: spawnable_def)
  have le: "int tf \<le> 4294967295" using tf(2) by (simp add: u32_max_def)
  have w1: "wrap_i64 (int tf * 1000) = int tf * 1000" and
    w2: "wrap_i64 (1000000000 * int tf) = int tf * 1000000000"
    using le by (simp_all add: in_i64_def mult.commute)
  obtain bus' aggs where "spawn_timeframes B icfg writers spec
       (fst (subscribe B bus (stream_key_new (spec_key spec) tf))) tfs = Some (bus', aggs)"
     "aggs_paired tfs spec aggs"
    using Cons.IH [OF sp] by blast
  then show ?case
    using tf c assms(2) by (simp add: Let_def aggregator_new_def w1 w2 aggs_paired_def stream_key_new_def)
qed

lemma spawn_symbol_total:
  assumes "spawnable (sv_ingest sv) (sv_writers sv) (ic_timeframes_secs (sv_ingest sv))"
    and "0 < sp_tick_size spec"
  shows "\<exists>sv1 h. spawn_symbol B sv spec = Some (sv1, h)
     \<and> aggs_paired (ic_timeframes_secs (sv_ingest sv)) spec (sh_aggregators h)
     \<and> sh_ch_fanouts h = map fst (sh_aggregators h)"
proof -
  obtain bus' aggs where "spawn_timeframes B (sv_ingest sv) (sv_writers sv) spec (sv_bus sv)
      (ic_timeframes_secs (sv_ingest sv)) = Some (bus', aggs)"
    and "aggs_paired (ic_timeframes_secs (sv_ingest sv)) spec aggs"
    using spawn_timeframes_total [OF assms] by blast
  then show ?thesis using assms(1) by (simp add: spawn_symbol_def spawnable_def)
qed

lemma set_update_subset: "set (AList.update k v al) \<subseteq> insert (k, v) (set al)"
  by (induction al) auto

lemma add_symbols_total:
  assumes "spawnable (sv_ingest sv) (sv_writers sv) (ic_timeframes_secs (sv_ingest sv))"
    and "list_all (\<lambda>s. 0 < sp_tick_size s) specs" and "handles_paired sv"
  shows "\<exists>sv' m. add_symbols B sv n specs = Some (sv', m) \<and> handles_paired sv'"
  using assms
proof (induction specs arbitrary: sv n)
  case (Cons s specs)
  show ?case
  proof (cases "map_of (sv_handles sv) (spec_key s) = None")
    case False
    then show ?thesis using Cons by (auto simp: Let_def)
  next
    case True
    obtain sv1 h where sp: "spawn_symbol B sv s = Some (sv1, h)"
      and p: "aggs_paired (ic_timeframes_secs (sv_ingest sv)) s (sh_aggregators h)"
             "sh_ch_fanouts h = map fst (sh_aggregators h)"
      using spawn_symbol_total Cons.prems by fastforce
    let ?sv2 = "sv1\<lparr>sv_handles := AList.update (spec_key s) h (sv_handles sv1)\<rparr>"
    note r = spawn_symbol_result [OF sp] settings_eqD [of sv1 sv]
    have "handles_paired ?sv2"
      using Cons.prems(3) p r set_update_subset [of "spec_key s" h "sv_handles sv"]
      by (fastforce simp: handles_paired_def list_all_iff)
    then obtain sv' m where "add_symbols B ?sv2 (Suc n) specs = Some (sv', m) \<and> handles_paired sv'"
      using Cons.IH [of ?sv2 "Suc n"] Cons.prems r by auto
    then show ?thesis using True sp by simp
  qed
qed simp

lemma wanted_symbols_subset: "set (wanted_symbols z ranker sv specs) \<subseteq> set specs"
  by (auto simp: wanted_symbols_def filter_symbols_def Let_def split: option.splits dest!: in_set_takeD)

lemma reconcile_total:
  assumes "validate_timeframes (sv_ingest sv) = Inr ()"
    and "list_all (\<lambda>tf. tf \<le> u32_max \<and> tf \<in> set (sv_writers sv)) (ic_timeframes_secs (sv_ingest sv))"
    and "0 < ic_diff_interval_ms (sv_ingest sv)" and "channel_bound_ok (ic_trade_channel_bound (sv_ingest sv))"
    and "case fetched of Inl e \<Rightarrow> True | Inr specs \<Rightarrow> list_all spec_usable specs"
    and "handles_paired sv"
  shows "\<exists>sv' r. reconcile_once B z fetched ranker sv = Some (sv', r) \<and> handles_paired sv'"
proof (cases fetched)
  case (Inl e)
  then show ?thesis using assms(6) by (simp add: reconcile_once_def)
next
  case (Inr specs)
  define W where "W = wanted_symbols z ranker sv specs"
  define gone where "gone = filter (\<lambda>k. k \<notin> set (map spec_key W)) (map fst (sv_handles sv))"
  define sv1 where "sv1 = fold remove_symbol gone sv"
  have s1: "sv_handles sv1 = fold AList.delete gone (sv_handles sv)" "sv_ingest sv1 = sv_ingest sv"
      "sv_writers sv1 = sv_writers sv"
    by (simp_all add: sv1_def fold_remove_symbol)
  have "spawnable (sv_ingest sv1) (sv_writers sv1) (ic_timeframes_secs (sv_ingest sv1))"
    using assms(1-4) by (force simp: s1 spawnable_def validate_timeframes_ok list_all_iff)
  moreover have "list_all (\<lambda>s. 0 < sp_tick_size s) W"
    using assms(5) wanted_symbols_subset [of z ranker sv specs] Inr
    by (auto simp: W_def list_all_iff spec_usable_def)
  moreover have "handles_paired sv1"
    using assms(6) by (auto simp: s1 handles_paired_def list_all_iff set_fold_delete)
  ultimately obtain sv2 m where add: "add_symbols B sv1 0 W = Some (sv2, m)" and p: "handles_paired sv2"
    using add_symbols_total by blast
  define sv3 where "sv3 = (if gone \<noteq> [] \<or> m > 0
      then sv2\<lparr>sv_routes := route_list (sv_handles sv2), sv_routes_version := sv_routes_version sv2 + 1\<rparr>
      else sv2)"
  have "reconcile_once B z fetched ranker sv = Some (sv3, Inr ())"
    using add Inr unfolding reconcile_once_def sv3_def sv1_def gone_def W_def by simp
  moreover have "handles_paired sv3" using p by (simp add: sv3_def handles_paired_def)
  ultimately show ?thesis by blast
qed

section \<open>Reconnecting\<close>

text \<open>The failures since the session last ended well, and the pause they call for.\<close>

definition streak :: "nat \<Rightarrow> loop_event \<Rightarrow> nat" where
  "streak n e = (case e of SessionErr _ \<Rightarrow> Suc n | SessionOk _ \<Rightarrow> 0 | _ \<Rightarrow> n)"

definition pause_after :: "nat \<Rightarrow> nat \<Rightarrow> nat \<Rightarrow> nat" where
  "pause_after lo hi n = (if n = 0 then lo else min (lo * 2 ^ n) hi)"

definition no_shutdown :: "loop_event \<Rightarrow> bool" where
  "no_shutdown e \<longleftrightarrow> e \<noteq> ShutdownSeen \<and> e \<noteq> SessionOk True \<and> e \<noteq> SessionErr True"

lemma pause_after_Suc: "min (pause_after lo hi n * 2) hi = pause_after lo hi (Suc n)"
  by (auto simp: pause_after_def min_def algebra_simps)

lemma session_loop_pauses:
  assumes "list_all no_shutdown es"
  shows "session_loop lo hi (pause_after lo hi n) es =
    map (\<lambda>i. case es ! i of
        SessionErr _ \<Rightarrow> Some (pause_after lo hi (foldl streak n (take i es)))
      | SessionOk _ \<Rightarrow> Some lo
      | _ \<Rightarrow> None) [0..<length es]"
  using assms
proof (induction es arbitrary: n)
  case (Cons e es)
  have lo: "lo = pause_after lo hi 0" by (simp add: pause_after_def)
  have turn: "session_turn lo hi (pause_after lo hi n) e =
     Some (pause_after lo hi (streak n e), case e of
        SessionErr _ \<Rightarrow> Some (pause_after lo hi n) | SessionOk _ \<Rightarrow> Some lo | _ \<Rightarrow> None)"
    using Cons.prems lo
    by (cases e) (auto simp: session_turn_def streak_def no_shutdown_def pause_after_Suc)
  have "[0..<length (e # es)] = 0 # map Suc [0..<length es]"
    by (simp add: map_Suc_upt upt_conv_Cons del: upt_Suc)
  then show ?case using Cons.IH [of "streak n e"] Cons.prems turn
    by (simp add: comp_def del: upt_Suc split: loop_event.split)
qed simp

text \<open>
  C30: until a shutdown the loop never gives up; the pause after a failed session is the minimum
  doubled once for every failure since the last session that ended well, at most the maximum, and a
  change of routes or an empty list of routes neither pauses nor resets it.
\<close>

theorem reconnect_backs_off:
  assumes "list_all no_shutdown es" and "lo \<le> hi"
  shows "session_loop lo hi lo es =
    map (\<lambda>i. case es ! i of
        SessionErr _ \<Rightarrow> Some (min (lo * 2 ^ foldl streak 0 (take i es)) hi)
      | SessionOk _ \<Rightarrow> Some lo
      | _ \<Rightarrow> None) [0..<length es]"
proof -
  have "pause_after lo hi n = min (lo * 2 ^ n) hi" for n using assms(2) by (simp add: pause_after_def)
  moreover have "session_loop lo hi lo es = session_loop lo hi (pause_after lo hi 0) es"
    by (simp add: pause_after_def)
  ultimately show ?thesis
    using session_loop_pauses [OF assms(1), of lo hi 0] by (simp split: loop_event.split)
qed

section \<open>Shutting down\<close>

text \<open>
  The shutdown drops the senders the handles hold and then waits for the fan-out tasks, but the
  value of the routes channel, which the supervisor still owns, holds a sender of every one of them:
  it waits for every running symbol, even when the session holds none.
\<close>

lemma shutdown_waits_on_every_symbol:
  assumes "sup_inv sv"
  shows "snd (supervisor_shutdown sv session) = map (\<lambda>(_, sh). sh_trade_tx sh) (sv_handles sv)"
proof -
  have "set (map snd (sv_routes sv)) = set (map (\<lambda>(_, sh). sh_trade_tx sh) (sv_handles sv))"
    using assms by (force simp: sup_inv_def route_list_def)
  then show ?thesis
    by (auto simp: supervisor_shutdown_def live_senders_def Let_def intro!: filter_True)
qed

section \<open>Witnesses\<close>

definition sample_hub :: "(cluster_frame list, nat) broadcast_api" where
  "sample_hub = \<lparr>bc_channel = (\<lambda>n. []), bc_send = (\<lambda>ch f. ch @ [f]), bc_subscribe = (\<lambda>ch. (ch, length ch))\<rparr>"

definition listed_spec :: "string \<Rightarrow> symbol_spec" where
  "listed_spec s = \<lparr>sp_exchange = BinanceF, sp_market_type = Perp, sp_quote = Usdt, sp_symbol = s,
     sp_price_scale = 2, sp_qty_scale = 3, sp_tick_size = 10, sp_step_size = 1\<rparr>"

definition sample_supervisor :: "cluster_frame list supervisor" where
  "sample_supervisor = supervisor_new BinanceF Perp bus_new ''tokyo'' ingest_config_default
     (perp_config_default\<lparr>pc_rank_by := Volume24h, pc_top_n := Some 1\<rparr>) [60]"

definition sample_volumes :: "(string \<times> nat) list" where
  "sample_volumes = [(''BTCUSDT'', 9), (''ETHUSDT'', 5)]"

lemma sample_supervisor_ok:
  "sup_inv sample_supervisor \<and> handles_paired sample_supervisor
    \<and> validate_timeframes (sv_ingest sample_supervisor) = Inr ()
    \<and> pc_rank_by (sv_cfg sample_supervisor) = Volume24h"
  by (simp add: sample_supervisor_def sup_inv_new)
    (simp add: supervisor_new_def handles_paired_def validate_timeframes_ok ingest_config_default_def
      default_timeframes_secs_def perp_config_default_def)

definition sample_cycle :: "(cluster_frame list supervisor \<times> (string + unit)) option" where
  "sample_cycle = reconcile_once sample_hub 0 (Inr [listed_spec ''ETHUSDT'', listed_spec ''BTCUSDT''])
     (Some (Inr sample_volumes)) sample_supervisor"

lemmas sample_defs = sample_supervisor_def supervisor_new_def ingest_config_default_def
  default_timeframes_secs_def perp_config_default_def default_include_quotes_def
  default_diff_interval_ms_def default_trade_channel_bound_def channel_bound_ok_def max_permits_def

lemma sample_wanted:
  "wanted_symbols 0 (Some (Inr sample_volumes)) sample_supervisor [listed_spec ''ETHUSDT'', listed_spec ''BTCUSDT'']
     = [listed_spec ''BTCUSDT'']"
  by (simp add: wanted_symbols_def filter_symbols_def rank_specs_def sort_desc_def sample_volumes_def
      sample_defs listed_spec_def wanted_quotes_def List.map_filter_def)

lemma sample_spawnable:
  "spawnable (sv_ingest sample_supervisor) (sv_writers sample_supervisor)
     (ic_timeframes_secs (sv_ingest sample_supervisor))"
  by (simp add: spawnable_def sample_defs u32_max_def)

lemma sample_cycle_runs: "sample_cycle \<noteq> None"
proof -
  have "0 < sp_tick_size (listed_spec s)" for s by (simp add: listed_spec_def)
  then obtain sv1 h where "spawn_symbol sample_hub sample_supervisor (listed_spec ''BTCUSDT'') = Some (sv1, h)"
    using spawn_symbol_total [OF sample_spawnable] by blast
  moreover have h: "sv_handles sample_supervisor = []"
    and id: "sample_supervisor\<lparr>sv_handles := []\<rparr> = sample_supervisor" by (simp_all add: sample_defs)
  ultimately show ?thesis by (simp add: sample_cycle_def reconcile_once_def sample_wanted h id)
qed

lemma reconcile_tracks_listing_witness:
  "fst ` set (sv_handles (fst (the sample_cycle))) = {spec_key (listed_spec ''BTCUSDT'')}"
proof -
  obtain sv' r where *: "sample_cycle = Some (sv', r)" using sample_cycle_runs by auto
  show ?thesis
    using reconcile_tracks_listing [OF _ * [unfolded sample_cycle_def]] sample_supervisor_ok
    by (simp add: * sample_wanted)
qed

lemma wanted_symbols_largest_witness:
  "length (wanted_symbols 0 (Some (Inr sample_volumes)) sample_supervisor
     [listed_spec ''ETHUSDT'', listed_spec ''BTCUSDT'']) = 1"
  using wanted_symbols_largest [of sample_supervisor 0 sample_volumes
      "[listed_spec ''ETHUSDT'', listed_spec ''BTCUSDT'']"] sample_supervisor_ok
  by (simp add: sample_wanted)

lemma reconnect_backs_off_witness:
  "session_loop 500 30000 500 [NoRoutes, SessionErr False, SessionErr False, SessionOk False]
     = [None, Some 500, Some 1000, Some 500]"
  using reconnect_backs_off [of "[NoRoutes, SessionErr False, SessionErr False, SessionOk False]" 500 30000]
  by (simp add: no_shutdown_def streak_def upt_rec)

end
