(* ===== verification/Pipeline_Theorems.thy ===== *)
theory Pipeline_Theorems
  imports Store_Theorems Table_Theorems Supervisor_Theorems Cluster_Bus
begin

text \<open>
  The components of a running symbol put together: the trades its session hands over are fanned out
  to one channel per timeframe, the task of each timeframe drives its aggregator and publishes on
  the hub, the task behind the hub turns snapshots into rows, and the writer inserts them into the
  table.
\<close>

section \<open>The fan-out\<close>

text \<open>The trades the channel at position \<open>i\<close> took.\<close>

definition accepted :: "nat \<Rightarrow> (trade_print \<times> (send_outcome \<times> i64) list) list \<Rightarrow> trade_print list" where
  "accepted i es = map fst (filter (\<lambda>(t, outcomes). fst (outcomes ! i) = Sent) es)"

definition refused :: "nat \<Rightarrow> (trade_print \<times> (send_outcome \<times> i64) list) list \<Rightarrow> nat" where
  "refused i es = length (filter (\<lambda>(t, outcomes). fst (outcomes ! i) = SendFull) es)"

lemma fan_out_sent: "tc_sent (fan_out_one t o_now c) = tc_sent c @ (if fst o_now = Sent then [t] else [])"
  by (cases o_now; cases "fst o_now") (auto simp: fan_out_one_def Let_def)

lemma fan_out_drops:
  "tc_drops_full (fan_out_one t o_now c) =
     (if fst o_now = SendFull then saturating_add_u64 (tc_drops_full c) 1 else tc_drops_full c)"
  by (cases o_now; cases "fst o_now") (auto simp: fan_out_one_def Let_def)

lemma saturating_step: "saturating_add_u64 (min u64_max n) 1 = min u64_max (Suc n)"
  by (simp add: saturating_add_u64_def)

lemma trade_fanout_channel:
  assumes "list_all (\<lambda>(_, outcomes). length outcomes = length chans) es" and "i < length chans"
  shows "length (trade_fanout chans es) = length chans \<and>
    tc_sent (trade_fanout chans es ! i) = tc_sent (chans ! i) @ accepted i es \<and>
    (\<forall>n. tc_drops_full (chans ! i) = min u64_max n \<longrightarrow>
       tc_drops_full (trade_fanout chans es ! i) = min u64_max (n + refused i es))"
  using assms
proof (induction es arbitrary: chans)
  case (Cons e es)
  obtain t outcomes where e: "e = (t, outcomes)" by fastforce
  let ?chans = "map2 (fan_out_one t) outcomes chans"
  have len: "length ?chans = length chans" and i: "?chans ! i = fan_out_one t (outcomes ! i) (chans ! i)"
    using Cons.prems e by simp_all
  have IH: "length (trade_fanout ?chans es) = length ?chans \<and>
      tc_sent (trade_fanout ?chans es ! i) = tc_sent (?chans ! i) @ accepted i es \<and>
      (\<forall>n. tc_drops_full (?chans ! i) = min u64_max n \<longrightarrow>
         tc_drops_full (trade_fanout ?chans es ! i) = min u64_max (n + refused i es))"
    using Cons.prems len by (intro Cons.IH) simp_all
  show ?case
  proof (intro conjI allI impI)
    fix n assume "tc_drops_full (chans ! i) = min u64_max n"
    then have "tc_drops_full (?chans ! i) = min u64_max (if fst (outcomes ! i) = SendFull then Suc n else n)"
      using saturating_step [of n] by (simp add: i fan_out_drops)
    then show "tc_drops_full (trade_fanout chans (e # es) ! i) = min u64_max (n + refused i (e # es))"
      using IH by (auto simp: e refused_def split: if_splits)
  qed (use IH len in \<open>simp_all add: e i fan_out_sent accepted_def\<close>)
qed (simp_all add: accepted_def refused_def)

section \<open>The task of a timeframe\<close>

fun received_trades :: "task_event list \<Rightarrow> trade_print list" where
  "received_trades [] = []"
| "received_trades (TradeReceived t # es) = t # received_trades es"
| "received_trades (_ # es) = received_trades es"

lemma agg_events_open:
  assumes "ChannelClosed \<notin> set tes"
  shows "list_all no_flush (agg_events tes) \<and> trades_of (agg_events tes) = received_trades tes \<and>
    (list_all event_ok (agg_events tes) \<longleftrightarrow> list_all trade_ok (received_trades tes))"
  using assms by (induction tes rule: agg_events.induct) simp_all

lemma task_publishes:
  assumes "rep a None" and "ChannelClosed \<notin> set tes" and "list_all trade_ok (received_trades tes)" and "0 < n"
  shows "\<exists>st b frs. aggregator_task B key n a bus tes = Some st \<and> agg_run a (agg_events tes) = Some (b, frs) \<and>
    channel_of B (tk_bus st) key = foldl (bc_send B) (channel_of B bus key) frs"
proof -
  have "list_all event_ok (agg_events tes)" using agg_events_open [OF assms(2)] assms(3) by simp
  then obtain b frs where run: "agg_run a (agg_events tes) = Some (b, frs)"
    using run_refines [OF assms(1)] by blast
  have "map_option (\<lambda>st'. (tk_agg st', tk_bus st')) (run_aggregator B key (task_start a bus) tes)
      = Some (b, foldl (\<lambda>bus f. publish B bus key f) bus frs)"
    using run_aggregator_agg_run [of B key "task_start a bus" tes] run by (simp add: task_start_def)
  then obtain st where "run_aggregator B key (task_start a bus) tes = Some st"
      "tk_bus st = foldl (\<lambda>bus f. publish B bus key f) bus frs"
    by auto
  then show ?thesis using run foldl_publish [of B key bus frs key] assms(4) by (auto simp: aggregator_task_def)
qed

lemma log_of_sends:
  assumes "\<And>ch f. log_of (bc_send B ch f) = log_of ch @ [f]"
  shows "log_of (foldl (bc_send B) ch frs) = log_of ch @ frs"
  by (induction frs arbitrary: ch) (simp_all add: assms)

section \<open>A symbol's aggregators\<close>

lemma spawn_timeframes_aggs:
  assumes "spawn_timeframes B icfg writers spec bus tfs = Some (bus', aggs)"
  shows "length aggs = length tfs \<and> (\<forall>i < length tfs.
    fst (aggs ! i) = stream_key_new (spec_key spec) (tfs ! i) \<and>
    aggregator_new (spec_key spec) (sp_tick_size spec) (wrap_i64 (int (tfs ! i) * 1000))
      (ic_diff_interval_ms icfg) = Some (snd (aggs ! i)))"
  using assms
proof (induction tfs arbitrary: bus bus' aggs)
  case (Cons tf tfs)
  then obtain agg aggs' where new: "aggregator_new (spec_key spec) (sp_tick_size spec)
        (wrap_i64 (int tf * 1000)) (ic_diff_interval_ms icfg) = Some agg"
      and rest: "spawn_timeframes B icfg writers spec
        (fst (subscribe B bus (stream_key_new (spec_key spec) tf))) tfs = Some (bus', aggs')"
      and aggs: "aggs = (stream_key_new (spec_key spec) tf, agg) # aggs'"
    by (auto simp: Let_def bind_eq_Some_conv split: if_splits)
  show ?case
    using Cons.IH [OF rest] new by (auto simp: aggs nth_Cons split: nat.split)
qed simp

lemma spawned_aggregator:
  assumes "spawn_symbol B sv spec = Some (sv1, h)" and "i < length (ic_timeframes_secs (sv_ingest sv))"
    and "ic_timeframes_secs (sv_ingest sv) ! i \<le> u32_max" and "sh_aggregators h ! i = (key, agg)"
  shows "key = stream_key_new (spec_key spec) (ic_timeframes_secs (sv_ingest sv) ! i)"
    and "aggregator_new (spec_key spec) (sp_tick_size spec)
      (int (ic_timeframes_secs (sv_ingest sv) ! i) * 1000) (ic_diff_interval_ms (sv_ingest sv)) = Some agg"
proof -
  obtain bus' where sp: "spawn_timeframes B (sv_ingest sv) (sv_writers sv) spec (sv_bus sv)
      (ic_timeframes_secs (sv_ingest sv)) = Some (bus', sh_aggregators h)"
    using assms(1) by (auto simp: spawn_symbol_def bind_eq_Some_conv split: if_splits)
  have "int (ic_timeframes_secs (sv_ingest sv) ! i) \<le> 4294967295" using assms(3) by (simp add: u32_max_def)
  then have "wrap_i64 (int (ic_timeframes_secs (sv_ingest sv) ! i) * 1000)
      = int (ic_timeframes_secs (sv_ingest sv) ! i) * 1000"
    by (simp add: in_i64_def)
  then show "key = stream_key_new (spec_key spec) (ic_timeframes_secs (sv_ingest sv) ! i)"
    and "aggregator_new (spec_key spec) (sp_tick_size spec)
      (int (ic_timeframes_secs (sv_ingest sv) ! i) * 1000) (ic_diff_interval_ms (sv_ingest sv)) = Some agg"
    using spawn_timeframes_aggs [OF sp] assms(2,4) by auto
qed

section \<open>From trades to rows\<close>

lemma own_key_rows: "of_key (key_at spec m p) (filter (\<lambda>r. row_stream r = spec_stream spec) rows) = of_key (key_at spec m p) rows"
proof -
  have "row_stream r = spec_stream spec" if "row_key r = key_at spec m p" for r
    using that by (auto simp: row_key_def row_stream_def key_at_def split: prod.splits)
  then show ?thesis by (auto simp: of_key_def intro: filter_cong)
qed

text \<open>
  The rows a table may have been sent for an instrument after some frames of it were published. The
  task behind the hub has got as far as the frame \<open>f\<close>, because it was aborted then or because nothing
  more has come: it missed only frames that another frame of their window followed, and of \<open>f\<close> itself
  it sent the first \<open>j\<close> rows. The writer, which serves the rows of all symbols, had inserts that failed
  and reached the table all the same, but had every row of the instrument acknowledged in the end.
\<close>

definition may_store ::
  "symbol_spec \<Rightarrow> string \<Rightarrow> cluster_frame list \<Rightarrow> cluster_frame \<Rightarrow> cluster_row list \<Rightarrow> bool" where
  "may_store spec region frs f rows \<longleftrightarrow> (\<exists>fs gs items j cfg row_json now wes w fx.
     frs = fs @ f # gs \<and> lossy (fs @ [f]) (received items @ [f]) \<and>
     filter (\<lambda>r. row_stream r = spec_stream spec) (rows_in wes)
       = fst (snapshot_to_ch spec region None 0 items) @ take j (frame_rows spec region f) \<and>
     w = writer_run row_json cfg (writer_start cfg now) wes \<and> list_all2 effect (wr_attempts w) fx \<and>
     filter (\<lambda>r. row_stream r = spec_stream spec) (rows_acked w)
       = filter (\<lambda>r. row_stream r = spec_stream spec) (rows_in wes) \<and> rows = concat fx)"

text \<open>
  For a symbol started at any timeframe, whatever the clocks, the other timeframes' channels and the
  other symbols do, the timeframe's task never panics, and its table tells the windows of the trades
  the timeframe's channel accepted, up to the last frame the task behind the hub got. The hub keeps
  what it is sent, in order (\<open>log_of\<close>).
\<close>

lemma symbol_table:
  assumes "spawn_symbol B sv spec = Some (sv1, h)"
    and "i < length (ic_timeframes_secs (sv_ingest sv))" and "ic_timeframes_secs (sv_ingest sv) ! i = tf"
    and "tf \<le> u32_max" and "ic_diff_interval_ms (sv_ingest sv) * 1000000 < 2 ^ 63"
    and "0 < agg_tick_interval (sv_ingest sv)" and "sh_aggregators h ! i = (key, agg)"
    and "list_all (\<lambda>(t, outcomes). trade_ok t \<and> length outcomes = length (ic_timeframes_secs (sv_ingest sv))) es"
    and "prefix (received_trades tes) (tc_sent (trade_fanout (fanout_start (ic_timeframes_secs (sv_ingest sv))) es ! i))"
    and "ChannelClosed \<notin> set tes" and "\<And>ch f. log_of (bc_send B ch f) = log_of ch @ [f]"
  shows "\<exists>st. aggregator_task B key (agg_tick_interval (sv_ingest sv)) agg bus tes = Some st \<and>
    (\<forall>frs f rows m p. log_of (channel_of B (tk_bus st) key) = log_of (channel_of B bus key) @ frs \<and>
       may_store spec (sv_region sv) frs f rows
       \<longrightarrow> table_upto spec (sv_region sv) (sp_tick_size spec)
         (all_windows (int tf * 1000000000) (accepted i es)) f rows m p)"
proof -
  have new: "aggregator_new (spec_key spec) (sp_tick_size spec) (int tf * 1000) (ic_diff_interval_ms (sv_ingest sv))
      = Some agg"
    using spawned_aggregator(2) [OF assms(1,2) _ assms(7)] assms(3,4) by simp
  have small: "int tf * 1000 * 1000000 < 2 ^ 63" using assms(4) by (simp add: u32_max_def)
  have len: "list_all (\<lambda>(_, outcomes). length outcomes = length (fanout_start (ic_timeframes_secs (sv_ingest sv)))) es"
    using assms(8) by (auto simp: list_all_iff fanout_start_def)
  have "prefix (received_trades tes) (accepted i es)"
    using trade_fanout_channel [OF len, of i] assms(2,9) by (simp add: fanout_start_def)
  then obtain later where ts: "accepted i es = received_trades tes @ later" by (auto simp: prefix_def)
  have "list_all trade_ok (accepted i es)"
    using assms(8) by (auto simp: accepted_def list_all_iff)
  then have ok: "list_all trade_ok (received_trades tes)" by (simp add: ts)
  note open_run = agg_events_open [OF assms(10)]
  obtain st b frs0 where st: "aggregator_task B key (agg_tick_interval (sv_ingest sv)) agg bus tes = Some st"
      and run: "agg_run agg (agg_events tes) = Some (b, frs0)"
      and ch: "channel_of B (tk_bus st) key = foldl (bc_send B) (channel_of B bus key) frs0"
    using task_publishes [OF new_rep(1) [OF new small assms(5)] assms(10) ok assms(6), of B key bus] by blast
  have "table_upto spec (sv_region sv) (sp_tick_size spec) (all_windows (int tf * 1000000000) (accepted i es)) f (concat fx) m p"
    if "log_of (channel_of B (tk_bus st) key) = log_of (channel_of B bus key) @ fs @ f # gs"
      and lossy: "lossy (fs @ [f]) (received items @ [f])"
      and rows: "filter (\<lambda>r. row_stream r = spec_stream spec) (rows_in wes)
        = fst (snapshot_to_ch spec (sv_region sv) None 0 items) @ take j (frame_rows spec (sv_region sv) f)"
      and w: "w = writer_run row_json cfg (writer_start cfg now) wes" "list_all2 effect (wr_attempts w) fx"
      and acked: "filter (\<lambda>r. row_stream r = spec_stream spec) (rows_acked w)
        = filter (\<lambda>r. row_stream r = spec_stream spec) (rows_in wes)"
    for fs f gs items j cfg row_json now wes w fx m p
  proof -
    have "frs0 = fs @ f # gs" using that(1) ch log_of_sends [of log_of B] assms(11) by simp
    then have "table_upto spec (sv_region sv) (sp_tick_size spec)
        (all_windows (int tf * 1000 * 1000000) (trades_of (agg_events tes) @ later)) f (rows_in wes) m p"
      using store_holds_footprints [OF new small assms(5) _ _ _ lossy rows, of "agg_events tes"] open_run ok run
      by simp
    moreover have "int tf * 1000 * 1000000 = int tf * 1000000000" by simp
    moreover have "of_key (key_at spec m p) (rows_acked w) = of_key (key_at spec m p) (rows_in wes)"
      by (metis acked own_key_rows)
    then have "stored (concat fx) (key_at spec m p) = stored (rows_in wes) (key_at spec m p)"
      using table_after_run w by metis
    ultimately show ?thesis using open_run unfolding table_upto_def ts by (simp only:)
  qed
  then show ?thesis using st unfolding may_store_def by blast
qed

text \<open>A writer with a batch of one row, before a ClickHouse that takes every insert.\<close>

definition row_writer :: ch_writer_config where
  "row_writer = ch_writer_config_default\<lparr>cc_batch_size := 1\<rparr>"

definition arrives :: "cluster_row \<Rightarrow> writer_event" where
  "arrives r = RowReceived r 0 \<lparr>fe_now = 0, fe_post = (\<lambda>_ _ _. Inr (True, ''200 OK'', Inr [])), fe_after = 0\<rparr>"

definition row_insert :: "cluster_row \<Rightarrow> flush_attempt" where
  "row_insert r = \<lparr>fa_start = 0, fa_end = 0, fa_rows = [r], fa_ok = True\<rparr>"

lemma row_writer_run:
  "wr_batch st = [] \<Longrightarrow> wr_next_attempt st = 0 \<Longrightarrow>
   wr_attempts (writer_run sample_json row_writer st (map arrives rows)) = wr_attempts st @ map row_insert rows"
proof (induction rows arbitrary: st)
  case (Cons r rows)
  let ?st = "writer_step sample_json row_writer st (arrives r)"
  have "wr_batch ?st = []" "wr_next_attempt ?st = 0" "wr_attempts ?st = wr_attempts st @ [row_insert r]"
    using Cons.prems by (simp_all add: arrives_def row_writer_def ch_writer_config_default_def push_row_def
      try_flush_def flush_once_def serialize_jsoneachrow_def sample_json_def row_insert_def Let_def)
  then show ?case using Cons.IH [of ?st] by (simp add: arrives_def)
qed simp

lemma rows_arrive: "rows_in (map arrives rows) = rows"
  by (induction rows) (simp_all add: arrives_def)

lemma row_writer_result:
  defines "w rows \<equiv> writer_run sample_json row_writer (writer_start row_writer 0) (map arrives rows)"
  shows "rows_acked (w rows) = rows" and "list_all2 effect (wr_attempts (w rows)) (map (\<lambda>r. [r]) rows)"
proof -
  have "wr_attempts (w rows) = map row_insert rows"
    unfolding w_def by (subst row_writer_run) (simp_all add: writer_start_def)
  moreover have "concat (map fa_rows (filter fa_ok (map row_insert rows))) = rows"
    by (induction rows) (simp_all add: row_insert_def)
  moreover have "list_all2 effect (map row_insert rows) (map (\<lambda>r. [r]) rows)"
    by (induction rows) (simp_all add: row_insert_def effect_def)
  ultimately show "rows_acked (w rows) = rows" "list_all2 effect (wr_attempts (w rows)) (map (\<lambda>r. [r]) rows)"
    by (simp_all add: rows_acked_def)
qed

lemma row_writer_may_store:
  "may_store spec region (fs @ [f]) f (fst (snapshot_to_ch spec region None 0 (map RecvFrame (fs @ [f]))))"
proof -
  let ?rows = "fst (snapshot_to_ch spec region None 0 (map RecvFrame (fs @ [f])))"
  have r: "?rows = fst (snapshot_to_ch spec region None 0 (map RecvFrame fs)) @
      take (length (frame_rows spec region f)) (frame_rows spec region f)"
    unfolding snapshot_to_ch_rows received_frames by simp
  have "concat (map (\<lambda>r. [r]) ?rows) = ?rows" by (induction ?rows) simp_all
  then show ?thesis
    unfolding may_store_def using row_writer_result [of ?rows] own_rows [of spec region 0 "map RecvFrame (fs @ [f])"] r
    by (intro exI [of _ fs] exI [of _ "[]"] exI [of _ "map RecvFrame fs"] exI [of _ "length (frame_rows spec region f)"]
        exI [of _ row_writer] exI [of _ sample_json] exI [of _ 0]
        exI [of _ "map arrives ?rows"] exI [of _ "writer_run sample_json row_writer (writer_start row_writer 0) (map arrives ?rows)"]
        exI [of _ "map (\<lambda>r. [r]) ?rows"])
      (simp only: received_frames lossy_refl rows_arrive simp_thms)
qed

end
