(* ===== verification/Trade_Types.thy ===== *)
theory Trade_Types
  imports Session_Theorems Aggregator_Props
begin

text \<open>
  Types across a boundary: what a session hands over is a value of \<open>TradePrint\<close>'s machine types
  with a price of zero or more, whatever the exchange sends, and an aggregator takes every such
  value without a panic.
\<close>

section \<open>Machine types\<close>

definition trade_typed :: "trade_print \<Rightarrow> bool" where
  "trade_typed t \<longleftrightarrow>
     in_i64 (tp_ts_ns t) \<and> 0 \<le> tp_price t \<and> in_i64 (tp_price t) \<and> in_i64 (tp_qty t) \<and> tp_trade_id t \<le> u64_max"

text \<open>\<open>as_i64\<close> and \<open>as_u64\<close> of \<open>serde_json\<close> answer with values of these types.\<close>

definition json_typed :: "'j json_api \<Rightarrow> bool" where
  "json_typed J \<longleftrightarrow> (\<forall>v i. j_i64 J v = Some i \<longrightarrow> in_i64 i) \<and> (\<forall>v n. j_u64 J v = Some n \<longrightarrow> n \<le> u64_max)"

lemma jv_typed: "json_typed jv_api"
  by (auto simp: json_typed_def jv_api_def u64_max_def split: jv.splits if_splits)

lemma json_typedD:
  assumes "json_typed J"
  shows "j_i64 J v = Some i \<Longrightarrow> in_i64 i" "j_u64 J v = Some n \<Longrightarrow> n \<le> u64_max"
    and "get_u64 J v k = Some n \<Longrightarrow> n \<le> u64_max"
  using assms by (auto simp: json_typed_def get_u64_def bind_eq_Some_conv)

lemma parse_pos_le: "parse_pos mx acc s = Inr v \<Longrightarrow> acc \<le> mx \<Longrightarrow> v \<le> mx"
  by (induction s arbitrary: acc) (auto split: if_splits)

lemma parse_u64_range: "parse_u64 s = Inr n \<Longrightarrow> n \<le> u64_max"
proof -
  assume "parse_u64 s = Inr n"
  moreover have "map_sum id nat r = Inr n \<longleftrightarrow> (\<exists>v. r = Inr v \<and> n = nat v)" for r :: "string + int"
    by (cases r) auto
  ultimately obtain v u where "n = nat v" "parse_pos (2 ^ 64 - 1) 0 u = Inr v"
    by (auto simp: parse_u64_def parse_unsigned_def simp del: parse_pos.simps split: list.splits if_splits)
  then show "n \<le> u64_max" using parse_pos_le [of "2 ^ 64 - 1" 0 u v] by (simp add: u64_max_def nat_le_iff)
qed

lemma parse_i64_in: "parse_i64 s = Inr v \<Longrightarrow> in_i64 v"
  using parse_i64_range [of s v] by (simp add: in_i64_def)

lemma div_i64_in:
  assumes "div_i64 a b = Some c" "in_i64 a"
  shows "in_i64 c"
proof -
  have c: "c = a sdiv b" "b \<noteq> 0" "\<not> (a = - (2 ^ 63) \<and> b = -1)"
    using assms(1) by (auto simp: div_i64_def split: if_splits)
  have "\<bar>a\<bar> div \<bar>b\<bar> \<le> \<bar>a\<bar>" using c(2) by (simp add: int_div_le)
  show ?thesis
  proof (cases "\<bar>a\<bar> div \<bar>b\<bar> < 2 ^ 63")
    case True
    have "\<bar>c\<bar> \<le> \<bar>a\<bar> div \<bar>b\<bar>"
      by (simp add: c(1) signed_divide_int_def abs_mult sgn_if pos_imp_zdiv_nonneg_iff c(2))
    then show ?thesis using True unfolding in_i64_def by linarith
  next
    case False
    then have "2 ^ 63 \<le> \<bar>a\<bar>" using \<open>\<bar>a\<bar> div \<bar>b\<bar> \<le> \<bar>a\<bar>\<close> by linarith
    then have a: "a = - (2 ^ 63)" using assms(2) by (simp add: in_i64_def abs_if split: if_splits)
    have "\<bar>b\<bar> = 1"
    proof (rule ccontr)
      assume "\<bar>b\<bar> \<noteq> 1"
      then have "2 \<le> \<bar>b\<bar>" using c(2) by linarith
      then have "\<bar>a\<bar> div \<bar>b\<bar> \<le> \<bar>a\<bar> div 2" by (intro zdiv_mono2) simp_all
      then show False using False a by simp
    qed
    then have "b = 1" using a c(3) by linarith
    then show ?thesis using assms(2) c(1) by (simp add: signed_divide_int_def sgn_if a)
  qed
qed

lemma contracts_to_base_in: "contracts_to_base q ct = Some x \<Longrightarrow> in_i64 x"
  by (auto simp: contracts_to_base_def intro: div_i64_in)

lemma i64_as_u64_range: "i64_as_u64 x \<le> u64_max"
  using pos_mod_bound [of "2 ^ 64" x] by (simp add: i64_as_u64_def u64_max_def nat_le_iff)

lemma id_typed:
  "unwrap_or (Option.bind g (\<lambda>s. res_ok (parse_u64 s))) 0 \<le> u64_max"
  by (cases "Option.bind g (\<lambda>s. res_ok (parse_u64 s))") (auto simp: bind_eq_Some_conv dest: parse_u64_range)

text \<open>What makes the fields of a trade fit.\<close>

lemma trade_typedI:
  assumes "in_i64 ts" "0 \<le> p \<and> in_i64 p" "in_i64 q" "i \<le> u64_max"
  shows "trade_typed \<lparr>tp_ts_ns = ts, tp_aggressor = g, tp_price = p, tp_qty = q, tp_trade_id = i\<rparr>"
  using assms by (simp add: trade_typed_def)

lemma try_map_panic_set:
  "try_map_panic f xs = Some (Inr ys) \<Longrightarrow> y \<in> set ys \<Longrightarrow> \<exists>x \<in> set xs. f x = Some (Inr y)"
  by (induction xs arbitrary: ys) (fastforce split: option.splits sum.splits)+

section \<open>The nine parsers\<close>

lemmas scaled_bounds = binance.parse_bounds aster.parse_bounds bybit.parse_bounds bitget.parse_bounds
  okx.parse_bounds kucoin.parse_bounds mexc.parse_bounds bingx.parse_bounds hyperliquid.parse_bounds

lemma binance_typed: "binance_parse_value J v spec = Inr (Some t) \<Longrightarrow> trade_typed t"
  by (auto simp: binance_parse_value_def Let_def i64_as_u64_range split: if_splits option.splits
      intro!: trade_typedI dest!: scaled_bounds)

lemma bybit_typed: "bybit_parse_value J v spec = Inr ts \<Longrightarrow> t \<in> set ts \<Longrightarrow> trade_typed t"
  by (auto simp: bybit_parse_value_def bybit_parse_trade_def id_typed split: option.splits if_splits
      dest!: try_map_set intro!: trade_typedI dest!: scaled_bounds)

lemma bitget_typed: "bitget_parse_value J v spec = Inr ts \<Longrightarrow> t \<in> set ts \<Longrightarrow> trade_typed t"
  by (auto simp: bitget_parse_value_def bitget_parse_trade_def id_typed split: option.splits if_splits
      dest!: try_map_set intro!: trade_typedI dest!: scaled_bounds)

lemma okx_typed: "okx_parse_value J cts v spec = Some (Inr ts) \<Longrightarrow> t \<in> set ts \<Longrightarrow> trade_typed t"
  by (auto simp: okx_parse_value_def okx_parse_trade_def id_typed Let_def split: option.splits if_splits sum.splits
      dest!: try_map_panic_set intro!: trade_typedI dest!: scaled_bounds contracts_to_base_in)

lemma kucoin_num_typed: "json_typed J \<Longrightarrow> in_i64 (kucoin_num_i64 J v)"
proof -
  assume J: "json_typed J"
  have z: "in_i64 0" by (simp add: in_i64_def)
  have "in_i64 (unwrap_or (j_i64 J x) 0)" for x
    using json_typedD(1) [OF J] z by (cases "j_i64 J x") auto
  then show ?thesis
    using z by (auto simp: kucoin_num_i64_def split: option.split sum.split dest: parse_i64_in)
qed

lemma kucoin_typed:
  assumes "json_typed J" "kucoin_parse_value J cts v spec = Some (Inr ts)" "t \<in> set ts"
  shows "trade_typed t"
  using assms(2,3)
  by (auto simp: kucoin_num_typed [OF assms(1)] kucoin_parse_value_def kucoin_ts_ns_def Let_def bind_eq_Some_conv
      split: option.splits if_splits sum.splits intro!: trade_typedI dest!: scaled_bounds contracts_to_base_in)

lemma mexc_spot_typed: "mexc_spot_parse_value raw spec = Inr ts \<Longrightarrow> t \<in> set ts \<Longrightarrow> trade_typed t"
  by (auto simp: mexc_spot_parse_value_def mexc_spot_deal_def split: option.splits if_splits
      dest!: try_collect_set intro!: trade_typedI dest!: scaled_bounds)

lemma mexc_futures_typed: "mexc_futures_parse_value J cts v spec = Some (Inr ts) \<Longrightarrow> t \<in> set ts \<Longrightarrow> trade_typed t"
  by (auto simp: mexc_futures_parse_value_def mexc_futures_deal_def Let_def List.map_filter_def
      split: option.splits if_splits sum.splits
      dest!: try_map_panic_set scaled_bounds contracts_to_base_in intro!: trade_typedI)

lemma bingx_typed: "bingx_parse_value J v spec = Inr ts \<Longrightarrow> t \<in> set ts \<Longrightarrow> trade_typed t"
  by (auto simp: bingx_parse_value_def bingx_deal_def id_typed Let_def split: option.splits if_splits
      dest!: try_collect_set intro!: trade_typedI dest!: scaled_bounds)

lemma hyperliquid_typed:
  assumes "json_typed J" "hyperliquid_parse_value J v spec = Inr ts" "t \<in> set ts"
  shows "trade_typed t"
proof -
  have "unwrap_or (get_u64 J x ''tid'') 0 \<le> u64_max" for x
    using json_typedD(3) [OF assms(1)] by (cases "get_u64 J x ''tid''") auto
  then show ?thesis
    using assms
    by (auto simp: hyperliquid_parse_value_def hyperliquid_deal_def Let_def split: option.splits if_splits
        dest!: try_collect_set intro!: trade_typedI dest!: scaled_bounds)
qed

section \<open>Theorem\<close>

lemma single_set: "single r = Inr ts \<Longrightarrow> t \<in> set ts \<Longrightarrow> r = Inr (Some t)"
  by (cases r) (auto simp: single_def split: option.splits)

lemma origin_typed:
  assumes "origin rt key parse sink t"
    and "\<And>v spec ts. parse v spec = Some (Inr ts) \<Longrightarrow> t \<in> set ts \<Longrightarrow> trade_typed t"
  shows "trade_typed t"
  using assms by (auto simp: origin_def)

lemma venue_typed:
  assumes "json_typed (ve_json V)" "venue_origin V rt v sink t"
  shows "trade_typed t"
  using assms(2)
  by (cases v)
    (auto elim!: origin_typed dest!: single_set dest: binance_typed bybit_typed bitget_typed okx_typed mexc_spot_typed
      mexc_futures_typed bingx_typed kucoin_typed [OF assms(1)] hyperliquid_typed [OF assms(1)])

text \<open>
  C9: whatever an exchange sends, every trade a session hands over is a value of the machine types of
  \<open>TradePrint\<close> with a price of zero or more, and an aggregator that gets any of them, in any order and
  between any ticks, partial snapshots and flushes, never panics.
\<close>

theorem session_trades_typed:
  assumes "json_typed (ve_json V)"
    and "pump (venue_profile V (logged answer) rt v) (session_start []) es = Some (s, e)"
    and "aggregator_new key step window_ms diff_ms = Some a" "in_i64 (window_ms * 1000000)" "in_i64 (diff_ms * 1000000)"
    and "\<And>t. ETrade t \<in> set evs \<Longrightarrow> t \<in> (fst \<circ> snd) ` set (sn_queues s)"
  shows "(\<forall>(sink, t, fate) \<in> set (sn_queues s). trade_typed t) \<and> (\<exists>b frs. agg_run a evs = Some (b, frs) \<and> agg_wf b)"
proof
  show typed: "\<forall>(sink, t, fate) \<in> set (sn_queues s). trade_typed t"
    using venue.pump_accounts [OF accounted_start assms(2)] venue_typed [OF assms(1)]
    by (fastforce simp: accounted_def)
  have "event_in_range ev" if "ev \<in> set evs" for ev
  proof (cases ev)
    case (ETrade t)
    then have "trade_typed t" using that assms(6) typed by fastforce
    then show ?thesis using ETrade by (simp add: trade_typed_def trade_in_range_def)
  qed simp_all
  then show "\<exists>b frs. agg_run a evs = Some (b, frs) \<and> agg_wf b"
    by (intro agg_run_wf aggregator_new_wf [OF assms(3-5)]) (simp add: list_all_iff)
qed

lemma session_trades_typed_witness:
  "\<exists>s sink t fate a. hl_run = Some (s, Ended) \<and> sn_queues s = [(sink, t, fate)] \<and> trade_typed t \<and>
     aggregator_new (symbol_key_new HyperliquidF Perp ''BTCUSDC'') 1 60000 100 = Some a \<and>
     agg_run a [ETrade t, EFlush] \<noteq> None"
proof -
  obtain s where p: "hl_run = Some (s, Ended)" and q: "map fst (sn_queues s) = [3]"
    using hl_run_result by auto
  then obtain sink t fate where log: "sn_queues s = [(sink, t, fate)]"
    by (cases "sn_queues s") (auto simp: map_eq_Cons_conv)
  obtain a where a: "aggregator_new (symbol_key_new HyperliquidF Perp ''BTCUSDC'') 1 60000 100 = Some a"
    by (simp add: aggregator_new_def)
  have J: "json_typed (ve_json hl_env)"
    using jv_typed by (simp add: hl_env_def json_typed_def)
  have "trade_typed t \<and> (\<exists>b frs. agg_run a [ETrade t, EFlush] = Some (b, frs) \<and> agg_wf b)"
    using session_trades_typed [OF J p [unfolded hl_run_def] a, of "[ETrade t, EFlush]"] log
    by (simp add: in_i64_def del: agg_run.simps)
  then show ?thesis using p log a by fastforce
qed

end
