(* ===== verification/Venue_Pipeline.thy ===== *)
theory Venue_Pipeline
  imports Pipeline_Theorems Trade_Types
begin

text \<open>
  The whole way of a trade: from the frames an exchange sends to a session, over the channel of the
  symbol, the fan-out, the task of a timeframe, the hub, the task behind it and the writer, into the
  table of the timeframe.
\<close>

section \<open>Sessions of a supervisor\<close>










section \<open>The theorem\<close>


section \<open>Witness\<close>
















end
