(* ===== verification/Mexc_Pb_Theorems.thy ===== *)
theory Mexc_Pb_Theorems
  imports Mexc
begin

text \<open>
  The decoder of the MEXC spot stream against the encoder that the tests of \<open>pb.rs\<close> build their
  frames with: every frame of trades is read back, field by field, and the fields that the program
  does not know are skipped.
\<close>

unbundle bit_operations_syntax

section \<open>The encoder\<close>

lemma drop_bit_less: "drop_bit 7 v \<noteq> 0 \<Longrightarrow> unat (drop_bit 7 v) < unat (v :: u64w)"
proof -
  assume nz: "drop_bit 7 v \<noteq> 0"
  then have "v \<noteq> 0" by (metis drop_bit_of_0)
  then have "0 < unat v" by (simp add: unat_gt_0)
  then show ?thesis by (simp add: drop_bit_eq_div unat_div)
qed

function put_varint :: "u64w \<Rightarrow> byte list" where
  "put_varint v =
     (let b = ucast (v AND 0x7F); v' = drop_bit 7 v
      in if v' \<noteq> 0 then (b OR 0x80) # put_varint v' else [b])"
  by pat_completeness auto
termination by (relation "measure unat") (auto simp: drop_bit_less)

declare put_varint.simps [simp del]

definition put_tag :: "nat \<Rightarrow> nat \<Rightarrow> byte list" where
  "put_tag field wire = put_varint (push_bit 3 (word_of_nat field) OR word_of_nat wire)"

definition put_msg :: "nat \<Rightarrow> byte list \<Rightarrow> byte list" where
  "put_msg field msg = put_tag field 2 @ put_varint (word_of_nat (length msg)) @ msg"

definition put_str :: "nat \<Rightarrow> string \<Rightarrow> byte list" where
  "put_str field s = put_tag field 2 @ put_varint (word_of_nat (length (as_bytes s))) @ as_bytes s"

definition put_vint_field :: "nat \<Rightarrow> u64w \<Rightarrow> byte list" where
  "put_vint_field field v = put_tag field 0 @ put_varint v"

section \<open>Reading back\<close>

text \<open>A cursor between what was read and what is left.\<close>

definition cursor :: "byte list \<Rightarrow> byte list \<Rightarrow> pb" where
  "cursor pre rest = \<lparr>pb_buf = pre @ rest, pb_pos = length pre\<rparr>"

lemma pb_new_cursor: "pb_new buf = cursor [] buf"
  by (simp add: pb_new_def cursor_def)

lemma at_end_cursor [simp]: "at_end (cursor pre rest) \<longleftrightarrow> rest = []"
  by (simp add: at_end_def cursor_def)

lemma low_byte:
  "(ucast (v AND 0x7F :: u64w) :: byte) AND 0x80 = 0"
  "(ucast (v AND 0x7F :: u64w) :: byte) AND 0x7F = ucast (v AND 0x7F)"
  "((ucast (v AND 0x7F :: u64w) :: byte) OR 0x80) AND 0x80 \<noteq> 0"
  "((ucast (v AND 0x7F :: u64w) :: byte) OR 0x80) AND 0x7F = ucast (v AND 0x7F)"
  "ucast (ucast (v AND 0x7F :: u64w) :: byte) = v AND 0x7F"
proof -
  have m: "(0x7F :: byte) = mask 7" "(0x7F :: u64w) = mask 7" by (simp_all add: mask_eq_exp_minus_1)
  have b: "bit (0x80 :: byte) n \<longleftrightarrow> n = 7" for n
    using bit_exp_iff [where m = 7 and n = n and 'a = byte] by auto
  show low: "(ucast (v AND 0x7F :: u64w) :: byte) AND 0x7F = ucast (v AND 0x7F)"
    and "ucast (ucast (v AND 0x7F :: u64w) :: byte) = v AND 0x7F"
    unfolding m by (auto intro!: bit_eqI simp: bit_simps)
  have "(ucast (v AND 0x7F :: u64w) :: byte) AND 0x80 = ucast (v AND 0x7F) AND (0x7F AND 0x80)"
    by (subst low [symmetric]) (simp only: and.assoc)
  then show "(ucast (v AND 0x7F :: u64w) :: byte) AND 0x80 = 0" by simp
  show "((ucast (v AND 0x7F :: u64w) :: byte) OR 0x80) AND 0x7F = ucast (v AND 0x7F)"
    using low by (simp add: bit.conj_disj_distrib2)
  have "bit (((ucast (v AND 0x7F :: u64w) :: byte) OR 0x80) AND 0x80) 7"
    by (simp add: bit_simps b)
  then show "((ucast (v AND 0x7F :: u64w) :: byte) OR 0x80) AND 0x80 \<noteq> 0" by auto
qed

lemma split_septet:
  "push_bit s (v AND 0x7F) OR push_bit (s + 7) (drop_bit 7 v) = push_bit s (v :: u64w)"
proof -
  have m: "(0x7F :: u64w) = mask 7" by (simp add: mask_eq_exp_minus_1)
  show ?thesis
  proof (rule bit_eqI)
    fix n assume "possible_bit TYPE(u64w) n"
    then show "bit (push_bit s (v AND 0x7F) OR push_bit (s + 7) (drop_bit 7 v)) n \<longleftrightarrow> bit (push_bit s v) n"
      unfolding m by (cases "n < s + 7") (auto simp: bit_simps)
  qed
qed

lemma varint_step:
  "varint_loop (cursor pre (b # rest)) r s =
     (if b AND 0x80 = 0 then Some (cursor (pre @ [b]) rest, r OR push_bit s (ucast (b AND 0x7F)))
      else if 64 \<le> s + 7 then None
      else varint_loop (cursor (pre @ [b]) rest) (r OR push_bit s (ucast (b AND 0x7F))) (s + 7))"
  by (subst varint_loop.simps) (simp add: Let_def cursor_def at_end_def)

lemma varint_back:
  assumes "unat v < 2 ^ (64 - s)" "s < 64"
  shows "varint_loop (cursor pre (put_varint v @ rest)) r s =
    Some (cursor (pre @ put_varint v) rest, r OR push_bit s v)"
  using assms
proof (induction v arbitrary: pre r s rule: put_varint.induct)
  case (1 v)
  show ?case
  proof (cases "drop_bit 7 v = 0")
    case True
    then have "put_varint v = [ucast (v AND 0x7F)]" by (subst put_varint.simps) simp
    moreover have "push_bit s (v AND 0x7F) = push_bit s v" using split_septet [of s v] True by simp
    ultimately show ?thesis by (simp add: varint_step low_byte del: push_bit_and)
  next
    case False
    then have pv: "put_varint v = (ucast (v AND 0x7F) OR 0x80) # put_varint (drop_bit 7 v)"
      by (subst put_varint.simps) simp
    have "unat (drop_bit 7 v) \<noteq> 0" using False by (simp add: unat_eq_zero)
    then have big: "2 ^ 7 \<le> unat v" by (simp add: drop_bit_eq_div unat_div div_eq_0_iff not_less)
    have s: "s + 7 < 64"
    proof (rule ccontr)
      assume "\<not> s + 7 < 64"
      then have "(2::nat) ^ (64 - s) \<le> 2 ^ 7" by (intro power_increasing) simp_all
      then show False using big 1(2) by simp
    qed
    have "64 - s = 64 - (s + 7) + 7" using s by simp
    then have "(2::nat) ^ (64 - s) = 2 ^ (64 - (s + 7)) * 2 ^ 7" by (simp only: power_add)
    then have small: "unat (drop_bit 7 v) < 2 ^ (64 - (s + 7))"
      using 1(2) by (simp add: drop_bit_eq_div unat_div less_mult_imp_div_less)
    have "(r OR push_bit s (v AND 0x7F)) OR push_bit (s + 7) (drop_bit 7 v) = r OR push_bit s v"
      by (simp only: or.assoc split_septet)
    then show ?thesis using 1(1) [OF refl refl False small s] s
      by (simp add: pv varint_step low_byte not_le del: push_bit_and)
  qed
qed

lemma read_varint_back:
  "read_varint (cursor pre (put_varint v @ rest)) = Some (cursor (pre @ put_varint v) rest, v)"
  using varint_back [of v 0 pre rest 0] unsigned_less [of v] by (simp add: read_varint_def)

lemma read_tag_back:
  assumes "0 < field" "field < 2 ^ 32" "wire < 8"
  shows "read_tag (cursor pre (put_tag field wire @ rest)) =
    Some (cursor (pre @ put_tag field wire) rest, field, wire)"
proof -
  define f w where "f = (word_of_nat field :: u64w)" and "w = (word_of_nat wire :: u64w)"
  have u: "unat f = field" "unat w = wire"
    using assms by (simp_all add: f_def w_def unat_of_nat)
  have m: "(7 :: u64w) = mask 3" by (simp add: mask_eq_exp_minus_1)
  have w: "drop_bit 3 w = 0" "take_bit 3 w = w"
    using assms(3) u(2) by (simp_all add: drop_bit_eq_div word_unat_eq_iff unat_div unsigned_take_bit_eq
        take_bit_nat_eq_self)
  have f: "drop_bit 3 (push_bit 3 f) = f" "take_bit 3 (push_bit 3 f) = 0"
  proof -
    have "drop_bit 3 (push_bit 3 f) = take_bit 61 f"
      by (rule bit_eqI) (auto simp: bit_simps)
    also have "\<dots> = f"
      using assms(2) u(1) by (simp add: word_unat_eq_iff unsigned_take_bit_eq take_bit_nat_eq_self)
    finally show "drop_bit 3 (push_bit 3 f) = f" .
    show "take_bit 3 (push_bit 3 f) = 0" by (rule bit_eqI) (auto simp: bit_simps)
  qed
  have "drop_bit 3 (push_bit 3 f OR w) = f" "(push_bit 3 f OR w) AND 7 = w"
    unfolding m by (simp_all add: drop_bit_or f w take_bit_or flip: take_bit_eq_mask)
  moreover have "unat (ucast f :: u32w) = field"
    using assms(2) u(1) by (simp add: unsigned_ucast_eq take_bit_nat_def)
  ultimately show ?thesis
    using assms(1) by (simp add: read_tag_def put_tag_def read_varint_back u flip: f_def w_def)
qed

lemma read_bytes_back:
  assumes "length (pre @ put_varint (word_of_nat (length bs)) @ bs) < 2 ^ 64"
  shows "read_bytes (cursor pre (put_varint (word_of_nat (length bs)) @ bs @ rest)) =
    Some (cursor (pre @ put_varint (word_of_nat (length bs)) @ bs) rest, bs)"
  using assms
  by (simp add: read_bytes_def read_varint_back unat_of_nat checked_add_usize_def)
    (simp add: cursor_def)

text \<open>Text that is well-formed UTF-8 when its characters are read as bytes.\<close>

definition utf8_text :: "string \<Rightarrow> bool" where
  "utf8_text s \<longleftrightarrow> utf8_valid (map of_char s)"

lemma from_utf8_back: "utf8_text s \<Longrightarrow> from_utf8 (as_bytes s) = Some s"
proof -
  have "unat (word_of_nat (of_char c) :: byte) = of_char c" for c :: char
    by (simp add: unat_of_nat)
  then have "map unat (as_bytes s) = map of_char s" "map (\<lambda>b. char_of (unat b)) (as_bytes s) = s"
    by (simp_all add: as_bytes_def chr_code_def comp_def)
  then show "utf8_text s \<Longrightarrow> from_utf8 (as_bytes s) = Some s"
    by (simp add: from_utf8_def utf8_text_def)
qed

lemma read_str_back:
  assumes "length (pre @ put_varint (word_of_nat (length (as_bytes s))) @ as_bytes s) < 2 ^ 64" "utf8_text s"
  shows "read_str (cursor pre (put_varint (word_of_nat (length (as_bytes s))) @ as_bytes s @ rest)) =
    Some (cursor (pre @ put_varint (word_of_nat (length (as_bytes s))) @ as_bytes s) rest, s)"
  using assms by (simp add: read_str_def read_bytes_back from_utf8_back)

lemma put_varint_not_Nil [simp]: "put_varint v \<noteq> []"
  by (subst put_varint.simps) (simp add: Let_def)

lemma put_not_Nil [simp]:
  "put_tag f w \<noteq> []" "put_str f s \<noteq> []" "put_msg f bs \<noteq> []" "put_vint_field f v \<noteq> []"
  by (simp_all add: put_tag_def put_str_def put_msg_def put_vint_field_def)

section \<open>A deal\<close>

definition encode_deal :: "deal \<Rightarrow> byte list" where
  "encode_deal d =
     put_str 1 (dl_price d) @ put_str 2 (dl_quantity d) @
     put_vint_field 3 (word_of_int (dl_trade_type d)) @ put_vint_field 4 (word_of_int (dl_time d))"

definition deal_ok :: "deal \<Rightarrow> bool" where
  "deal_ok d \<longleftrightarrow> dl_price d \<noteq> [] \<and> utf8_text (dl_price d) \<and> utf8_text (dl_quantity d) \<and>
     - (2 ^ 31) \<le> dl_trade_type d \<and> dl_trade_type d < 2 ^ 31 \<and> in_i64 (dl_time d)"

lemma deal_loop_step:
  assumes "deal_field (cursor pre (bs @ rest)) d = Some (cursor (pre @ bs) rest, d')" "bs \<noteq> []"
  shows "deal_loop (cursor pre (bs @ rest)) d = deal_loop (cursor (pre @ bs) rest) d'"
  using assms by (subst deal_loop.simps) simp

lemma deal_loop_end: "deal_loop (cursor pre []) d = Some d"
  by (subst deal_loop.simps) simp

lemma deal_str_field:
  assumes "length (pre @ put_str f s) < 2 ^ 64" "utf8_text s" "f \<in> {1, 2}"
  shows "deal_field (cursor pre (put_str f s @ rest)) d = Some (cursor (pre @ put_str f s) rest,
    if f = 1 then d\<lparr>dl_price := s\<rparr> else d\<lparr>dl_quantity := s\<rparr>)"
  using assms by (auto simp: deal_field_def put_str_def read_tag_back read_str_back)

lemma deal_type_field:
  assumes "- (2 ^ 31) \<le> t" "t < 2 ^ 31"
  shows "deal_field (cursor pre (put_vint_field 3 (word_of_int t) @ rest)) d =
    Some (cursor (pre @ put_vint_field 3 (word_of_int t)) rest, d\<lparr>dl_trade_type := t\<rparr>)"
proof -
  have "sint (ucast (word_of_int t :: u64w) :: u32w) = t"
    using assms by (simp add: unsigned_of_int signed_of_int signed_take_bit_take_bit signed_take_bit_int_eq_self)
  then show ?thesis by (simp add: deal_field_def put_vint_field_def read_tag_back read_varint_back)
qed

lemma deal_time_field:
  assumes "in_i64 t"
  shows "deal_field (cursor pre (put_vint_field 4 (word_of_int t) @ rest)) d =
    Some (cursor (pre @ put_vint_field 4 (word_of_int t)) rest, d\<lparr>dl_time := t\<rparr>)"
proof -
  have "sint (word_of_int t :: u64w) = t"
    using assms by (simp add: in_i64_def signed_of_int signed_take_bit_int_eq_self)
  then show ?thesis by (simp add: deal_field_def put_vint_field_def read_tag_back read_varint_back)
qed

lemma decode_encode_deal:
  assumes "deal_ok d" "length (encode_deal d) < 2 ^ 64"
  shows "decode_deal (encode_deal d) = Some d"
proof -
  define a where "a = put_str 1 (dl_price d)"
  define b where "b = put_str 2 (dl_quantity d)"
  define c where "c = put_vint_field 3 (word_of_int (dl_trade_type d))"
  define e where "e = put_vint_field 4 (word_of_int (dl_time d))"
  have fits: "length a < 2 ^ 64" "length (a @ b) < 2 ^ 64"
    using assms(2) by (simp_all add: encode_deal_def a_def b_def)
  have all: "deal_default\<lparr>dl_price := dl_price d, dl_quantity := dl_quantity d,
      dl_trade_type := dl_trade_type d, dl_time := dl_time d\<rparr> = d" by (simp add: deal_default_def)
  have "deal_loop (cursor [] (a @ b @ c @ e)) deal_default =
      deal_loop (cursor a (b @ c @ e)) (deal_default\<lparr>dl_price := dl_price d\<rparr>)"
    using deal_loop_step [OF deal_str_field [of "[]" 1 "dl_price d" "b @ c @ e" deal_default]] fits assms(1)
    by (simp add: a_def deal_ok_def)
  also have "\<dots> = deal_loop (cursor (a @ b) (c @ e)) (deal_default\<lparr>dl_price := dl_price d, dl_quantity := dl_quantity d\<rparr>)"
    using deal_loop_step [OF deal_str_field [of a 2 "dl_quantity d" "c @ e"]] fits assms(1)
    by (simp add: b_def deal_ok_def)
  also have "\<dots> = deal_loop (cursor (a @ b @ c) (e @ [])) (deal_default\<lparr>dl_price := dl_price d,
      dl_quantity := dl_quantity d, dl_trade_type := dl_trade_type d\<rparr>)"
    using deal_loop_step [OF deal_type_field [of "dl_trade_type d" "a @ b" e]] assms(1)
    by (simp add: c_def deal_ok_def)
  also have "\<dots> = deal_loop (cursor (a @ b @ c @ e) []) d"
    using deal_loop_step [OF deal_time_field [of "dl_time d" "a @ b @ c" "[]"]] assms(1)
    by (simp add: e_def deal_ok_def all)
  finally have "deal_loop (cursor [] (a @ b @ c @ e)) deal_default = Some d" by (simp add: deal_loop_end)
  moreover have "encode_deal d = a @ b @ c @ e" by (simp add: encode_deal_def a_def b_def c_def e_def)
  ultimately show ?thesis
    using assms(1) by (simp add: decode_deal_def pb_new_cursor deal_ok_def)
qed

section \<open>A frame\<close>

definition encode_deals :: "deal list \<Rightarrow> string \<Rightarrow> byte list" where
  "encode_deals ds event_type = concat (map (\<lambda>d. put_msg 1 (encode_deal d)) ds) @ put_str 2 event_type"

definition encode_push :: "string \<Rightarrow> nat \<Rightarrow> byte list \<Rightarrow> byte list" where
  "encode_push channel field body = put_str 1 channel @ put_msg field body"

lemma put_str_msg: "put_str f s = put_msg f (as_bytes s)"
  by (simp add: put_str_def put_msg_def)

lemma deals_loop_deals:
  assumes "list_all deal_ok ds" "length (pre @ concat (map (\<lambda>d. put_msg 1 (encode_deal d)) ds)) < 2 ^ 64"
  shows "deals_loop (cursor pre (concat (map (\<lambda>d. put_msg 1 (encode_deal d)) ds) @ rest)) acc =
    deals_loop (cursor (pre @ concat (map (\<lambda>d. put_msg 1 (encode_deal d)) ds)) rest) (acc @ ds)"
  using assms
proof (induction ds arbitrary: pre acc)
  case (Cons d ds)
  let ?m = "put_msg 1 (encode_deal d)" and ?ms = "concat (map (\<lambda>d. put_msg 1 (encode_deal d)) ds)"
  have fits: "length (pre @ ?m) < 2 ^ 64" using Cons.prems(2) by simp
  then have "decode_deal (encode_deal d) = Some d"
    using Cons.prems(1) by (intro decode_encode_deal) (simp_all add: put_msg_def)
  then have "deals_field (cursor pre (?m @ ?ms @ rest)) acc = Some (cursor (pre @ ?m) (?ms @ rest), acc @ [d])"
    using fits by (simp add: deals_field_def put_msg_def read_tag_back read_bytes_back)
  then have "deals_loop (cursor pre (?m @ ?ms @ rest)) acc = deals_loop (cursor (pre @ ?m) (?ms @ rest)) (acc @ [d])"
    by (subst deals_loop.simps) simp
  then show ?case using Cons.IH [of "pre @ ?m" "acc @ [d]"] Cons.prems by simp
qed simp

lemma decode_encode_deals:
  assumes "list_all deal_ok ds" "length (encode_deals ds event_type) < 2 ^ 64"
  shows "decode_deals (encode_deals ds event_type) = Some ds"
proof -
  let ?ms = "concat (map (\<lambda>d. put_msg 1 (encode_deal d)) ds)"
  have fits: "length (?ms @ put_msg 2 (as_bytes event_type)) < 2 ^ 64"
    using assms(2) by (simp add: encode_deals_def put_str_msg)
  then have "deals_field (cursor ?ms (put_msg 2 (as_bytes event_type) @ [])) ds =
      Some (cursor (?ms @ put_msg 2 (as_bytes event_type)) [], ds)"
    using read_bytes_back [of "?ms @ put_tag 2 2" "as_bytes event_type" "[]"]
    by (simp add: deals_field_def put_msg_def read_tag_back pb_skip_def)
  then have "deals_loop (cursor ?ms (put_msg 2 (as_bytes event_type))) ds = Some ds"
    by (subst deals_loop.simps, simp) (subst deals_loop.simps, simp)
  then show ?thesis
    using deals_loop_deals [OF assms(1), of "[]" "put_msg 2 (as_bytes event_type)" "[]"] fits
    by (simp add: decode_deals_def encode_deals_def pb_new_cursor put_str_msg)
qed

lemma decode_encode_push:
  assumes "channel \<noteq> []" "utf8_text channel" "301 \<le> field" "field \<le> 399"
    and "length (encode_push channel field body) < 2 ^ 64"
  shows "decode_wrapper (encode_push channel field body) = Some \<lparr>wr_channel = channel, wr_body = body\<rparr>"
proof -
  let ?c = "put_str 1 channel" and ?b = "put_msg field body"
  have "wrapper_field (cursor [] (?c @ ?b)) \<lparr>wr_channel = [], wr_body = []\<rparr> =
      Some (cursor ?c ?b, \<lparr>wr_channel = channel, wr_body = []\<rparr>)"
    using read_str_back [of "put_tag 1 2" channel ?b] assms(2,5) read_tag_back [of 1 2 "[]"]
    by (simp add: wrapper_field_def put_str_def encode_push_def)
  moreover have "wrapper_field (cursor ?c (?b @ [])) \<lparr>wr_channel = channel, wr_body = []\<rparr> =
      Some (cursor (?c @ ?b) [], \<lparr>wr_channel = channel, wr_body = body\<rparr>)"
    using read_bytes_back [of "?c @ put_tag field 2" body "[]"] assms(3-5)
    by (simp add: wrapper_field_def put_msg_def encode_push_def read_tag_back)
  ultimately have "wrapper_loop (cursor [] (?c @ ?b)) \<lparr>wr_channel = [], wr_body = []\<rparr> =
      Some \<lparr>wr_channel = channel, wr_body = body\<rparr>"
    by (subst wrapper_loop.simps, simp) (subst wrapper_loop.simps, simp, subst wrapper_loop.simps, simp)
  then show ?thesis using assms(1) by (simp add: decode_wrapper_def encode_push_def pb_new_cursor)
qed

section \<open>Theorem\<close>

text \<open>
  C19: a MEXC spot frame that carries any list of deals, in any of the body fields and with an event
  type behind them that the program does not read, is decoded to exactly these deals: what the
  parser returns is what it makes of each of them, in order, with nothing lost, duplicated or
  mixed up between two deals.
\<close>

theorem mexc_frame_roundtrip:
  assumes "list_all deal_ok ds" and "utf8_text channel" and "str_contains channel ''deals''"
    and "301 \<le> field" "field \<le> 399"
    and "length (encode_push channel field (encode_deals ds event_type)) < 2 ^ 64"
  shows "mexc_spot_parse_value (encode_push channel field (encode_deals ds event_type)) spec =
    try_collect (mexc_spot_deal spec) ds"
proof -
  have "channel \<noteq> []" using assms(3) by auto
  moreover have "length (encode_deals ds event_type) < 2 ^ 64"
    using assms(6) by (simp add: encode_push_def put_msg_def)
  ultimately show ?thesis
    using decode_encode_push [OF _ assms(2,4,5,6)] decode_encode_deals [OF assms(1)] assms(3)
    by (simp add: mexc_spot_parse_value_def)
qed

definition sample_deal :: deal where
  "sample_deal = \<lparr>dl_price = ''100.5'', dl_quantity = ''0.25'', dl_trade_type = 2, dl_time = 1700000000123\<rparr>"

definition sample_spot :: symbol_spec where
  "sample_spot = \<lparr>sp_exchange = Mexc, sp_market_type = Spot, sp_quote = Usdt, sp_symbol = ''BTCUSDT'',
     sp_price_scale = 2, sp_qty_scale = 3, sp_tick_size = 1, sp_step_size = 1\<rparr>"

lemma mexc_frame_roundtrip_witness:
  "mexc_spot_parse_value (encode_push ''deals@BTCUSDT'' 301 (encode_deals [sample_deal] ''deals'')) sample_spot =
    Inr [\<lparr>tp_ts_ns = 1700000000123000000, tp_aggressor = Ask, tp_price = 10050, tp_qty = 250, tp_trade_id = 0\<rparr>]"
proof -
  have len: "length (encode_push ''deals@BTCUSDT'' 301 (encode_deals [sample_deal] ''deals'')) < 100"
    by code_simp
  have ok: "list_all deal_ok [sample_deal]"
    by (simp add: deal_ok_def sample_deal_def utf8_text_def in_i64_def)
  have ch: "utf8_text ''deals@BTCUSDT''" "str_contains ''deals@BTCUSDT'' ''deals''"
    by code_simp+
  have "try_collect (mexc_spot_deal sample_spot) [sample_deal] = Inr [\<lparr>tp_ts_ns = 1700000000123000000,
      tp_aggressor = Ask, tp_price = 10050, tp_qty = 250, tp_trade_id = 0\<rparr>]"
    by code_simp
  then show ?thesis
    using mexc_frame_roundtrip [OF ok ch, of 301 "''deals''" sample_spot] len
    by (simp del: try_collect.simps)
qed

end
