(* ===== verification/Supervisor_Run.thy ===== *)
theory Supervisor_Run
  imports Supervisor_Theorems
begin

text \<open>
  Whole runs of a supervisor against what they should do: follow the listing. The abstract
  supervisor is the set of symbols that run and the number of times routes were published.
\<close>

section \<open>The abstract supervisor\<close>



text \<open>The listings of a run name usable instruments, as the listings of every adapter do.\<close>

definition usable_listing :: "'f wakeup \<Rightarrow> bool" where
  "usable_listing e \<longleftrightarrow>
     (case e of DiscoveryTick (Inr specs) _ \<Rightarrow> list_all spec_usable specs | _ \<Rightarrow> True)"

lemma usable_listing_simps [simp]:
  "usable_listing (DiscoveryTick (Inr specs) ranker) \<longleftrightarrow> list_all spec_usable specs"
  "usable_listing (DiscoveryTick (Inl e) ranker)" "usable_listing (ShutdownChanged stop)"
  by (simp_all add: usable_listing_def)


section \<open>The loop follows it\<close>





section \<open>Theorem\<close>



end
