(* ===== verification/Ingest_Main.thy ===== *)
theory Ingest_Main
  imports Supervisor Ch_Sink Api_Server
begin

text \<open>
  The start of the ingest process, \<open>crates/cluster-ingest/src/main.rs\<close>: the overrides from the
  environment, the checks, the writers of the timeframes, the seventeen pipelines and which of them
  run, and the dispatch of \<open>binance_supervisor.rs\<close> from a pipeline to its session. The network
  servers, the client builders and the signal handler are left out.
\<close>

section \<open>Pipelines\<close>

datatype session_flavor =
  FlBinance | FlBybit | FlOkx | FlBitget | FlAster | FlKucoin | FlMexc | FlHyperliquid | FlBingx

text \<open>The concrete type behind \<open>Arc<dyn WsConnector>\<close>, which a session downcasts to.\<close>

datatype connector_kind =
  BinanceFuturesWs | BinanceSpotWs | BybitWs | OkxWs | BitgetWs | AsterWs | KucoinWs | MexcWs
| HyperliquidWs | BingxWs

text \<open>The match of \<open>run_session_loop\<close>: which session runs, \<open>None\<close> for a failed downcast.\<close>

definition session_dispatch :: "session_flavor \<Rightarrow> connector_kind \<Rightarrow> session_flavor option" where
  "session_dispatch flavor connector =
     (case flavor of
        FlBinance \<Rightarrow> Some FlBinance
      | FlBybit \<Rightarrow> if connector = BybitWs then Some FlBybit else None
      | FlOkx \<Rightarrow> if connector = OkxWs then Some FlOkx else None
      | FlBitget \<Rightarrow> if connector = BitgetWs then Some FlBitget else None
      | FlAster \<Rightarrow> if connector = AsterWs then Some FlAster else None
      | FlKucoin \<Rightarrow> if connector = KucoinWs then Some FlKucoin else None
      | FlMexc \<Rightarrow> if connector = MexcWs then Some FlMexc else None
      | FlHyperliquid \<Rightarrow> if connector = HyperliquidWs then Some FlHyperliquid else None
      | FlBingx \<Rightarrow> if connector = BingxWs then Some FlBingx else None)"

text \<open>The instrument lists, each with its category.\<close>

datatype info_kind =
  BinanceFuturesInfo
| BinanceSpotInfo
| BybitInfo bybit_category
| OkxInfo okx_category
| BitgetInfo bitget_category
| AsterInfo aster_category
| KucoinInfo kucoin_category
| MexcInfo mexc_category
| HyperliquidInfo
| BingxInfo bingx_category

record pipeline =
  pl_name :: string
  pl_info :: info_kind
  pl_connector :: connector_kind
  pl_flavor :: session_flavor
  pl_exchange :: exchange
  pl_market_type :: market_type

definition binance_perp_pipeline :: pipeline where
  "binance_perp_pipeline = \<lparr>pl_name = ''binance_perp'', pl_info = BinanceFuturesInfo, pl_connector = BinanceFuturesWs,
     pl_flavor = FlBinance, pl_exchange = BinanceF, pl_market_type = Perp\<rparr>"

definition binance_spot_pipeline :: pipeline where
  "binance_spot_pipeline = \<lparr>pl_name = ''binance_spot'', pl_info = BinanceSpotInfo, pl_connector = BinanceSpotWs,
     pl_flavor = FlBinance, pl_exchange = Binance, pl_market_type = Spot\<rparr>"

definition bybit_perp_pipeline :: pipeline where
  "bybit_perp_pipeline = \<lparr>pl_name = ''bybit_perp'', pl_info = BybitInfo BybitLinear, pl_connector = BybitWs,
     pl_flavor = FlBybit, pl_exchange = BybitF, pl_market_type = Perp\<rparr>"

definition bybit_spot_pipeline :: pipeline where
  "bybit_spot_pipeline = \<lparr>pl_name = ''bybit_spot'', pl_info = BybitInfo BybitSpot, pl_connector = BybitWs,
     pl_flavor = FlBybit, pl_exchange = Bybit, pl_market_type = Spot\<rparr>"

definition okx_perp_pipeline :: pipeline where
  "okx_perp_pipeline = \<lparr>pl_name = ''okx_perp'', pl_info = OkxInfo OkxSwap, pl_connector = OkxWs,
     pl_flavor = FlOkx, pl_exchange = OkxF, pl_market_type = Perp\<rparr>"

definition okx_spot_pipeline :: pipeline where
  "okx_spot_pipeline = \<lparr>pl_name = ''okx_spot'', pl_info = OkxInfo OkxSpot, pl_connector = OkxWs,
     pl_flavor = FlOkx, pl_exchange = Okx, pl_market_type = Spot\<rparr>"

definition bitget_perp_pipeline :: pipeline where
  "bitget_perp_pipeline = \<lparr>pl_name = ''bitget_perp'', pl_info = BitgetInfo BitgetPerp, pl_connector = BitgetWs,
     pl_flavor = FlBitget, pl_exchange = BitgetF, pl_market_type = Perp\<rparr>"

definition bitget_spot_pipeline :: pipeline where
  "bitget_spot_pipeline = \<lparr>pl_name = ''bitget_spot'', pl_info = BitgetInfo BitgetSpot, pl_connector = BitgetWs,
     pl_flavor = FlBitget, pl_exchange = Bitget, pl_market_type = Spot\<rparr>"

definition aster_perp_pipeline :: pipeline where
  "aster_perp_pipeline = \<lparr>pl_name = ''aster_perp'', pl_info = AsterInfo AsterPerp, pl_connector = AsterWs,
     pl_flavor = FlAster, pl_exchange = AsterF, pl_market_type = Perp\<rparr>"

definition aster_spot_pipeline :: pipeline where
  "aster_spot_pipeline = \<lparr>pl_name = ''aster_spot'', pl_info = AsterInfo AsterSpot, pl_connector = AsterWs,
     pl_flavor = FlAster, pl_exchange = Aster, pl_market_type = Spot\<rparr>"

definition kucoin_perp_pipeline :: pipeline where
  "kucoin_perp_pipeline = \<lparr>pl_name = ''kucoin_perp'', pl_info = KucoinInfo KucoinPerp, pl_connector = KucoinWs,
     pl_flavor = FlKucoin, pl_exchange = KucoinF, pl_market_type = Perp\<rparr>"

definition kucoin_spot_pipeline :: pipeline where
  "kucoin_spot_pipeline = \<lparr>pl_name = ''kucoin_spot'', pl_info = KucoinInfo KucoinSpot, pl_connector = KucoinWs,
     pl_flavor = FlKucoin, pl_exchange = Kucoin, pl_market_type = Spot\<rparr>"

definition mexc_perp_pipeline :: pipeline where
  "mexc_perp_pipeline = \<lparr>pl_name = ''mexc_perp'', pl_info = MexcInfo MexcPerp, pl_connector = MexcWs,
     pl_flavor = FlMexc, pl_exchange = MexcF, pl_market_type = Perp\<rparr>"

definition mexc_spot_pipeline :: pipeline where
  "mexc_spot_pipeline = \<lparr>pl_name = ''mexc_spot'', pl_info = MexcInfo MexcSpot, pl_connector = MexcWs,
     pl_flavor = FlMexc, pl_exchange = Mexc, pl_market_type = Spot\<rparr>"

definition hyperliquid_perp_pipeline :: pipeline where
  "hyperliquid_perp_pipeline = \<lparr>pl_name = ''hyperliquid_perp'', pl_info = HyperliquidInfo, pl_connector = HyperliquidWs,
     pl_flavor = FlHyperliquid, pl_exchange = HyperliquidF, pl_market_type = Perp\<rparr>"

definition bingx_perp_pipeline :: pipeline where
  "bingx_perp_pipeline = \<lparr>pl_name = ''bingx_perp'', pl_info = BingxInfo BingxSwap, pl_connector = BingxWs,
     pl_flavor = FlBingx, pl_exchange = BingxF, pl_market_type = Perp\<rparr>"

definition bingx_spot_pipeline :: pipeline where
  "bingx_spot_pipeline = \<lparr>pl_name = ''bingx_spot'', pl_info = BingxInfo BingxSpot, pl_connector = BingxWs,
     pl_flavor = FlBingx, pl_exchange = Bingx, pl_market_type = Spot\<rparr>"

definition pipelines :: "pipeline list" where
  "pipelines =
    [binance_perp_pipeline, binance_spot_pipeline, bybit_perp_pipeline,
     bybit_spot_pipeline, okx_perp_pipeline, okx_spot_pipeline,
     bitget_perp_pipeline, bitget_spot_pipeline, aster_perp_pipeline,
     aster_spot_pipeline, kucoin_perp_pipeline, kucoin_spot_pipeline,
     mexc_perp_pipeline, mexc_spot_pipeline, hyperliquid_perp_pipeline,
     bingx_perp_pipeline, bingx_spot_pipeline]"

lemmas pipeline_defs = pipelines_def binance_perp_pipeline_def binance_spot_pipeline_def bybit_perp_pipeline_def
  bybit_spot_pipeline_def okx_perp_pipeline_def okx_spot_pipeline_def bitget_perp_pipeline_def
  bitget_spot_pipeline_def aster_perp_pipeline_def aster_spot_pipeline_def
  kucoin_perp_pipeline_def kucoin_spot_pipeline_def mexc_perp_pipeline_def mexc_spot_pipeline_def
  hyperliquid_perp_pipeline_def bingx_perp_pipeline_def bingx_spot_pipeline_def

text \<open>\<open>fetch_symbols\<close> of a pipeline's instrument list, from its default address. The process-wide
  tables of contract multipliers and native coin names are passed along.\<close>

record listing_tables =
  lt_okx :: ct_map
  lt_kucoin :: ct_map
  lt_mexc :: ct_map
  lt_native :: native_map

definition snd_ok :: "exchange_error + ('m \<times> symbol_spec list) \<Rightarrow> exchange_error + symbol_spec list" where
  "snd_ok r = rbind r (\<lambda>(m, sps). Inr sps)"

definition info_fetch_symbols ::
  "'j json_api \<Rightarrow> ('j, 'f) f64_api \<Rightarrow> http_client \<Rightarrow> listing_tables \<Rightarrow> info_kind
   \<Rightarrow> (exchange_error + symbol_spec list) option" where
  "info_fetch_symbols J F http tb info =
     (case info of
        BinanceFuturesInfo \<Rightarrow> Some (binance_futures_fetch_symbols J http ''https://fapi.binance.com'')
      | BinanceSpotInfo \<Rightarrow> Some (binance_spot_fetch_symbols J http ''https://api.binance.com'')
      | BybitInfo c \<Rightarrow> Some (bybit_fetch_symbols J http ''https://api.bybit.com'' c)
      | OkxInfo c \<Rightarrow> map_option snd_ok (okx_fetch_symbols J http ''https://www.okx.com'' c (lt_okx tb))
      | BitgetInfo c \<Rightarrow> Some (bitget_fetch_symbols J http ''https://api.bitget.com'' c)
      | AsterInfo c \<Rightarrow>
          Some (aster_fetch_symbols J http ''https://fapi.asterdex.com'' ''https://sapi.asterdex.com'' c)
      | KucoinInfo c \<Rightarrow> map_option snd_ok (kucoin_fetch_symbols J http c (lt_kucoin tb))
      | MexcInfo c \<Rightarrow> map_option snd_ok (mexc_fetch_symbols J F http c (lt_mexc tb))
      | HyperliquidInfo \<Rightarrow> Some (snd_ok (hyperliquid_fetch_symbols J http (lt_native tb)))
      | BingxInfo c \<Rightarrow> Some (bingx_fetch_symbols J F http c))"

section \<open>The start\<close>

text \<open>The environment variables the start reads; the retention and auth ones are their values.\<close>

record env_vars =
  ev_region :: "string option"
  ev_ch_url :: "string option"
  ev_top_n :: "string option"
  ev_grpc_listen :: "string option"
  ev_rest_listen :: "string option"
  ev_auth_token :: "string option"
  ev_auth_enabled :: "string option"

record startup =
  su_ingest :: ingest_config
  su_auth :: auth_state
  su_writers :: "(nat \<times> ch_writer_config \<times> string option) list"
  su_supervisors :: "(pipeline \<times> perp_config) list"

text \<open>The configuration: the file \<open>INGEST_CONFIG\<close> names, or the defaults.\<close>

definition main_config ::
  "(string \<Rightarrow> string + string) \<Rightarrow> (string \<Rightarrow> string + ingest_config) \<Rightarrow> string option \<Rightarrow> string + ingest_config" where
  "main_config read_file toml config_env =
     (case config_env of Some path \<Rightarrow> config_load read_file toml path | None \<Rightarrow> Inr ingest_config_default)"

definition section_config :: "ingest_config \<Rightarrow> string \<Rightarrow> perp_config" where
  "section_config c name = unwrap_or (map_of (ic_exchanges c) name) perp_config_default"

definition apply_env :: "env_vars \<Rightarrow> ingest_config \<Rightarrow> ingest_config" where
  "apply_env ev c =
     c\<lparr>ic_region := unwrap_or (ev_region ev) (ic_region c),
       ic_clickhouse_url := unwrap_or (ev_ch_url ev) (ic_clickhouse_url c),
       ic_grpc_listen := unwrap_or (ev_grpc_listen ev) (ic_grpc_listen c),
       ic_rest_listen := unwrap_or (ev_rest_listen ev) (ic_rest_listen c),
       ic_auth := auth_apply_env (ev_auth_token ev) (ev_auth_enabled ev) (ic_auth c)\<rparr>"

text \<open>\<open>top_n_str.parse()\<close> at \<open>usize\<close>, which is 64 bits wide.\<close>

definition binance_perp_config :: "env_vars \<Rightarrow> ingest_config \<Rightarrow> perp_config" where
  "binance_perp_config ev c =
     (let base = section_config c ''binance_perp'' in
      case Option.bind (ev_top_n ev) (\<lambda>s. res_ok (parse_u64 s)) of
        Some n \<Rightarrow> base\<lparr>pc_top_n := Some n\<rparr>
      | None \<Rightarrow> base)"

definition writer_for :: "ingest_config \<Rightarrow> nat \<Rightarrow> nat \<times> ch_writer_config \<times> string option" where
  "writer_for c tf_secs =
     (let table = table_name_for tf_secs in
      (tf_secs,
       ch_writer_config_default\<lparr>cc_url := ic_clickhouse_url c, cc_database := ic_clickhouse_database c,
         cc_table := table\<rparr>,
       if rc_apply_on_start (ic_retention c) then
         map_option (\<lambda>clause. ''ALTER TABLE '' @ ic_clickhouse_database c @ ''.'' @ table @ '' MODIFY TTL '' @ clause)
           (ttl_clause_for (ic_retention c) tf_secs)
       else None))"

definition enabled_supervisors :: "env_vars \<Rightarrow> ingest_config \<Rightarrow> (pipeline \<times> perp_config) list" where
  "enabled_supervisors ev c =
     List.map_filter (\<lambda>p.
       let cfg = (if pl_name p = ''binance_perp'' then binance_perp_config ev c
                  else section_config c (pl_name p))
       in if is_exchange_enabled c (pl_name p) (pc_enabled cfg) then Some (p, cfg) else None) pipelines"

text \<open>\<open>addr_ok\<close> tells whether a text parses as a \<open>SocketAddr\<close>. A writer channel whose bound
  \<open>mpsc::channel\<close> refuses panics, which ends the process like an error.\<close>

definition startup_run :: "(string \<Rightarrow> bool) \<Rightarrow> env_vars \<Rightarrow> ingest_config \<Rightarrow> string + startup" where
  "startup_run addr_ok ev cfg =
     (let c = apply_env ev cfg in
      rbind (map_err (\<lambda>_. ''invalid [ingest.auth] config'') (auth_validate (ic_auth c))) (\<lambda>_.
      rbind (map_err (\<lambda>_. ''invalid [ingest] timeframes_secs'') (validate_timeframes c)) (\<lambda>_.
      rbind (map_err (\<lambda>_. ''invalid [ingest.retention] config'') (retention_validate (ic_retention c))) (\<lambda>_.
      if \<not> addr_ok (ic_grpc_listen c) then Inl (''parse grpc_listen: '' @ ic_grpc_listen c)
      else if \<not> addr_ok (ic_rest_listen c) then Inl (''parse rest_listen: '' @ ic_rest_listen c)
      else if \<not> channel_bound_ok (ic_ch_channel_bound c) then Inl ''mpsc bounded channel requires buffer > 0''
      else Inr \<lparr>su_ingest = c, su_auth = auth_new (ac_tokens (ic_auth c)) (ac_enabled (ic_auth c)),
                su_writers = map (writer_for c) (ic_timeframes_secs c),
                su_supervisors = enabled_supervisors ev c\<rparr>))))"

text \<open>The supervisor of an enabled pipeline.\<close>

definition start_supervisor :: "startup \<Rightarrow> 'ch cluster_bus \<Rightarrow> pipeline \<times> perp_config \<Rightarrow> 'ch supervisor" where
  "start_supervisor su bus pc =
     supervisor_new (pl_exchange (fst pc)) (pl_market_type (fst pc)) bus (ic_region (su_ingest su))
       (su_ingest su) (snd pc) (map fst (su_writers su))"

section \<open>The end\<close>

text \<open>
  After ctrl-c every supervisor shuts down, each paired here with the senders its session still
  holds; the process waits for all of them, then at most 20 s for the writers, which \<open>drained\<close>
  tells. \<open>None\<close> is a wait that never ends.
\<close>

datatype process_end = WritersDrained | DrainTimedOut

definition main_shutdown :: "('ch supervisor \<times> nat list) list \<Rightarrow> bool \<Rightarrow> process_end option" where
  "main_shutdown svs drained =
     (if list_all (\<lambda>(sv, session). snd (supervisor_shutdown sv session) = []) svs
      then Some (if drained then WritersDrained else DrainTimedOut) else None)"

end
