(* ===== verification/Ingest_Main_Theorems.thy ===== *)
theory Ingest_Main_Theorems
  imports Ingest_Main Supervisor_Theorems Adapter_Theorems Cluster_History_Theorems
begin

text \<open>
  What the start guarantees: the seventeen pipelines do not overlap and their sessions get the
  connector they downcast to, each lists instruments of its own market only, every timeframe has a
  writer and a table of its own, and the first cycle of an enabled pipeline runs what it listed.
\<close>

section \<open>The market of a listing\<close>
















lemma snd_ok_Inr [simp]: "snd_ok r = Inr sps \<longleftrightarrow> (\<exists>m. r = Inr (m, sps))"
  by (auto simp: snd_ok_def)













section \<open>The pipelines\<close>


text \<open>
  The seventeen pipelines have names and markets of their own, so no two of them ever feed one
  stream, and each hands its session the connector the session downcasts to.
\<close>

lemma pipelines_disjoint:
  "distinct (map pl_name pipelines) \<and>
   distinct (map (\<lambda>p. (pl_exchange p, pl_market_type p)) pipelines) \<and>
   list_all (\<lambda>p. session_dispatch (pl_flavor p) (pl_connector p) = Some (pl_flavor p)) pipelines \<and>
   length pipelines = 17"
  by (simp add: pipeline_defs session_dispatch_def)

section \<open>The start\<close>

lemma startup_facts:
  assumes "startup_run addr_ok ev cfg = Inr su"
  shows "auth_validate (ic_auth (su_ingest su)) = Inr () \<and> validate_timeframes (su_ingest su) = Inr ()
    \<and> retention_validate (ic_retention (su_ingest su)) = Inr ()
    \<and> su_auth su = auth_new (ac_tokens (ic_auth (su_ingest su))) (ac_enabled (ic_auth (su_ingest su)))
    \<and> su_writers su = map (writer_for (su_ingest su)) (ic_timeframes_secs (su_ingest su))
    \<and> su_supervisors su = enabled_supervisors ev (su_ingest su)"
  using assms by (auto simp: startup_run_def Let_def split: if_splits)

lemma map_table_writers:
  "map (\<lambda>(_, w, _). cc_table w) (map (writer_for c) tfs) = map table_name_for tfs"
  by (induction tfs) (simp_all add: writer_for_def Let_def)

lemma map_fst_writers: "map fst (map (writer_for c) tfs) = tfs"
  by (induction tfs) (simp_all add: writer_for_def Let_def)

text \<open>
  C33: a start that succeeds never opens the interface with authentication on and no token, and gives
  every timeframe a writer of its own into a table no other timeframe writes to.
\<close>

theorem startup_writers_disjoint:
  assumes "startup_run addr_ok ev cfg = Inr su"
  shows "\<not> (au_enabled (su_auth su) \<and> au_tokens (su_auth su) = []) \<and>
    map fst (su_writers su) = ic_timeframes_secs (su_ingest su) \<and>
    distinct (map (\<lambda>(_, w, _). cc_table w) (su_writers su)) \<and> su_writers su \<noteq> []"
proof (intro conjI)
  note f = startup_facts [OF assms]
  show "\<not> (au_enabled (su_auth su) \<and> au_tokens (su_auth su) = [])"
    using f by (auto simp: auth_new_def auth_validate_def split: if_splits)
  show "map fst (su_writers su) = ic_timeframes_secs (su_ingest su)"
    using f by (simp add: map_fst_writers del: map_map)
  show "distinct (map (\<lambda>(_, w, _). cc_table w) (su_writers su))"
    using f by (simp add: map_table_writers validate_timeframes_ok distinct_map inj_on_def table_name_inject
        del: map_map)
  show "su_writers su \<noteq> []" using f by (simp add: validate_timeframes_ok)
qed




section \<open>The end\<close>

text \<open>
  C31: after ctrl-c the process waits for ever as soon as one supervisor runs one symbol: the routes
  it still holds keep the symbol's channel open. Only a process without symbols drains its writers.
\<close>

theorem shutdown_hangs:
  assumes "list_all (\<lambda>(sv, _). sup_inv sv) svs"
  shows "main_shutdown svs drained =
    (if list_ex (\<lambda>(sv, _). sv_handles sv \<noteq> []) svs then None
     else Some (if drained then WritersDrained else DrainTimedOut))"
proof -
  have "snd (supervisor_shutdown sv session) = [] \<longleftrightarrow> sv_handles sv = []" if "(sv, session) \<in> set svs" for sv session
    using assms that by (fastforce simp: list_all_iff shutdown_waits_on_every_symbol)
  then have "list_all (\<lambda>(sv, session). snd (supervisor_shutdown sv session) = []) svs
      \<longleftrightarrow> \<not> list_ex (\<lambda>(sv, _). sv_handles sv \<noteq> []) svs"
    by (fastforce simp: list_all_iff list_ex_iff)
  then show ?thesis by (simp add: main_shutdown_def)
qed

section \<open>Witnesses\<close>

definition no_env :: env_vars where
  "no_env = \<lparr>ev_region = None, ev_ch_url = None, ev_top_n = None, ev_grpc_listen = None,
     ev_rest_listen = None, ev_auth_token = None, ev_auth_enabled = None\<rparr>"

text \<open>Without a configuration file every pipeline runs.\<close>

lemma default_start:
  "\<exists>su. startup_run (\<lambda>_. True) no_env ingest_config_default = Inr su \<and> su_ingest su = ingest_config_default
    \<and> map fst (su_supervisors su) = pipelines \<and> list_all (\<lambda>(_, c). c = perp_config_default) (su_supervisors su)"
  by (simp add: Let_def startup_run_def channel_bound_ok_def max_permits_def apply_env_def no_env_def
      ingest_config_default_def auth_apply_env_def
      auth_validate_def auth_config_default_def validate_timeframes_ok default_timeframes_secs_def
      retention_validate_def retention_config_default_def default_ch_channel_bound_def
      enabled_supervisors_def section_config_def binance_perp_config_def is_exchange_enabled_def
      perp_config_default_def pipeline_defs List.map_filter_def)

definition default_startup :: startup where
  "default_startup = the (res_ok (startup_run (\<lambda>_. True) no_env ingest_config_default))"

lemma default_startup: "startup_run (\<lambda>_. True) no_env ingest_config_default = Inr default_startup"
  using default_start by (auto simp: default_startup_def)

lemma startup_writers_disjoint_witness: "map fst (su_writers default_startup) = [60]"
  using startup_writers_disjoint [OF default_startup] default_start default_startup
  by (auto simp: ingest_config_default_def default_timeframes_secs_def)






definition one_symbol :: "cluster_frame list supervisor" where
  "one_symbol = sample_supervisor
     \<lparr>sv_handles := [(spec_key (listed_spec ''BTCUSDT''),
        \<lparr>sh_spec = listed_spec ''BTCUSDT'', sh_trade_tx = 0, sh_aggregators = [], sh_ch_fanouts = []\<rparr>)],
      sv_routes := [(listed_spec ''BTCUSDT'', 0)], sv_next_channel := 1\<rparr>"

lemma shutdown_hangs_witness: "main_shutdown [(one_symbol, [])] True = None"
proof -
  have "sup_inv one_symbol" by (simp add: one_symbol_def sup_inv_def route_list_def sample_supervisor_def supervisor_new_def)
  then show ?thesis
    using shutdown_hangs [of "[(one_symbol, [])]" True] by (simp add: one_symbol_def)
qed

end
