(* ===== verification/Live_Theorems.thy ===== *)
theory Live_Theorems
  imports Store_Theorems Stream_Server "HOL-Library.Sublist"
begin

text \<open>
  A live client of the gRPC stream: it applies the wire frames of a key to its view of the open
  window. It may join at any time and may lag; the frames of a window are all it takes to be in sync
  with that window.
\<close>

section \<open>A client\<close>




text \<open>
  A client cannot start over at every snapshot: the snapshots of an open window tell only the buckets
  touched since the one before, and nothing on the wire sets them apart from those of a closed window.
  After one trade such a snapshot has one bucket, whatever the window holds.
\<close>

lemma partial_snapshot_one_bucket:
  assumes "agg_wf a" "ag_current_window a = Some w" "ag_partial_dirty a = []"
    and "trade_in_range t" "align (ag_window_ns a) (tp_ts_ns t) = w"
  shows "\<exists>a' s. Option.bind (ingest a t) (\<lambda>(b, _). current_window_delta b) = Some (a', Some (Snapshot s)) \<and>
    as_window_start_ns s = w \<and> map cb_price (as_clusters s) = [bucket_of a t]"
proof -
  have "ag_partial_dirty (touched a t) = [bucket_of a t]" using assms(3) by (simp add: touched_def)
  moreover have "agg_wf (touched a t)" using assms(1,2) by (simp add: touched_wf)
  moreover have "ingest a t = Some (touched a t, None)" using ingest_eq [OF assms(1,4)] assms(2,5) by simp
  ultimately show ?thesis using assms(2) by (simp add: delta_eq)
qed

section \<open>The wire\<close>








section \<open>One window is enough\<close>









section \<open>Theorem\<close>



end
