(* ===== verification/Spec2Isabelle.thy ===== *)
theory Spec2Isabelle
  imports Footprint_Theorems Diff_Rate Adapter_Theorems Wal_Theorems Cluster_Bus Ch_Sink_Theorems
    History_Theorems Stream_Cli_Theorems Session_Theorems Venue_Pipeline Trade_Types Mexc_Pb_Theorems
    Supervisor_Run Ingest_Main_Theorems Live_Theorems Table_Theorems
begin

text \<open>
  A verification development for the trading-terminal cluster service, a set of Rust crates under
  \<open>src/crates\<close>: sessions with nine exchanges turn venue messages into integer trades, aggregators turn
  the trades of a symbol into footprints (volume and number of trades per price bucket, side and time
  window), a hub hands the footprint frames to live subscribers and to the writers of a ClickHouse
  store, and a server gives out the live frames and the stored history.

  \<^bold>\<open>The way of a trade.\<close> A supervisor per exchange and market polls the instrument list, starts and
  stops symbols and publishes their routes. A session subscribes the routes, decodes frames, finds the
  route of the symbol a frame names, parses its trades with the scales of the instrument and hands them
  to the symbol's channel. A fan-out task copies each trade to one channel per timeframe. The task of a
  timeframe feeds its aggregator, which emits a diff at a tick, a partial snapshot every second and a
  snapshot when a window closes, all on the hub. A task behind the hub turns snapshots into rows and
  sends them to the writer of the timeframe, which inserts batches into the timeframe's table.

  \<^bold>\<open>Theories and sources.\<close>
  \<^item> \<open>Prelude\<close>, \<open>Rust_Str\<close>: machine integers, results and loops that may stop; \<open>str\<close> and integer parsing.
  \<^item> \<open>Exchange_Core\<close>: \<open>exchange-core\<close>, the types; \<open>Json_Api\<close>: what is used of \<open>serde_json\<close>.
  \<^item> \<open>Aggregator\<close>: \<open>cluster-engine/src/aggregator.rs\<close>, its state as the record \<open>aggregator\<close> and \<open>ingest\<close>,
    \<open>tick\<close>, \<open>current_window_delta\<close>, \<open>flush\<close> as functions on it. \<open>Aggregator_Props\<close> has the well-formedness
    invariant, \<open>Footprint\<close> the abstract window machine and what a footprint is, \<open>Frame_Stream\<close> the views
    of subscribers and stores, \<open>Footprint_Runs\<close>, \<open>Footprint_Theorems\<close> and \<open>Diff_Rate\<close> whole runs.
  \<^item> \<open>Cluster_Bus\<close>: \<open>bus.rs\<close> and \<open>task.rs\<close>, the hub and the loop around an aggregator.
  \<^item> \<open>Scale\<close>, \<open>Contract_Math\<close>, \<open>Adapter_Common\<close>, then \<open>Binance\<close>, \<open>Aster\<close>, \<open>Bybit\<close>, \<open>Bitget\<close>, \<open>Okx\<close>, \<open>Kucoin\<close>,
    \<open>Mexc_Pb\<close> and \<open>Mexc\<close>, \<open>Bingx\<close>, \<open>Hyperliquid\<close>: the crates \<open>exchange-*\<close>, each with its own copies of the
    decimal functions, its trade parser, connector and instrument lists; \<open>Adapter_Theorems\<close> and
    \<open>Mexc_Pb_Theorems\<close> are about them.
  \<^item> \<open>Sessions\<close>: the nine \<open>cluster-ingest/src/*_session.rs\<close>; \<open>Session_Theorems\<close> and \<open>Trade_Types\<close>.
  \<^item> \<open>Ingest_Config\<close>, \<open>Supervisor\<close>, \<open>Ingest_Main\<close>: \<open>config.rs\<close>, \<open>binance_supervisor.rs\<close>, \<open>main.rs\<close> of
    \<open>cluster-ingest\<close>; \<open>Supervisor_Theorems\<close> for a cycle, \<open>Supervisor_Run\<close> for a whole run,
    \<open>Ingest_Main_Theorems\<close> for the start and the end of the process.
  \<^item> \<open>Ch_Sink\<close>: \<open>clickhouse-sink\<close>, rows, requests and the batching writer; \<open>Ch_Sink_Theorems\<close>.
  \<^item> \<open>Wal\<close>: the crate \<open>wal\<close>, the bytes of a log file under appends, syncs, failed writes and power
    losses; \<open>Wal_Theorems\<close>.
  \<^item> \<open>Stream_Server\<close>, \<open>Api_Server\<close>, \<open>Cluster_History\<close>: \<open>cluster-api\<close>, the gRPC stream, the bearer check
    with the REST routes and metrics, and the history endpoint; \<open>Api_Theorems\<close>,
    \<open>Cluster_History_Theorems\<close>.
  \<^item> \<open>Stream_Cli\<close>: \<open>cluster-api/examples/stream_cli.rs\<close>, the reference client of the gRPC stream, with
    \<open>serve_with_auth\<close> in front of \<open>Subscribe\<close>; \<open>Stream_Cli_Theorems\<close> runs the client against the server.
  \<^item> \<open>Range_Query\<close>: what the two queries of the history endpoint ask for, as functions of the rows of
    the table they read.
  \<^item> \<open>Live_Theorems\<close> follows the frames from the aggregator over the gRPC stream to a client;
    \<open>Store_Theorems\<close>, \<open>Table_Theorems\<close> and \<open>Pipeline_Theorems\<close> follow them from fan-out, task and hub
    through the retrying writer to the table; \<open>Venue_Pipeline\<close> puts the sessions in front, so that the
    way goes from the frames of an exchange to the table; \<open>Range_Query_Theorems\<close> and \<open>History_Theorems\<close>
    go from the table to the reply of the history endpoint.

  \<^bold>\<open>Conventions.\<close> An \<open>i64\<close> is an \<open>int\<close> with its wrapping, saturating and checked operations written out
  (\<open>in_i64\<close> is its range), an unsigned counter a \<open>nat\<close> that wraps or saturates as the source says, bytes
  and the varints of the wire are words. A panic is \<open>None\<close>, a \<open>Result\<close> a sum with the error at the left, a
  hash map an association list with distinct keys whose order nothing relies on. A \<open>select!\<close> loop is a
  function of the list of its events, a task that mutates state a function from state to state, so an
  interleaving is an order of events; what an I/O call does (a failed write, a full channel, the answer
  of an exchange) is an argument. Libraries are parameters: a record of functions (\<open>json_api\<close>, \<open>f64_api\<close>,
  \<open>broadcast_api\<close>, \<open>http_client\<close>), or a function (the checksum, the gzip decoder, the TOML reader, whether
  a text is a socket address).

  \<^bold>\<open>Interfaces.\<close> \<open>scaled_parser\<close> and \<open>decimal_counter\<close> are the contracts of the two decimal functions,
  \<open>scale_pair\<close> joins them where an adapter has both; they are interpreted on the functions of all nine
  crates (\<open>binance\<close>, \<open>aster\<close>, \<open>bybit\<close> and so on), so each fact about parsing is proved once. \<open>keyed_store\<close>
  is the contract of the process-wide tables (contract multipliers of three exchanges, native coin
  names of a fourth). \<open>session_handlers\<close> says that a frame handler accounts for every trade it hands
  over; it is interpreted on the ten kinds of session (\<open>venue\<close>), and the socket loop is proved over it.

  \<^bold>\<open>What the theorems show.\<close>
  \<^item> Footprints: a stream of trades gives exactly the footprints of its windows, in order, conserving
    trades and volume, at a bounded diff rate, with frames numbered without a gap; a live client
    that takes a gap in the numbers as a loss sees the open window whenever it counts as in sync, and
    a store that loses partial snapshots still ends with the footprints.
  \<^item> Composition: the table of a symbol at a timeframe holds the footprints of the trades that its
    channel accepted, each parsed from a frame that names the symbol, and rows sent again leave no
    trace in it; what sessions hand over has the types an aggregator needs.
  \<^item> History: over a table that holds the footprints of some trades, which is what the composition
    shows, the direct query returns them, and the roll-up of the minute table returns the footprints
    that an aggregator of the long interval would publish, provided that no trade was late for its
    minute only (an aggregator of the interval would count it, the minute table cannot); the
    endpoint's reply is these footprints, column by column.
  \<^item> Adapters: nine decimal parsers are one function; listed instruments are usable; contract sizes
    convert exactly or, as one theorem shows, lose a fractional contract; a protobuf frame decodes to
    the deals that were encoded.
  \<^item> Sessions and supervisor: trades are counted once and go where their frame says; gaps are counted
    exactly; the running symbols follow the listing and reconnects happen only when they change; the
    pauses double up to their bound; a shutdown with running symbols waits for ever.
  \<^item> Storage and server: no row is lost but by a counted drop; the log recovers what was written before
    a crash and what was synced before a power loss; a request cannot change the structure of a query
    nor pass without a token, and the reference client with a token prints what its symbols publish.

  \<^bold>\<open>Bounds.\<close> No definition needs fuel: loops over a buffer or a file end because each step consumes
  bytes (\<open>varint_loop\<close>, \<open>wrapper_loop\<close>, \<open>drain\<close>), loops over a socket or a channel because their list of
  events does, and nothing is stated about a run beyond its events except where the result says that
  it never ends (\<open>main_shutdown\<close>).

  \<^bold>\<open>Not modelled.\<close> The listeners of the gRPC and REST servers with compression and signals, logging and
  metrics text, the constructors and builders of HTTP clients, the pauses between subscribe frames and
  the generation of connection ids, capacity reservations, the deserialisation of the configuration,
  \<open>ops\<close> and \<open>query-api\<close> (constants and an empty crate), \<open>build.rs\<close> and the placeholder \<open>main.rs\<close> of
  \<open>cluster-api\<close>, the banner of the reference client: they hold no logic of the service. Tests are not modelled either, except the
  protobuf encoder of \<open>exchange-mexc/src/pb.rs\<close>, against which the decoder is proved.
\<close>

end
